theory Spec2Isabelle
  imports Complex_Main "HOL-Library.Word" "HOL-Library.Log_Nat"
begin

unbundle bit_operations_syntax

section \<open>Data model of GS3DScreenshot\<close>

type_synonym u8 = "8 word"
type_synonym u16 = "16 word"
type_synonym u32 = "32 word"

subsection \<open>Single-precision values\<close>

text \<open>
  The C++ type \<open>float\<close> is IEEE 754 binary32. Its finite values are modelled as the real
  numbers they denote, and every operation rounds the exact result to the nearest
  such value, ties to the even significand, with 24 significant bits, exponents from
  \<open>-126\<close> to \<open>127\<close> and gradual underflow. The two zeros are one value, and the
  infinities and NaN are one value \<open>NonFinite\<close>; a result of magnitude \<open>2 ^ 128\<close> or
  more after rounding overflows to \<open>NonFinite\<close>.
\<close>

text \<open>Rounding a real to the nearest integer, ties to even.\<close>

definition rne :: "real \<Rightarrow> int" where
  "rne q =
     (let f = \<lfloor>q\<rfloor>; d = q - of_int f in
      if d < 1 / 2 then f else if 1 / 2 < d then f + 1 else if even f then f else f + 1)"

text \<open>
  The exponent of the binade of \<open>x\<close>, not below that of the subnormal numbers, and the
  spacing of the single-precision values there (the unit in the last place).
\<close>

definition expo :: "real \<Rightarrow> int" where
  "expo x = max (- 126) (bitlen \<lfloor>\<bar>x\<bar> * 2 ^ 149\<rfloor> - 150)"

definition ulp :: "real \<Rightarrow> real" where
  "ulp x = 2 powi (expo x - 23)"

text \<open>The single-precision value nearest to \<open>x\<close>, or \<open>None\<close> on overflow.\<close>

definition round32r :: "real \<Rightarrow> real option" where
  "round32r x =
     (let y = of_int (rne (x / ulp x)) * ulp x in
      if 2 ^ 128 \<le> \<bar>y\<bar> then None else Some y)"

text \<open>The finite single-precision values: the reals that rounding leaves as they are.\<close>

typedef f32 = "{x :: real. round32r x = Some x}"
  morphisms f32_val f32_abs
  by (rule exI [of _ 0]) (simp add: round32r_def Let_def rne_def)

datatype flt = Finite f32 | NonFinite

text \<open>Equality of single-precision values is equality of the numbers they stand for.\<close>

instantiation f32 :: equal
begin

definition equal_f32 :: "f32 \<Rightarrow> f32 \<Rightarrow> bool" where
  "equal_f32 a b \<longleftrightarrow> f32_val a = f32_val b"

instance
  by standard (simp add: equal_f32_def f32_val_inject)

end

text \<open>
  The value of a literal or of a conversion to \<open>float\<close>: \<open>round32\<close> where the result
  may overflow, \<open>to_f32\<close> for the integers converted by the program, which are finite.
\<close>

definition round32 :: "real \<Rightarrow> flt" where
  "round32 x = (case round32r x of Some y \<Rightarrow> Finite (f32_abs y) | None \<Rightarrow> NonFinite)"

definition to_f32 :: "real \<Rightarrow> f32" where
  "to_f32 x = (case round32r x of Some y \<Rightarrow> f32_abs y | None \<Rightarrow> f32_abs 0)"

text \<open>
  The operations round the exact result. \<open>NonFinite\<close> is absorbing. Every divisor in
  the source is an integer converted to \<open>float\<close>, hence finite, so \<open>fdiv\<close> takes a
  finite divisor; dividing by zero gives an infinity or NaN.
\<close>

fun fadd :: "flt \<Rightarrow> flt \<Rightarrow> flt" where
  "fadd (Finite a) (Finite b) = round32 (f32_val a + f32_val b)"
| "fadd _ _ = NonFinite"

fun fsub :: "flt \<Rightarrow> flt \<Rightarrow> flt" where
  "fsub (Finite a) (Finite b) = round32 (f32_val a - f32_val b)"
| "fsub _ _ = NonFinite"

fun fmul :: "flt \<Rightarrow> flt \<Rightarrow> flt" where
  "fmul (Finite a) (Finite b) = round32 (f32_val a * f32_val b)"
| "fmul _ _ = NonFinite"

fun fneg :: "flt \<Rightarrow> flt" where
  "fneg (Finite a) = round32 (- f32_val a)"
| "fneg NonFinite = NonFinite"

fun fdiv :: "flt \<Rightarrow> f32 \<Rightarrow> flt" where
  "fdiv (Finite a) d = (if f32_val d = 0 then NonFinite else round32 (f32_val a / f32_val d))"
| "fdiv NonFinite d = NonFinite"

subsection \<open>Triangles and texture regions (GS3DScreenshot.h)\<close>

text \<open>The fields of \<open>Tri::Vert\<close> carry the prefix \<open>vert_\<close>.\<close>

record Vert =
  vert_x :: flt
  vert_y :: flt
  vert_z :: flt
  vert_q :: flt
  vert_u :: flt
  vert_v :: flt
  vert_r :: u8
  vert_g :: u8
  vert_b :: u8
  vert_a :: u8

text \<open>\<open>Vert verts[3]\<close> is a triple; the loops over \<open>i < 3\<close> visit its components in order.\<close>

type_synonym verts3 = "Vert \<times> Vert \<times> Vert"

fun map3 :: "(Vert \<Rightarrow> Vert) \<Rightarrow> verts3 \<Rightarrow> verts3" where
  "map3 f (v0, v1, v2) = (f v0, f v1, f v2)"

fun list3 :: "verts3 \<Rightarrow> Vert list" where
  "list3 (v0, v1, v2) = [v0, v1, v2]"

record Tri =
  verts :: verts3
  culled :: bool
  texture_enabled :: bool
  texture_index :: u32

record TextureRegion =
  u_min :: u16
  u_max :: u16
  v_min :: u16
  v_max :: u16

text \<open>\<open>TextureRegion::operator==\<close>, as written in the header.\<close>

definition TextureRegion_eq :: "TextureRegion \<Rightarrow> TextureRegion \<Rightarrow> bool" where
  "TextureRegion_eq this other \<longleftrightarrow>
     u_min this = u_min other \<and> u_max this = u_max other \<and>
     v_min this = v_min other \<and> v_max this = u_max other"

subsection \<open>The CLAMP register\<close>

text \<open>
  Modelled from the spec: \<open>GIFRegCLAMP\<close> and the wrap-mode constants are declared in
  \<open>GS/GSRegs.h\<close>, which is not part of the sources at hand. The register holds a
  wrap-mode selector per axis with four variants (plain repeat, plain clamp, region
  clamp, region repeat) and two unsigned 10-bit parameter fields per axis.
\<close>

datatype wrap_mode = CLAMP_REPEAT | CLAMP_CLAMP | CLAMP_REGION_CLAMP | CLAMP_REGION_REPEAT

record GIFRegCLAMP =
  WMS :: wrap_mode
  WMT :: wrap_mode
  MINU :: "10 word"
  MAXU :: "10 word"
  MINV :: "10 word"
  MAXV :: "10 word"

section \<open>Wrap-region resolver\<close>

text \<open>
  One pass of the loop of \<open>GetTextureRegionForCLAMP\<close>: the pair \<open>(min, max)\<close> after
  the two \<open>std::min\<close> calls, still as 32-bit values. \<open>MINp\<close> and \<open>MAXp\<close> are the
  locals \<open>MIN\<close> and \<open>MAX\<close> of the source, \<open>dm\<close> is its \<open>dim\<close>.
\<close>

definition clamp_axis :: "wrap_mode \<Rightarrow> u32 \<Rightarrow> u32 \<Rightarrow> u32 \<Rightarrow> u32 \<times> u32" where
  "clamp_axis WM MINp MAXp dm =
     (let (mn, mx) =
        (if WM = CLAMP_REGION_CLAMP then (MINp, MAXp)
         else if WM = CLAMP_REGION_REPEAT then
           (let MSK = MINp; FIX = MAXp in
            if (MSK + 1) AND MSK = 0 \<and> FIX AND MSK = 0
            then (FIX, FIX + MSK)
            else (0, dm - 1))
         else (0, dm - 1));
        mx' = min mx (dm - 1);
        mn' = min mn mx'
      in (mn', mx'))"

text \<open>The results are stored into the 16-bit fields of the region, which truncates them.\<close>

definition GetTextureRegionForCLAMP :: "GIFRegCLAMP \<Rightarrow> u32 \<Rightarrow> u32 \<Rightarrow> TextureRegion" where
  "GetTextureRegionForCLAMP CLAMP twidth theight =
     (let (umin, umax) = clamp_axis (WMS CLAMP) (ucast (MINU CLAMP)) (ucast (MAXU CLAMP)) twidth;
          (vmin, vmax) = clamp_axis (WMT CLAMP) (ucast (MINV CLAMP)) (ucast (MAXV CLAMP)) theight
      in \<lparr>u_min = ucast umin, u_max = ucast umax, v_min = ucast vmin, v_max = ucast vmax\<rparr>)"

text \<open>The spec's structural condition on the mask: \<open>MSK + 1\<close> is a power of two.\<close>

fun is_pow2 :: "nat \<Rightarrow> bool" where
  "is_pow2 n = (if n \<le> 1 then n = 1 else even n \<and> is_pow2 (n div 2))"

declare is_pow2.simps [simp del]

text \<open>
  \<open>dim - 1\<close> as the program computes it, in 32 bits. For every \<open>dim\<close> of at least 1
  this is the number \<open>dim - 1\<close>; for \<open>dim = 0\<close> the subtraction wraps around.
\<close>

definition last_texel :: "u32 \<Rightarrow> nat" where
  "last_texel dm = unat (dm - 1)"



text \<open>
  The region the spec promises for one axis in region-clamp mode:
  \<open>[min(MIN, dim - 1)\<close> clamped to be at most the maximum, \<open>min(MAX, dim - 1)]\<close>.
\<close>

definition region_clamp_spec :: "nat \<Rightarrow> nat \<Rightarrow> nat \<Rightarrow> nat \<times> nat" where
  "region_clamp_spec MINp MAXp top_ix =
     (let mx = min MAXp top_ix in (min (min MINp top_ix) mx, mx))"

text \<open>What the 16-bit fields of the region hold once a pair of 32-bit bounds is stored.\<close>

definition stored16 :: "u32 \<times> u32 \<Rightarrow> nat \<times> nat" where
  "stored16 p = (unat (ucast (fst p) :: u16), unat (ucast (snd p) :: u16))"

section \<open>Batch accumulator\<close>

record GS3DScreenshot =
  m_dump_dir :: string
  m_tri_was_culled :: "bool list"
  m_tris :: "Tri list"
  m_textures :: "string list"
  m_cur_texture_index :: u32
  m_texture_map :: "string \<rightharpoonup> u32"
  m_dump_directory :: string
  m_u_offset :: flt
  m_v_offset :: flt
  m_u_scale :: flt
  m_v_scale :: flt

text \<open>
  A default-constructed object. The containers and strings are empty and the four
  remap members take their default member initialisers. \<open>m_cur_texture_index\<close> has no
  initialiser in the header, so its first value is indeterminate: it is the parameter
  \<open>ix0\<close>.
\<close>

definition GS3DScreenshot_new :: "u32 \<Rightarrow> GS3DScreenshot" where
  "GS3DScreenshot_new ix0 =
     \<lparr>m_dump_dir = [], m_tri_was_culled = [], m_tris = [], m_textures = [],
      m_cur_texture_index = ix0, m_texture_map = Map.empty, m_dump_directory = [],
      m_u_offset = round32 0, m_v_offset = round32 0,
      m_u_scale = round32 1, m_v_scale = round32 1\<rparr>"

definition IsEmpty :: "GS3DScreenshot \<Rightarrow> bool" where
  "IsEmpty s \<longleftrightarrow> m_tris s = []"

text \<open>
  \<open>insert\<close> on the \<open>unordered_map\<close> adds the pair only when the key is absent and
  returns an iterator to the entry of that key. The size of the vector is narrowed to
  \<open>u32\<close>.
\<close>

definition SetTextureName :: "string \<Rightarrow> GS3DScreenshot \<Rightarrow> GS3DScreenshot" where
  "SetTextureName new_name s =
     (let next_texture_index = (of_nat (length (m_textures s)) :: u32) in
      case m_texture_map s new_name of
        None \<Rightarrow>
          s\<lparr>m_texture_map := (m_texture_map s)(new_name \<mapsto> next_texture_index),
            m_textures := m_textures s @ [new_name],
            m_cur_texture_index := next_texture_index\<rparr>
      | Some it_second \<Rightarrow> s\<lparr>m_cur_texture_index := it_second\<rparr>)"

text \<open>
  The \<open>u16\<close> operands of \<open>region.u_max - region.u_min + 1\<close> are promoted to \<open>int\<close>,
  so the difference is taken on integers and may be zero or negative. The integer
  operands of the divisions are converted to \<open>float\<close>.
\<close>

definition SetTextureRegion :: "TextureRegion \<Rightarrow> u32 \<Rightarrow> u32 \<Rightarrow> GS3DScreenshot \<Rightarrow> GS3DScreenshot" where
  "SetTextureRegion region twidth theight s =
     s\<lparr>m_u_offset := fdiv (fneg (round32 (real (unat (u_min region)))))
                       (to_f32 (real (unat twidth))),
       m_v_offset := fdiv (fneg (round32 (real (unat (v_min region)))))
                       (to_f32 (real (unat theight))),
       m_u_scale := fdiv (round32 (real (unat twidth)))
                      (to_f32 (real_of_int (uint (u_max region) - uint (u_min region) + 1))),
       m_v_scale := fdiv (round32 (real (unat theight)))
                      (to_f32 (real_of_int (uint (v_max region) - uint (v_min region) + 1)))\<rparr>"

text \<open>The body of the loop of \<open>AddTri\<close> for one vertex.\<close>

definition remap_uv :: "GS3DScreenshot \<Rightarrow> Vert \<Rightarrow> Vert" where
  "remap_uv s vt =
     vt\<lparr>vert_u := fmul (fadd (vert_u vt) (m_u_offset s)) (m_u_scale s),
        vert_v := fmul (fadd (vert_v vt) (m_v_offset s)) (m_v_scale s)\<rparr>"

definition AddTri :: "Tri \<Rightarrow> GS3DScreenshot \<Rightarrow> GS3DScreenshot" where
  "AddTri tri s =
     (let tri' =
        (if texture_enabled tri
         then tri\<lparr>texture_index := m_cur_texture_index s,
                  verts := map3 (remap_uv s) (verts tri)\<rparr>
         else tri)
      in s\<lparr>m_tris := m_tris s @ [tri']\<rparr>)"

subsection \<open>Sequences of calls\<close>

datatype call =
    Call_SetTextureName string
  | Call_SetTextureRegion TextureRegion u32 u32
  | Call_AddTri Tri

fun exec_call :: "call \<Rightarrow> GS3DScreenshot \<Rightarrow> GS3DScreenshot" where
  "exec_call (Call_SetTextureName n) s = SetTextureName n s"
| "exec_call (Call_SetTextureRegion rg tw th) s = SetTextureRegion rg tw th s"
| "exec_call (Call_AddTri t) s = AddTri t s"

fun run_calls :: "call list \<Rightarrow> GS3DScreenshot \<Rightarrow> GS3DScreenshot" where
  "run_calls [] s = s"
| "run_calls (c # cs) s = run_calls cs (exec_call c s)"

text \<open>
  The calling discipline under which the current texture index is meaningful: a
  texture has been named before the first triangle with texture enabled is added.
  \<open>named\<close> tells whether \<open>SetTextureName\<close> has already been called.
\<close>

fun names_before_use :: "bool \<Rightarrow> call list \<Rightarrow> bool" where
  "names_before_use named [] = True"
| "names_before_use named (Call_SetTextureName n # cs) = names_before_use True cs"
| "names_before_use named (Call_SetTextureRegion rg tw th # cs) = names_before_use named cs"
| "names_before_use named (Call_AddTri t # cs) =
     ((texture_enabled t \<longrightarrow> named) \<and> names_before_use named cs)"

fun is_region_call :: "call \<Rightarrow> bool" where
  "is_region_call (Call_SetTextureRegion rg tw th) = True"
| "is_region_call _ = False"

text \<open>
  The validity conditions on texture indices: every index in the lookup map, every
  index stored in a triangle with texture enabled, and the current index are below
  the size of the texture table.
\<close>

definition table_ok :: "GS3DScreenshot \<Rightarrow> bool" where
  "table_ok s \<longleftrightarrow> (\<forall>n i. m_texture_map s n = Some i \<longrightarrow> unat i < length (m_textures s))"

definition tris_ok :: "GS3DScreenshot \<Rightarrow> bool" where
  "tris_ok s \<longleftrightarrow>
     (\<forall>t \<in> set (m_tris s). texture_enabled t \<longrightarrow> unat (texture_index t) < length (m_textures s))"

definition cur_ok :: "GS3DScreenshot \<Rightarrow> bool" where
  "cur_ok s \<longleftrightarrow> unat (m_cur_texture_index s) < length (m_textures s)"

text \<open>
  A texel coordinate in normalised units: the coordinate divided by the dimension, in
  single precision.
\<close>

definition normalized :: "nat \<Rightarrow> u32 \<Rightarrow> flt" where
  "normalized texel dm = fdiv (round32 (real texel)) (to_f32 (real (unat dm)))"

text \<open>
  The tolerance for the far corner of the region \<open>[lo, hi]\<close>: the two coordinates that
  are subtracted carry a rounding error each, and three more roundings follow.
\<close>

definition corner_tolerance :: "nat \<Rightarrow> nat \<Rightarrow> real" where
  "corner_tolerance lo hi =
     ((real lo + real (hi + 1)) / \<bar>real (hi + 1) - real lo\<bar> + 4) / 2 ^ 24"

text \<open>A value is finite and within \<open>tol\<close> of \<open>c\<close>.\<close>

definition flt_near :: "flt \<Rightarrow> real \<Rightarrow> real \<Rightarrow> bool" where
  "flt_near w c tol = (case w of Finite r \<Rightarrow> \<bar>f32_val r - c\<bar> \<le> tol | NonFinite \<Rightarrow> False)"

text \<open>The remap state of a fresh object: offsets 0 and scales 1.\<close>

definition remap_identity :: "GS3DScreenshot \<Rightarrow> bool" where
  "remap_identity s \<longleftrightarrow>
     m_u_offset s = round32 0 \<and> m_v_offset s = round32 0 \<and>
     m_u_scale s = round32 1 \<and> m_v_scale s = round32 1"

text \<open>Sample vertices and triangles for the concrete instances below.\<close>

definition mk_vert :: "real \<Rightarrow> real \<Rightarrow> real \<Rightarrow> real \<Rightarrow> Vert" where
  "mk_vert px py tu tv =
     \<lparr>vert_x = round32 px, vert_y = round32 py, vert_z = round32 0, vert_q = round32 1,
      vert_u = round32 tu, vert_v = round32 tv,
      vert_r = 255, vert_g = 255, vert_b = 255, vert_a = 255\<rparr>"

definition mk_tri :: "Vert \<Rightarrow> Vert \<Rightarrow> Vert \<Rightarrow> bool \<Rightarrow> bool \<Rightarrow> Tri" where
  "mk_tri v0 v1 v2 cull tex =
     \<lparr>verts = (v0, v1, v2), culled = cull, texture_enabled = tex, texture_index = 0\<rparr>"

section \<open>Serializer\<close>

text \<open>
  \<open>Path::Combine\<close> and \<open>FileSystem::OpenCFile\<close> (common/Path.h, common/FileSystem.h)
  and the formatting of a \<open>float\<close> by the fmt library with \<open>{}\<close> and \<open>{:.3f}\<close> are not
  part of the sources at hand; they are parameters. \<open>OpenCFile\<close> tells whether the
  file could be opened for writing.
\<close>

record host =
  Path_Combine :: "string \<Rightarrow> string \<Rightarrow> string"
  OpenCFile :: "string \<Rightarrow> bool"
  fmt_float :: "flt \<Rightarrow> string"
  fmt_float3 :: "flt \<Rightarrow> string"

text \<open>The files on disk: path to content.\<close>

type_synonym files = "string \<rightharpoonup> string"

text \<open>
  Indexing \<open>m_textures\<close> with \<open>operator[]\<close> beyond its size is undefined behaviour;
  the model stops with this error.
\<close>

datatype error = Texture_index_out_of_range

subsection \<open>The geometry file\<close>

text \<open>
  One value per \<open>fmt::print\<close> call of \<open>DumpOBJ\<close>, holding the arguments of the call.
  The face record of the source is the constant text \<open>f -3/-3 -1/-1 -2/-2\<close>; it is
  kept as its three vertex/texcoord index pairs and printed by \<open>render_obj\<close>.
\<close>

datatype obj_item =
    Obj_header
  | Obj_mtllib string
  | Obj_v flt flt flt flt flt flt
  | Obj_vt flt flt
  | Obj_g string
  | Obj_usemtl string
  | Obj_f "(int \<times> int) list"

definition newline :: string where
  "newline = [CHR 0x0A]"

fun show_nat :: "nat \<Rightarrow> string" where
  "show_nat n =
     (if n < 10 then [''0123456789'' ! n]
      else show_nat (n div 10) @ [''0123456789'' ! (n mod 10)])"

declare show_nat.simps [simp del]

definition show_int :: "int \<Rightarrow> string" where
  "show_int i = (if i < 0 then ''-'' @ show_nat (nat (- i)) else show_nat (nat i))"

fun render_obj :: "host \<Rightarrow> obj_item \<Rightarrow> string" where
  "render_obj h Obj_header = ''# PCSX2 3D Screenshot'' @ newline"
| "render_obj h (Obj_mtllib filename) = ''mtllib '' @ filename @ ''.mtl'' @ newline @ newline"
| "render_obj h (Obj_v px py pz cr cg cb) =
     ''v '' @ fmt_float h px @ '' '' @ fmt_float h py @ '' '' @ fmt_float h pz @ '' '' @
     fmt_float3 h cr @ '' '' @ fmt_float3 h cg @ '' '' @ fmt_float3 h cb @ newline"
| "render_obj h (Obj_vt tu tv) = ''vt '' @ fmt_float h tu @ '' '' @ fmt_float h tv @ newline"
| "render_obj h (Obj_g name) = ''g '' @ name @ newline"
| "render_obj h (Obj_usemtl name) = ''usemtl '' @ name @ newline"
| "render_obj h (Obj_f refs) =
     ''f'' @ concat (map (\<lambda>(vi, ti). '' '' @ show_int vi @ ''/'' @ show_int ti) refs) @
     newline @ newline"

definition face_record :: obj_item where
  "face_record = Obj_f [(-3, -3), (-1, -1), (-2, -2)]"

definition vert_item :: "Vert \<Rightarrow> obj_item" where
  "vert_item vt =
     Obj_v (vert_x vt) (vert_y vt) (vert_z vt)
       (fdiv (round32 (real (unat (vert_r vt)))) (to_f32 255))
       (fdiv (round32 (real (unat (vert_g vt)))) (to_f32 255))
       (fdiv (round32 (real (unat (vert_b vt)))) (to_f32 255))"

definition texcoord_item :: "Vert \<Rightarrow> obj_item" where
  "texcoord_item vt = Obj_vt (vert_u vt) (fsub (round32 1) (vert_v vt))"

text \<open>
  The group and material markers of pass \<open>i\<close> of the loop over \<open>m_tris\<close>. For
  \<open>i = 0\<close> the source does not read \<open>m_tris[i - 1]\<close>.
\<close>

definition group_items :: "Tri list \<Rightarrow> nat \<Rightarrow> obj_item list" where
  "group_items tris i =
     (if i = 0 \<or> culled (tris ! (i - 1)) \<noteq> culled (tris ! i)
      then [Obj_g (if culled (tris ! i) then ''Culled'' else ''Normal'')]
      else [])"

definition usemtl_items :: "GS3DScreenshot \<Rightarrow> nat \<Rightarrow> error + obj_item list" where
  "usemtl_items s i =
     (let tris = m_tris s; tri = tris ! i in
      if i = 0 \<or> texture_enabled (tris ! (i - 1)) \<noteq> texture_enabled tri
               \<or> texture_index (tris ! (i - 1)) \<noteq> texture_index tri
      then
        (if \<not> texture_enabled tri then Inr [Obj_usemtl ''NoTexture'']
         else if unat (texture_index tri) < length (m_textures s)
         then Inr [Obj_usemtl (m_textures s ! unat (texture_index tri))]
         else Inl Texture_index_out_of_range)
      else Inr [])"

text \<open>Everything printed in pass \<open>i\<close> of the loop, for \<open>i\<close> below the number of triangles.\<close>

definition tri_items :: "GS3DScreenshot \<Rightarrow> nat \<Rightarrow> error + obj_item list" where
  "tri_items s i =
     (let tri = m_tris s ! i in
      case usemtl_items s i of
        Inl e \<Rightarrow> Inl e
      | Inr ms \<Rightarrow>
          Inr (map vert_item (list3 (verts tri)) @ map texcoord_item (list3 (verts tri)) @
               group_items (m_tris s) i @ ms @ [face_record]))"

fun DumpOBJ_loop :: "GS3DScreenshot \<Rightarrow> nat list \<Rightarrow> error + obj_item list" where
  "DumpOBJ_loop s [] = Inr []"
| "DumpOBJ_loop s (i # is) =
     (case tri_items s i of
        Inl e \<Rightarrow> Inl e
      | Inr blk \<Rightarrow>
          (case DumpOBJ_loop s is of
             Inl e \<Rightarrow> Inl e
           | Inr rest \<Rightarrow> Inr (blk @ rest)))"

definition DumpOBJ_items :: "GS3DScreenshot \<Rightarrow> string \<Rightarrow> error + obj_item list" where
  "DumpOBJ_items s filename =
     (case DumpOBJ_loop s [0..<length (m_tris s)] of
        Inl e \<Rightarrow> Inl e
      | Inr body \<Rightarrow> Inr (Obj_header # Obj_mtllib filename # body))"

definition DumpOBJ :: "host \<Rightarrow> GS3DScreenshot \<Rightarrow> string \<Rightarrow> files \<Rightarrow> error + bool \<times> files" where
  "DumpOBJ h s filename fs =
     (let path = Path_Combine h (m_dump_dir s) (filename @ ''.obj'') in
      if \<not> OpenCFile h path then Inr (False, fs)
      else case DumpOBJ_items s filename of
             Inl e \<Rightarrow> Inl e
           | Inr items \<Rightarrow> Inr (True, fs(path \<mapsto> concat (map (render_obj h) items))))"

subsection \<open>The material file\<close>




subsection \<open>Reading the geometry file back\<close>

text \<open>
  The lines of a text: it is cut at every line feed, and what follows the last line
  feed is a line when it is not empty.
\<close>

fun split_lines :: "string \<Rightarrow> string \<Rightarrow> string list" where
  "split_lines cur [] = (if cur = [] then [] else [cur])"
| "split_lines cur (c # cs) =
     (if c = CHR 0x0A then cur # split_lines [] cs else split_lines (cur @ [c]) cs)"

definition obj_lines :: "string \<Rightarrow> string list" where
  "obj_lines text = split_lines [] text"

definition nl_free :: "string \<Rightarrow> bool" where
  "nl_free str \<longleftrightarrow> CHR 0x0A \<notin> set str"

text \<open>
  The statement of a line in the target format, by its keyword: a vertex, a texture
  coordinate, a group, a face, or anything else (comments, materials, blank lines),
  with the rest of the line.
\<close>

datatype obj_stmt =
    Stmt_v string
  | Stmt_vt string
  | Stmt_g string
  | Stmt_f string
  | Stmt_other string

definition classify :: "string \<Rightarrow> obj_stmt" where
  "classify l =
     (if take 2 l = ''v '' then Stmt_v (drop 2 l)
      else if take 3 l = ''vt '' then Stmt_vt (drop 3 l)
      else if take 2 l = ''g '' then Stmt_g (drop 2 l)
      else if take 2 l = ''f '' then Stmt_f (drop 2 l)
      else Stmt_other l)"

definition obj_stmts :: "string \<Rightarrow> obj_stmt list" where
  "obj_stmts text = map classify (obj_lines text)"

text \<open>The statements that one \<open>fmt::print\<close> call of \<open>DumpOBJ\<close> contributes.\<close>

definition item_stmts :: "host \<Rightarrow> obj_item \<Rightarrow> obj_stmt list" where
  "item_stmts h item = obj_stmts (render_obj h item)"

text \<open>
  The index pairs of a face statement: fields separated by blanks, each of the form
  \<open>v/vt\<close> with two decimal integers.
\<close>

fun split_on :: "char \<Rightarrow> string \<Rightarrow> string \<Rightarrow> string list" where
  "split_on sep cur [] = [cur]"
| "split_on sep cur (c # cs) =
     (if c = sep then cur # split_on sep [] cs else split_on sep (cur @ [c]) cs)"

definition digit_val :: "char \<Rightarrow> nat option" where
  "digit_val c =
     map_of [(CHR ''0'', 0), (CHR ''1'', 1), (CHR ''2'', 2), (CHR ''3'', 3), (CHR ''4'', 4),
             (CHR ''5'', 5), (CHR ''6'', 6), (CHR ''7'', 7), (CHR ''8'', 8), (CHR ''9'', 9)] c"

fun parse_digits :: "nat \<Rightarrow> string \<Rightarrow> nat option" where
  "parse_digits n [] = Some n"
| "parse_digits n (c # cs) =
     (case digit_val c of None \<Rightarrow> None | Some d \<Rightarrow> parse_digits (10 * n + d) cs)"

definition parse_nat :: "string \<Rightarrow> nat option" where
  "parse_nat str = (if str = [] then None else parse_digits 0 str)"

definition parse_int :: "string \<Rightarrow> int option" where
  "parse_int str =
     (case str of
        [] \<Rightarrow> None
      | c # cs \<Rightarrow>
          if c = CHR ''-'' then map_option (\<lambda>n. - int n) (parse_nat cs)
          else map_option int (parse_nat str))"

definition parse_ref :: "string \<Rightarrow> (int \<times> int) option" where
  "parse_ref field =
     (case split_on CHR ''/'' [] field of
        [a, b] \<Rightarrow>
          (case parse_int a of
             None \<Rightarrow> None
           | Some i \<Rightarrow> (case parse_int b of None \<Rightarrow> None | Some j \<Rightarrow> Some (i, j)))
      | _ \<Rightarrow> None)"

definition parse_face :: "string \<Rightarrow> (int \<times> int) list option" where
  "parse_face payload =
     those (map parse_ref (filter (\<lambda>field. field \<noteq> []) (split_on CHR '' '' [] payload)))"

text \<open>
  The meaning of an index in a face statement when \<open>n\<close> elements have been defined so
  far: \<open>k > 0\<close> names the \<open>k\<close>-th element of the file, \<open>-k\<close> the \<open>k\<close>-th most recent one.
  Positions count from 0.
\<close>

definition obj_position :: "nat \<Rightarrow> int \<Rightarrow> nat option" where
  "obj_position n i =
     (if 0 < i \<and> nat i \<le> n then Some (nat i - 1)
      else if i < 0 \<and> nat (- i) \<le> n then Some (n - nat (- i))
      else None)"

definition resolve :: "string list \<Rightarrow> int \<Rightarrow> (nat \<times> string) option" where
  "resolve xs i = map_option (\<lambda>k. (k, xs ! k)) (obj_position (length xs) i)"

type_synonym corner = "(nat \<times> string) option \<times> (nat \<times> string) option"

text \<open>
  The faces of a geometry file in order: each is the list of its corners, a corner being
  the position and text of the vertex statement and of the texture coordinate statement
  that its index pair denotes; \<open>vs\<close> and \<open>ts\<close> are the statements read so far. A face
  statement that cannot be parsed has no corners.
\<close>

fun stmt_faces :: "string list \<Rightarrow> string list \<Rightarrow> obj_stmt list \<Rightarrow> corner list list" where
  "stmt_faces vs ts [] = []"
| "stmt_faces vs ts (Stmt_v p # rest) = stmt_faces (vs @ [p]) ts rest"
| "stmt_faces vs ts (Stmt_vt p # rest) = stmt_faces vs (ts @ [p]) rest"
| "stmt_faces vs ts (Stmt_f p # rest) =
     (case parse_face p of
        None \<Rightarrow> []
      | Some refs \<Rightarrow> map (\<lambda>(vi, ti). (resolve vs vi, resolve ts ti)) refs) #
     stmt_faces vs ts rest"
| "stmt_faces vs ts (Stmt_g p # rest) = stmt_faces vs ts rest"
| "stmt_faces vs ts (Stmt_other p # rest) = stmt_faces vs ts rest"

definition text_faces :: "string \<Rightarrow> corner list list" where
  "text_faces text = stmt_faces [] [] (obj_stmts text)"

text \<open>The face statements of a text, as they stand after the keyword.\<close>

fun stmt_face :: "obj_stmt \<Rightarrow> string list" where
  "stmt_face (Stmt_f p) = [p]"
| "stmt_face (Stmt_v p) = []"
| "stmt_face (Stmt_vt p) = []"
| "stmt_face (Stmt_g p) = []"
| "stmt_face (Stmt_other p) = []"

definition face_records :: "string \<Rightarrow> string list" where
  "face_records text = concat (map stmt_face (obj_stmts text))"

text \<open>
  What \<open>DumpOBJ\<close> prints after the keyword for a vertex: the arguments of the two
  \<open>fmt::print\<close> calls, without keyword and line feed.
\<close>

definition vertex_text :: "host \<Rightarrow> Vert \<Rightarrow> string" where
  "vertex_text h vt = drop 2 (butlast (render_obj h (vert_item vt)))"

definition texcoord_text :: "host \<Rightarrow> Vert \<Rightarrow> string" where
  "texcoord_text h vt = drop 3 (butlast (render_obj h (texcoord_item vt)))"

text \<open>
  The face expected for triangle number \<open>i\<close> of the batch: its vertices are the
  statements number \<open>3 * i\<close>, \<open>3 * i + 1\<close> and \<open>3 * i + 2\<close> of the file, and the face names
  the first, the third and the second of them.
\<close>

definition corner_of :: "host \<Rightarrow> nat \<Rightarrow> Vert \<Rightarrow> corner" where
  "corner_of h k vt = (Some (k, vertex_text h vt), Some (k, texcoord_text h vt))"

definition face_of_tri :: "host \<Rightarrow> nat \<Rightarrow> Tri \<Rightarrow> corner list" where
  "face_of_tri h i t =
     (case verts t of
        (v0, v1, v2) \<Rightarrow>
          [corner_of h (3 * i) v0, corner_of h (3 * i + 2) v2, corner_of h (3 * i + 1) v1])"

definition faces_of_tris :: "host \<Rightarrow> Tri list \<Rightarrow> corner list list" where
  "faces_of_tris h tris = map (\<lambda>i. face_of_tri h i (tris ! i)) [0..<length tris]"

text \<open>The group and face statements of a text, in order.\<close>

datatype mark = Group string | Face

fun stmt_marks :: "obj_stmt \<Rightarrow> mark list" where
  "stmt_marks (Stmt_g name) = [Group name]"
| "stmt_marks (Stmt_f p) = [Face]"
| "stmt_marks (Stmt_v p) = []"
| "stmt_marks (Stmt_vt p) = []"
| "stmt_marks (Stmt_other p) = []"

definition text_marks :: "string \<Rightarrow> mark list" where
  "text_marks text = concat (map stmt_marks (obj_stmts text))"

text \<open>
  The group and face statements a reader expects for a list of triangles when it
  carries the culled flag of the last triangle along, as the spec words it: a group for
  the first triangle and at every change of the flag, and one face per triangle.
\<close>

fun group_marks :: "bool option \<Rightarrow> Tri list \<Rightarrow> mark list" where
  "group_marks prev [] = []"
| "group_marks prev (t # ts) =
     (if prev = Some (culled t) then []
      else [Group (if culled t then ''Culled'' else ''Normal'')]) @
     [Face] @ group_marks (Some (culled t)) ts"

text \<open>
  No text that \<open>DumpOBJ\<close> inserts into a line holds a line feed: the file name, the
  texture names, the formatted numbers of every vertex.
\<close>

definition plain_vert :: "host \<Rightarrow> Vert \<Rightarrow> bool" where
  "plain_vert h vt \<longleftrightarrow> nl_free (vertex_text h vt) \<and> nl_free (texcoord_text h vt)"

definition plain_dump :: "host \<Rightarrow> GS3DScreenshot \<Rightarrow> string \<Rightarrow> bool" where
  "plain_dump h s filename \<longleftrightarrow>
     nl_free filename \<and> list_all nl_free (m_textures s)
     \<and> list_all (\<lambda>t. list_all (plain_vert h) (list3 (verts t))) (m_tris s)"

text \<open>A host for the concrete instances below: every file opens.\<close>

definition sample_host :: host where
  "sample_host =
     \<lparr>Path_Combine = (\<lambda>dir name. dir @ ''/'' @ name), OpenCFile = (\<lambda>path. True),
      fmt_float =
        (\<lambda>w. case w of Finite c \<Rightarrow> show_int \<lfloor>f32_val c\<rfloor> | NonFinite \<Rightarrow> ''nan''),
      fmt_float3 =
        (\<lambda>w. case w of Finite c \<Rightarrow> show_int \<lfloor>f32_val c\<rfloor> @ ''.000'' | NonFinite \<Rightarrow> ''nan'')\<rparr>"

section \<open>Properties of rounding\<close>

lemma rne_err: "\<bar>of_int (rne q) - q\<bar> \<le> 1 / 2"
  unfolding rne_def Let_def by (auto simp: abs_le_iff)

lemma rne_int [simp]: "rne (of_int n) = n"
  by (simp add: rne_def)

lemma floor_minus_nonint:
  fixes q :: real
  assumes "q \<noteq> of_int \<lfloor>q\<rfloor>"
  shows "\<lfloor>- q\<rfloor> = - \<lfloor>q\<rfloor> - 1"
proof -
  have a: "of_int \<lfloor>q\<rfloor> < q" using assms of_int_floor_le [of q] by linarith
  have b: "q < of_int \<lfloor>q\<rfloor> + 1" by linarith
  have c: "real_of_int (- \<lfloor>q\<rfloor> - 1) = - real_of_int \<lfloor>q\<rfloor> - 1" by simp
  have "of_int (- \<lfloor>q\<rfloor> - 1) \<le> - q" unfolding c using b by linarith
  moreover have "- q < of_int (- \<lfloor>q\<rfloor> - 1) + 1" unfolding c using a by linarith
  ultimately show ?thesis by (rule floor_unique)
qed

lemma rne_minus: "rne (- q) = - rne q" for q :: real
proof (cases "q = of_int \<lfloor>q\<rfloor>")
  case True
  then obtain n where "q = of_int n" ..
  then have "- q = of_int (- n)" by simp
  then show ?thesis unfolding \<open>q = of_int n\<close> by (simp only: rne_int)
next
  case False
  have f: "\<lfloor>- q\<rfloor> = - \<lfloor>q\<rfloor> - 1" using False by (rule floor_minus_nonint)
  have "of_int \<lfloor>q\<rfloor> < q" using False of_int_floor_le [of q] by linarith
  then show ?thesis
    unfolding rne_def Let_def f by (auto simp: field_simps)
qed


lemma expo_ge: "- 126 \<le> expo x"
  by (simp add: expo_def)

lemma expo_minus [simp]: "expo (- x) = expo x"
  by (simp add: expo_def)

lemma pow2_shift: "2 powi (k - 149) * 2 ^ 149 = (2 powi k :: real)"
proof -
  have "(2::real) powi (k - 149) * 2 powi 149 = 2 powi (k - 149 + 149)"
    by (subst power_int_add) simp_all
  then show ?thesis by simp
qed

lemma expo_upper: "\<bar>x\<bar> < 2 powi (expo x + 1)"
proof -
  let ?n = "\<lfloor>\<bar>x\<bar> * 2 ^ 149\<rfloor>"
  let ?k = "bitlen ?n"
  have up: "\<bar>x\<bar> * 2 ^ 149 < of_int ?n + 1" by linarith
  have "of_int ?n + 1 \<le> (2::real) powi ?k"
  proof (cases "0 < ?n")
    case True
    then have "?n < 2 ^ nat ?k" using bitlen_bounds by blast
    then have "?n + 1 \<le> 2 ^ nat ?k" by simp
    then have "real_of_int (?n + 1) \<le> real_of_int (2 ^ nat ?k)" by (simp only: of_int_le_iff)
    then show ?thesis using bitlen_nonneg [of ?n] by (simp add: power_int_nonneg_exp)
  next
    case False
    moreover have "0 \<le> ?n" by simp
    ultimately have "?n = 0" by linarith
    then show ?thesis by simp
  qed
  with up have "\<bar>x\<bar> * 2 ^ 149 < 2 powi ?k" by linarith
  then have "\<bar>x\<bar> * 2 ^ 149 < 2 powi (?k - 149) * 2 ^ 149" by (simp only: pow2_shift)
  then have "\<bar>x\<bar> < 2 powi (?k - 149)" by simp
  also have "(2::real) powi (?k - 149) \<le> 2 powi (expo x + 1)"
    by (intro power_int_increasing) (simp_all add: expo_def)
  finally show ?thesis .
qed

lemma expo_lower:
  assumes "- 126 < expo x"
  shows "2 powi (expo x) \<le> \<bar>x\<bar>"
proof -
  let ?n = "\<lfloor>\<bar>x\<bar> * 2 ^ 149\<rfloor>"
  let ?k = "bitlen ?n"
  from assms have e: "expo x = ?k - 150" and k: "24 < ?k" by (simp_all add: expo_def max_def split: if_splits)
  have pos: "0 < ?n" using k bitlen_eq_zero_iff [of ?n] by (cases "0 < ?n") auto
  then have "2 ^ nat (?k - 1) \<le> ?n" using bitlen_bounds by blast
  then have "real_of_int (2 ^ nat (?k - 1)) \<le> real_of_int ?n" by (simp only: of_int_le_iff)
  then have "(2::real) powi (?k - 1) \<le> of_int ?n" using k by (simp add: power_int_nonneg_exp)
  also have "\<dots> \<le> \<bar>x\<bar> * 2 ^ 149" by linarith
  finally have "(2::real) powi (?k - 1 - 149) * 2 ^ 149 \<le> \<bar>x\<bar> * 2 ^ 149" by (simp only: pow2_shift)
  then have "(2::real) powi (?k - 1 - 149) \<le> \<bar>x\<bar>" by simp
  then show ?thesis by (simp add: e)
qed

lemma expo_unique:
  assumes "- 126 \<le> e" and "e = - 126 \<or> 2 powi e \<le> \<bar>x\<bar>" and "\<bar>x\<bar> < 2 powi (e + 1)"
  shows "expo x = e"
proof (rule antisym)
  show "expo x \<le> e"
  proof (rule ccontr)
    assume "\<not> expo x \<le> e"
    then have lt: "e + 1 \<le> expo x" and "- 126 < expo x" using assms(1) by simp_all
    then have "2 powi (expo x) \<le> \<bar>x\<bar>" using expo_lower by blast
    moreover have "(2::real) powi (e + 1) \<le> 2 powi (expo x)"
      using lt by (intro power_int_increasing) simp_all
    ultimately show False using assms(3) by linarith
  qed
  show "e \<le> expo x"
  proof (rule ccontr)
    assume "\<not> e \<le> expo x"
    then have lt: "expo x + 1 \<le> e" by simp
    with expo_ge [of x] have "e \<noteq> - 126" by linarith
    with assms(2) have "2 powi e \<le> \<bar>x\<bar>" by blast
    moreover have "(2::real) powi (expo x + 1) \<le> 2 powi e"
      using lt by (intro power_int_increasing) simp_all
    ultimately show False using expo_upper [of x] by linarith
  qed
qed


lemma ulp_pos: "0 < ulp x"
  by (simp add: ulp_def)

lemma ulp_minus [simp]: "ulp (- x) = ulp x"
  by (simp add: ulp_def)

lemma pow2_add: "2 powi a * 2 powi b = (2::real) powi (a + b)"
  by (simp add: power_int_add)

lemma pow2_less_exp:
  assumes "(2::real) powi a < 2 powi b"
  shows "a < b"
proof (rule ccontr)
  assume "\<not> a < b"
  then have "(2::real) powi b \<le> 2 powi a" by (intro power_int_increasing) simp_all
  with assms show False by linarith
qed

lemma ulp_times: "ulp x * 2 ^ 24 = 2 powi (expo x + 1)"
proof -
  have "ulp x * 2 powi 24 = 2 powi (expo x - 23 + 24)"
    unfolding ulp_def by (rule pow2_add)
  moreover have "expo x - 23 + 24 = expo x + 1" by simp
  moreover have "(2::real) powi 24 = 2 ^ 24" by simp
  ultimately show ?thesis by (simp only:)
qed

lemma round32r_minus: "round32r (- x) = map_option uminus (round32r x)"
  by (simp add: round32r_def Let_def rne_minus)

lemma round32r_zero: "round32r 0 = Some 0"
  by (simp add: round32r_def Let_def rne_def)

lemma round32r_err:
  assumes "round32r x = Some y"
  shows "\<bar>y - x\<bar> \<le> ulp x / 2"
proof -
  from assms have y: "y = of_int (rne (x / ulp x)) * ulp x"
    by (simp add: round32r_def Let_def split: if_splits)
  have "\<bar>of_int (rne (x / ulp x)) - x / ulp x\<bar> * ulp x \<le> 1 / 2 * ulp x"
    using rne_err [of "x / ulp x"] ulp_pos [of x] by (intro mult_right_mono) simp_all
  moreover have "\<bar>of_int (rne (x / ulp x)) - x / ulp x\<bar> * ulp x = \<bar>y - x\<bar>"
  proof -
    have "(of_int (rne (x / ulp x)) - x / ulp x) * ulp x = y - x"
      using ulp_pos [of x] by (simp add: y left_diff_distrib)
    then have "\<bar>y - x\<bar> = \<bar>(of_int (rne (x / ulp x)) - x / ulp x) * ulp x\<bar>" by simp
    also have "\<dots> = \<bar>of_int (rne (x / ulp x)) - x / ulp x\<bar> * \<bar>ulp x\<bar>" by (rule abs_mult)
    also have "\<bar>ulp x\<bar> = ulp x" using ulp_pos [of x] by simp
    finally show ?thesis by simp
  qed
  ultimately show ?thesis by simp
qed

lemma quotient_bound: "\<bar>x / ulp x\<bar> < 2 ^ 24"
proof -
  have "\<bar>x\<bar> < ulp x * 2 ^ 24" using expo_upper [of x] by (simp only: ulp_times)
  then show ?thesis using ulp_pos [of x] by (simp add: field_simps)
qed

lemma rne_bound:
  assumes "\<bar>q\<bar> < 2 ^ 24"
  shows "\<bar>rne q\<bar> \<le> 2 ^ 24"
proof -
  have "\<bar>real_of_int (rne q)\<bar> \<le> \<bar>q\<bar> + 1 / 2" using rne_err [of q] by linarith
  then have "\<bar>real_of_int (rne q)\<bar> < 2 ^ 24 + 1" using assms by linarith
  then have "real_of_int \<bar>rne q\<bar> < real_of_int (2 ^ 24 + 1)" by simp
  then have "\<bar>rne q\<bar> < 2 ^ 24 + 1" by (simp only: of_int_less_iff)
  then show ?thesis by simp
qed

text \<open>Every \<open>m * 2 ^ e\<close> with a significand of at most 24 bits is a fixed point.\<close>

lemma round32r_exact:
  assumes x: "x = of_int m * 2 powi e" and m: "\<bar>m\<bar> < 2 ^ 24" and e: "- 149 \<le> e"
    and fin: "\<bar>x\<bar> < 2 ^ 128"
  shows "round32r x = Some x"
proof (cases "m = 0")
  case True
  then show ?thesis using x by (simp add: round32r_zero)
next
  case False
  let ?E = "expo x"
  have le: "?E \<le> e + 23"
  proof (cases "?E = - 126")
    case True
    then show ?thesis using e by simp
  next
    case False
    then have "- 126 < ?E" using expo_ge [of x] by simp
    then have "2 powi ?E \<le> \<bar>x\<bar>" by (rule expo_lower)
    also have "\<bar>x\<bar> = real_of_int \<bar>m\<bar> * 2 powi e" by (simp add: x abs_mult)
    also have "\<dots> < 2 ^ 24 * 2 powi e"
    proof -
      have "real_of_int \<bar>m\<bar> < real_of_int (2 ^ 24)" using m by (simp only: of_int_less_iff)
      then show ?thesis by (intro mult_strict_right_mono) simp_all
    qed
    also have "\<dots> = 2 powi (e + 24)"
      using pow2_add [of 24 e] by (simp add: add.commute)
    finally have "(2::real) powi ?E < 2 powi (e + 24)" .
    then have "?E < e + 24" by (rule pow2_less_exp)
    then show ?thesis by simp
  qed
  define k where "k = nat (e - ?E + 23)"
  have k: "int k = e - ?E + 23" using le by (simp add: k_def)
  have "int k + (?E - 23) = e" by (simp add: k)
  then have "(2::real) powi e = 2 powi (int k) * 2 powi (?E - 23)"
    by (simp only: pow2_add)
  then have p: "(2::real) powi e = 2 ^ k * ulp x" by (simp add: ulp_def)
  have "of_int m * 2 powi e = of_int m * (2 ^ k * ulp x)" by (simp only: p)
  with x have xx: "x = of_int m * (2 ^ k * ulp x)" by (rule trans)
  define w where "w = ulp x"
  have w: "0 < w" by (simp add: w_def ulp_pos)
  have xw: "x = of_int m * (2 ^ k * w)" using xx by (simp only: w_def)
  have "x / w = of_int (m * 2 ^ k)" using w by (simp add: xw)
  then have "rne (x / w) = m * 2 ^ k" by (simp only: rne_int)
  then have "of_int (rne (x / w)) * w = x" by (simp add: xw)
  then have "of_int (rne (x / ulp x)) * ulp x = x" by (simp only: w_def)
  then show ?thesis using fin by (simp add: round32r_def Let_def)
qed

lemma round32r_idem:
  assumes "round32r x = Some y"
  shows "round32r y = Some y"
proof -
  let ?n = "rne (x / ulp x)"
  from assms have y: "y = of_int ?n * ulp x" and fin: "\<bar>y\<bar> < 2 ^ 128"
    by (simp_all add: round32r_def Let_def split: if_splits)
  have n: "\<bar>?n\<bar> \<le> 2 ^ 24" using quotient_bound by (rule rne_bound)
  show ?thesis
  proof (cases "\<bar>?n\<bar> = 2 ^ 24")
    case False
    with n have "\<bar>?n\<bar> < 2 ^ 24" by simp
    moreover have "y = of_int ?n * 2 powi (expo x - 23)" by (simp add: y ulp_def)
    moreover have "- 149 \<le> expo x - 23" using expo_ge [of x] by simp
    ultimately show ?thesis using fin by (intro round32r_exact [where m = ?n and e = "expo x - 23"])
  next
    case True
    then have "real_of_int \<bar>?n\<bar> = 2 ^ 24" by simp
    then have "real_of_int ?n = of_int (sgn ?n) * 2 ^ 24"
      by (cases "0 \<le> ?n") (simp_all add: sgn_if)
    then have "y = of_int (sgn ?n) * (ulp x * 2 ^ 24)" by (simp add: y)
    then have y': "y = of_int (sgn ?n) * 2 powi (expo x + 1)" by (simp only: ulp_times)
    moreover have "\<bar>sgn ?n\<bar> < 2 ^ 24" by (simp add: sgn_if)
    moreover have "- 149 \<le> expo x + 1" using expo_ge [of x] by simp
    ultimately show ?thesis using fin
      by (intro round32r_exact [where m = "sgn ?n" and e = "expo x + 1"])
  qed
qed


lemma rne_ulp_err: "\<bar>of_int (rne (x / ulp x)) * ulp x - x\<bar> \<le> ulp x / 2"
proof -
  have "\<bar>of_int (rne (x / ulp x)) - x / ulp x\<bar> * ulp x \<le> 1 / 2 * ulp x"
    using rne_err [of "x / ulp x"] ulp_pos [of x] by (intro mult_right_mono) simp_all
  moreover have "\<bar>of_int (rne (x / ulp x)) - x / ulp x\<bar> * ulp x
                 = \<bar>of_int (rne (x / ulp x)) * ulp x - x\<bar>"
  proof -
    have "(of_int (rne (x / ulp x)) - x / ulp x) * ulp x = of_int (rne (x / ulp x)) * ulp x - x"
      using ulp_pos [of x] by (simp add: left_diff_distrib)
    then have "\<bar>of_int (rne (x / ulp x)) * ulp x - x\<bar>
               = \<bar>(of_int (rne (x / ulp x)) - x / ulp x) * ulp x\<bar>" by simp
    also have "\<dots> = \<bar>of_int (rne (x / ulp x)) - x / ulp x\<bar> * \<bar>ulp x\<bar>" by (rule abs_mult)
    also have "\<bar>ulp x\<bar> = ulp x" using ulp_pos [of x] by simp
    finally show ?thesis by simp
  qed
  ultimately show ?thesis by simp
qed

lemma half_ulp: "ulp x / 2 \<le> \<bar>x\<bar> / 2 ^ 24 + 2 powi (- 150)"
proof (cases "expo x = - 126")
  case True
  have "ulp x = 2 powi (- 149)" by (simp add: ulp_def True)
  moreover have "(2::real) powi (- 149) / 2 = 2 powi (- 150)"
    using pow2_add [of "- 150" 1] by simp
  ultimately have "ulp x / 2 = 2 powi (- 150)" by simp
  moreover have "0 \<le> \<bar>x\<bar> / 2 ^ 24" by simp
  ultimately show ?thesis by linarith
next
  case False
  then have "- 126 < expo x" using expo_ge [of x] by simp
  then have "2 powi (expo x) \<le> \<bar>x\<bar>" by (rule expo_lower)
  moreover have "ulp x * 2 ^ 24 = 2 * 2 powi (expo x)"
  proof -
    have "ulp x * 2 powi 23 = 2 powi (expo x - 23 + 23)"
      unfolding ulp_def by (rule pow2_add)
    moreover have "expo x - 23 + 23 = expo x" by simp
    moreover have "(2::real) powi 23 = 2 ^ 23" by simp
    ultimately have a: "ulp x * 2 ^ 23 = 2 powi (expo x)" by (simp only:)
    have "ulp x * 2 ^ 24 = 2 * (ulp x * 2 ^ 23)" by simp
    then show ?thesis by (simp only: a)
  qed
  ultimately have "ulp x * 2 ^ 24 \<le> 2 * \<bar>x\<bar>" by linarith
  then have "ulp x / 2 \<le> \<bar>x\<bar> / 2 ^ 24" by (simp add: field_simps)
  moreover have "(0::real) \<le> 2 powi (- 150)" by simp
  ultimately show ?thesis by linarith
qed

text \<open>Below \<open>2 ^ 100\<close> rounding does not overflow and is accurate to half a unit in the last place.\<close>

lemma round32r_finite:
  assumes "\<bar>x\<bar> \<le> 2 ^ 100"
  shows "\<exists>y. round32r x = Some y \<and> \<bar>y - x\<bar> \<le> \<bar>x\<bar> / 2 ^ 24 + 2 powi (- 150)"
proof -
  let ?y = "of_int (rne (x / ulp x)) * ulp x"
  have err: "\<bar>?y - x\<bar> \<le> \<bar>x\<bar> / 2 ^ 24 + 2 powi (- 150)"
    using rne_ulp_err [of x] half_ulp [of x] by linarith
  have "(2::real) powi (- 150) \<le> 2 powi 0" by (intro power_int_increasing) simp_all
  then have t: "(2::real) powi (- 150) \<le> 1" by simp
  have "\<bar>x\<bar> / 2 ^ 24 \<le> \<bar>x\<bar>" by (simp add: field_simps)
  with err t have "\<bar>?y - x\<bar> \<le> \<bar>x\<bar> + 1" by linarith
  then have "\<bar>?y\<bar> \<le> 2 * \<bar>x\<bar> + 1" by linarith
  also have "\<dots> \<le> 2 * 2 ^ 100 + 1" using assms by simp
  also have "\<dots> < (2::real) ^ 128" by simp
  finally have "\<not> 2 ^ 128 \<le> \<bar>?y\<bar>" by simp
  then have "round32r x = Some ?y" by (simp add: round32r_def Let_def)
  with err show ?thesis by blast
qed

lemma f32_val_abs: "round32r x = Some y \<Longrightarrow> f32_val (f32_abs y) = y"
  by (simp add: f32_abs_inverse round32r_idem)

lemma f32_val_fixed: "round32r (f32_val a) = Some (f32_val a)"
  using f32_val [of a] by simp

lemma round32_val [simp]: "round32 (f32_val a) = Finite a"
  by (simp add: round32_def f32_val_fixed f32_val_inverse)

lemma to_f32_val [simp]: "to_f32 (f32_val a) = a"
  by (simp add: to_f32_def f32_val_fixed f32_val_inverse)

lemma round32_to_f32: "round32r x = Some y \<Longrightarrow> round32 x = Finite (to_f32 x) \<and> f32_val (to_f32 x) = y"
  by (simp add: round32_def to_f32_def f32_val_abs)

lemma round32_minus: "round32r x = Some y \<Longrightarrow> round32 (- x) = Finite (to_f32 (- x)) \<and> f32_val (to_f32 (- x)) = - y"
  by (rule round32_to_f32) (simp add: round32r_minus)


lemma rne_near:
  assumes "\<bar>q - of_int m\<bar> < 1 / 2"
  shows "rne q = m"
proof (cases "of_int m \<le> q")
  case True
  then have "\<lfloor>q\<rfloor> = m" using assms by (intro floor_unique) linarith+
  then show ?thesis using assms True by (simp add: rne_def Let_def)
next
  case False
  then have f: "\<lfloor>q\<rfloor> = m - 1" using assms by (intro floor_unique) (simp, linarith+)
  have "1 / 2 < q - of_int (m - 1)" using assms False by simp
  then show ?thesis unfolding rne_def Let_def f by simp
qed

lemma round32r_eval:
  assumes k: "- 126 \<le> k" and lo: "2 powi k \<le> \<bar>x\<bar>" and hi: "\<bar>x\<bar> < 2 powi (k + 1)"
    and m: "\<bar>x / 2 powi (k - 23) - of_int m\<bar> < 1 / 2"
    and fin: "\<bar>of_int m * 2 powi (k - 23)\<bar> < (2::real) ^ 128"
  shows "round32r x = Some (of_int m * 2 powi (k - 23))"
proof -
  have e: "expo x = k" using k lo hi by (intro expo_unique) simp_all
  have u: "ulp x = 2 powi (k - 23)" by (simp add: ulp_def e)
  have r: "rne (x / 2 powi (k - 23)) = m" using m by (rule rne_near)
  show ?thesis unfolding round32r_def Let_def u r using fin by simp
qed

subsection \<open>Evaluation\<close>

lemma f32_abs_val [code abstype]: "f32_abs (f32_val a) = a"
  by (rule f32_val_inverse)

lemma to_f32_code [code abstract]:
  "f32_val (to_f32 x) = (case round32r x of Some y \<Rightarrow> y | None \<Rightarrow> 0)"
proof (cases "round32r x")
  case None
  then show ?thesis using f32_val_abs [OF round32r_zero] by (simp add: to_f32_def)
next
  case (Some y)
  then show ?thesis using round32_to_f32 [OF Some] by simp
qed

lemma round32_code [code]:
  "round32 x = (case round32r x of Some y \<Rightarrow> Finite (to_f32 x) | None \<Rightarrow> NonFinite)"
  by (cases "round32r x") (simp_all add: round32_def to_f32_def)


section \<open>Properties of the wrap-region resolver\<close>


lemma is_pow2_iff: "is_pow2 n \<longleftrightarrow> (\<exists>k. n = 2 ^ k)"
proof
  show "is_pow2 n \<Longrightarrow> \<exists>k. n = 2 ^ k"
  proof (induction n rule: is_pow2.induct)
    case (1 n)
    show ?case
    proof (cases "n \<le> 1")
      case True
      with "1.prems" have "n = 2 ^ 0" by (simp add: is_pow2.simps [of n])
      then show ?thesis by blast
    next
      case False
      with "1.prems" have e: "even n" and p: "is_pow2 (n div 2)"
        by (simp_all add: is_pow2.simps [of n])
      from "1.IH" [OF False p] obtain k where "n div 2 = 2 ^ k" by blast
      with e have "n = 2 ^ Suc k" by auto
      then show ?thesis by blast
    qed
  qed
next
  assume "\<exists>k. n = 2 ^ k"
  then obtain k where "n = 2 ^ k" by blast
  then show "is_pow2 n"
  proof (induction k arbitrary: n)
    case 0
    then show ?case by (simp add: is_pow2.simps)
  next
    case (Suc k)
    then have "is_pow2 (n div 2)" by simp
    moreover have "even n" using Suc.prems by simp
    moreover have "(1::nat) \<le> 2 ^ k" by simp
    then have "(2::nat) \<le> 2 * 2 ^ k" by linarith
    then have "\<not> n \<le> 1" using Suc.prems by (simp only: power_Suc)
    ultimately show ?case by (subst is_pow2.simps) simp
  qed
qed

lemma last_texel_pos: "0 < dm \<Longrightarrow> last_texel dm = unat dm - 1"
  by (simp add: last_texel_def unat_minus_one word_neq_0_conv)

lemma unat_min_word: "unat (min a b) = min (unat a) (unat b)" for a b :: "'a::len word"
  by (simp add: min_def word_le_nat_alt)

lemma unat_field32: "unat (ucast (m :: 10 word) :: u32) = unat m"
  using unsigned_less [of m, where 'a = nat]
  by (simp add: unsigned_ucast_eq take_bit_nat_eq_self)

lemma unat_field_bound: "unat (m :: 10 word) < 1024"
  using unsigned_less [of m, where 'a = nat] by simp

lemma unat_store16: "unat w < 65536 \<Longrightarrow> unat (ucast (w :: u32) :: u16) = unat w"
  by (simp add: unsigned_ucast_eq take_bit_nat_eq_self)

lemma store16_small: "unat w = n \<Longrightarrow> n < 65536 \<Longrightarrow> unat (ucast (w :: u32) :: u16) = n"
  by (simp add: unat_store16)

lemma min_nest: "min (min a c) (min b c) = min a (min b c)" for a b c :: nat
  by (simp add: min_def)






lemma clamp_axis_region_clamp:
  "stored16 (clamp_axis CLAMP_REGION_CLAMP (ucast mn) (ucast mx) dm)
   = region_clamp_spec (unat (mn :: 10 word)) (unat (mx :: 10 word)) (last_texel dm)"
proof -
  have b: "unat mn < 65536" "unat mx < 65536"
    using unat_field_bound [of mn] unat_field_bound [of mx] by simp_all
  have x: "unat (min (ucast mx) (dm - 1)) = min (unat mx) (unat (dm - 1))"
    by (simp add: unat_min_word unat_field32)
  have n: "unat (min (ucast mn) (min (ucast mx) (dm - 1)))
           = min (unat mn) (min (unat mx) (unat (dm - 1)))"
    by (simp add: unat_min_word unat_field32)
  have "unat (ucast (min (ucast mx) (dm - 1)) :: u16) = min (unat mx) (unat (dm - 1))"
    by (rule store16_small [OF x]) (use b in simp)
  moreover have "unat (ucast (min (ucast mn) (min (ucast mx) (dm - 1))) :: u16)
                 = min (unat mn) (min (unat mx) (unat (dm - 1)))"
    by (rule store16_small [OF n]) (use b in simp)
  ultimately show ?thesis
    by (simp add: clamp_axis_def stored16_def region_clamp_spec_def Let_def min_nest last_texel_def)
qed

lemma region_clamp_spec_bounds:
  "fst (region_clamp_spec a b top_ix) \<le> snd (region_clamp_spec a b top_ix)"
  "snd (region_clamp_spec a b top_ix) \<le> top_ix"
  by (simp_all add: region_clamp_spec_def Let_def min_def)

lemma GetTextureRegionForCLAMP_axes:
  "(unat (u_min (GetTextureRegionForCLAMP C tw th)), unat (u_max (GetTextureRegionForCLAMP C tw th)))
     = stored16 (clamp_axis (WMS C) (ucast (MINU C)) (ucast (MAXU C)) tw)"
  "(unat (v_min (GetTextureRegionForCLAMP C tw th)), unat (v_max (GetTextureRegionForCLAMP C tw th)))
     = stored16 (clamp_axis (WMT C) (ucast (MINV C)) (ucast (MAXV C)) th)"
  by (simp_all add: GetTextureRegionForCLAMP_def stored16_def split: prod.splits)




text \<open>
  C2, as amended. For every register value in region-clamp mode on an axis, with
  parameters \<open>MIN\<close> and \<open>MAX\<close>, and every dimension \<open>dim\<close> of at least 1, the region
  returned for the axis is \<open>[min(MIN, dim - 1)\<close> clamped to be at most the maximum,
  \<open>min(MAX, dim - 1)]\<close>, and it satisfies \<open>min \<le> max \<le> dim - 1\<close>: it is neither
  inverted nor out of bounds. This holds per axis.
\<close>

theorem GetTextureRegionForCLAMP_region_clamp:
  "(WMS CLAMP = CLAMP_REGION_CLAMP \<and> 0 < twidth
    \<longrightarrow> (unat (u_min (GetTextureRegionForCLAMP CLAMP twidth theight)),
         unat (u_max (GetTextureRegionForCLAMP CLAMP twidth theight)))
        = region_clamp_spec (unat (MINU CLAMP)) (unat (MAXU CLAMP)) (unat twidth - 1)
      \<and> u_min (GetTextureRegionForCLAMP CLAMP twidth theight)
          \<le> u_max (GetTextureRegionForCLAMP CLAMP twidth theight)
      \<and> unat (u_max (GetTextureRegionForCLAMP CLAMP twidth theight)) \<le> unat twidth - 1
      \<and> unat (u_max (GetTextureRegionForCLAMP CLAMP twidth theight)) < unat twidth)
   \<and> (WMT CLAMP = CLAMP_REGION_CLAMP \<and> 0 < theight
    \<longrightarrow> (unat (v_min (GetTextureRegionForCLAMP CLAMP twidth theight)),
         unat (v_max (GetTextureRegionForCLAMP CLAMP twidth theight)))
        = region_clamp_spec (unat (MINV CLAMP)) (unat (MAXV CLAMP)) (unat theight - 1)
      \<and> v_min (GetTextureRegionForCLAMP CLAMP twidth theight)
          \<le> v_max (GetTextureRegionForCLAMP CLAMP twidth theight)
      \<and> unat (v_max (GetTextureRegionForCLAMP CLAMP twidth theight)) \<le> unat theight - 1
      \<and> unat (v_max (GetTextureRegionForCLAMP CLAMP twidth theight)) < unat theight)"
proof -
  let ?R = "GetTextureRegionForCLAMP CLAMP twidth theight"
  have u: "(unat (u_min ?R), unat (u_max ?R))
        = region_clamp_spec (unat (MINU CLAMP)) (unat (MAXU CLAMP)) (unat twidth - 1)"
    if "WMS CLAMP = CLAMP_REGION_CLAMP" "0 < twidth"
    using that by (simp only: GetTextureRegionForCLAMP_axes clamp_axis_region_clamp last_texel_pos)
  have v: "(unat (v_min ?R), unat (v_max ?R))
        = region_clamp_spec (unat (MINV CLAMP)) (unat (MAXV CLAMP)) (unat theight - 1)"
    if "WMT CLAMP = CLAMP_REGION_CLAMP" "0 < theight"
    using that by (simp only: GetTextureRegionForCLAMP_axes clamp_axis_region_clamp last_texel_pos)
  have pu: "0 < unat twidth" if "0 < twidth" using that by (simp add: word_less_nat_alt)
  have pv: "0 < unat theight" if "0 < theight" using that by (simp add: word_less_nat_alt)
  have "unat (u_min ?R) \<le> unat (u_max ?R) \<and> unat (u_max ?R) \<le> unat twidth - 1
        \<and> unat (u_max ?R) < unat twidth"
    if "WMS CLAMP = CLAMP_REGION_CLAMP" "0 < twidth"
  proof -
    have "unat (u_min ?R) \<le> unat (u_max ?R) \<and> unat (u_max ?R) \<le> unat twidth - 1"
      using u [OF that]
        region_clamp_spec_bounds [of "unat (MINU CLAMP)" "unat (MAXU CLAMP)" "unat twidth - 1"]
      by (metis fst_conv snd_conv)
    then show ?thesis using pu [OF that(2)] by linarith
  qed
  moreover have "unat (v_min ?R) \<le> unat (v_max ?R) \<and> unat (v_max ?R) \<le> unat theight - 1
        \<and> unat (v_max ?R) < unat theight"
    if "WMT CLAMP = CLAMP_REGION_CLAMP" "0 < theight"
  proof -
    have "unat (v_min ?R) \<le> unat (v_max ?R) \<and> unat (v_max ?R) \<le> unat theight - 1"
      using v [OF that]
        region_clamp_spec_bounds [of "unat (MINV CLAMP)" "unat (MAXV CLAMP)" "unat theight - 1"]
      by (metis fst_conv snd_conv)
    then show ?thesis using pv [OF that(2)] by linarith
  qed
  ultimately show ?thesis
    using u v by (simp add: word_le_nat_alt)
qed

theorem GetTextureRegionForCLAMP_region_clamp_witness:
  "WMS \<lparr>WMS = CLAMP_REGION_CLAMP, WMT = CLAMP_REGION_CLAMP,
        MINU = 70, MAXU = 40, MINV = 40, MAXV = 300\<rparr> = CLAMP_REGION_CLAMP
   \<and> (0 :: u32) < 64 \<and> (0 :: u32) < 256
   \<and> GetTextureRegionForCLAMP \<lparr>WMS = CLAMP_REGION_CLAMP, WMT = CLAMP_REGION_CLAMP,
        MINU = 70, MAXU = 40, MINV = 40, MAXV = 300\<rparr> 64 256
     = \<lparr>u_min = 40, u_max = 40, v_min = 40, v_max = 255\<rparr>"
proof -
  let ?C = "\<lparr>WMS = CLAMP_REGION_CLAMP, WMT = CLAMP_REGION_CLAMP,
        MINU = 70, MAXU = 40, MINV = 40, MAXV = 300\<rparr>"
  let ?R = "GetTextureRegionForCLAMP ?C 64 256"
  from GetTextureRegionForCLAMP_region_clamp [of ?C 64 256]
  have "(unat (u_min ?R), unat (u_max ?R)) = region_clamp_spec 70 40 63
      \<and> (unat (v_min ?R), unat (v_max ?R)) = region_clamp_spec 40 300 255"
    by simp
  then have "unat (u_min ?R) = 40 \<and> unat (u_max ?R) = 40 \<and> unat (v_min ?R) = 40 \<and> unat (v_max ?R) = 255"
    by (simp add: region_clamp_spec_def)
  then have "u_min ?R = 40 \<and> u_max ?R = 40 \<and> v_min ?R = 40 \<and> v_max ?R = 255"
    by (simp add: word_unat_eq_iff)
  then have "?R = \<lparr>u_min = 40, u_max = 40, v_min = 40, v_max = 255\<rparr>"
    by (cases ?R) simp
  then show ?thesis by simp
qed

text \<open>
  C2 as stated fails for the dimension 0: the program's \<open>dim - 1\<close> wraps around to
  \<open>2 ^ 32 - 1\<close> and clamps nothing, so for \<open>MIN = 3\<close> and \<open>MAX = 7\<close> the region of a
  texture without texels is \<open>[3, 7]\<close>, and 7 is not at most \<open>dim - 1 = -1\<close>.
\<close>

theorem GetTextureRegionForCLAMP_region_clamp_counterexample:
  "WMS \<lparr>WMS = CLAMP_REGION_CLAMP, WMT = CLAMP_REGION_CLAMP,
        MINU = 3, MAXU = 7, MINV = 3, MAXV = 7\<rparr> = CLAMP_REGION_CLAMP
   \<and> GetTextureRegionForCLAMP \<lparr>WMS = CLAMP_REGION_CLAMP, WMT = CLAMP_REGION_CLAMP,
        MINU = 3, MAXU = 7, MINV = 3, MAXV = 7\<rparr> 0 0
     = \<lparr>u_min = 3, u_max = 7, v_min = 3, v_max = 7\<rparr>
   \<and> \<not> int (unat (7 :: u16)) \<le> int (unat (0 :: u32)) - 1"
  by (simp add: GetTextureRegionForCLAMP_def clamp_axis_def)

section \<open>Properties of the batch accumulator\<close>

lemma SetTextureName_unseen:
  "m_texture_map s n = None \<Longrightarrow>
   SetTextureName n s =
     s\<lparr>m_texture_map := (m_texture_map s)(n \<mapsto> of_nat (length (m_textures s))),
       m_textures := m_textures s @ [n],
       m_cur_texture_index := of_nat (length (m_textures s))\<rparr>"
  by (simp add: SetTextureName_def Let_def)

lemma SetTextureName_seen:
  "m_texture_map s n = Some i \<Longrightarrow> SetTextureName n s = s\<lparr>m_cur_texture_index := i\<rparr>"
  by (simp add: SetTextureName_def Let_def)

lemma SetTextureName_registers:
  "m_texture_map (SetTextureName n s) n = Some (m_cur_texture_index (SetTextureName n s))"
  by (cases "m_texture_map s n") (simp_all add: SetTextureName_unseen SetTextureName_seen)

lemma SetTextureName_idem: "SetTextureName n (SetTextureName n s) = SetTextureName n s"
  using SetTextureName_seen [OF SetTextureName_registers [of n s]] by simp

text \<open>
  C7. For every batch state and every name, a second call of \<open>SetTextureName\<close> with
  the same name changes nothing: the state after two calls is the state after one, so
  the texture table does not grow and the current texture index is the same both
  times, namely the index registered for the name. A name not seen before is appended
  at the end of the table, which keeps the first-seen order; a name seen before leaves
  the table as it is.
\<close>

theorem SetTextureName_twice:
  "SetTextureName n (SetTextureName n s) = SetTextureName n s
   \<and> m_textures (SetTextureName n (SetTextureName n s)) = m_textures (SetTextureName n s)
   \<and> m_cur_texture_index (SetTextureName n (SetTextureName n s))
       = m_cur_texture_index (SetTextureName n s)
   \<and> m_texture_map (SetTextureName n s) n = Some (m_cur_texture_index (SetTextureName n s))
   \<and> m_textures (SetTextureName n s)
       = (if m_texture_map s n = None then m_textures s @ [n] else m_textures s)"
proof -
  have "m_textures (SetTextureName n s)
       = (if m_texture_map s n = None then m_textures s @ [n] else m_textures s)"
    by (cases "m_texture_map s n") (simp_all add: SetTextureName_unseen SetTextureName_seen)
  then show ?thesis
    by (simp add: SetTextureName_idem SetTextureName_registers)
qed

theorem SetTextureName_twice_witness:
  "m_textures (SetTextureName ''b'' (SetTextureName ''b'' (SetTextureName ''a'' (GS3DScreenshot_new 7))))
     = [''a'', ''b'']
   \<and> m_cur_texture_index
       (SetTextureName ''b'' (SetTextureName ''b'' (SetTextureName ''a'' (GS3DScreenshot_new 7)))) = 1"
proof -
  let ?s = "SetTextureName ''a'' (GS3DScreenshot_new 7)"
  have "m_textures (SetTextureName ''b'' ?s) = [''a'', ''b'']
      \<and> m_cur_texture_index (SetTextureName ''b'' ?s) = 1"
    by (simp add: SetTextureName_def GS3DScreenshot_new_def Let_def)
  then show ?thesis
    using SetTextureName_twice [of "''b''" ?s] by simp
qed


subsection \<open>Validity of texture indices\<close>

lemma unat_size_index: "unat (of_nat n :: u32) < Suc n"
  by (simp add: unat_of_nat le_imp_less_Suc)

lemma SetTextureName_cur_ok: "table_ok s \<Longrightarrow> cur_ok (SetTextureName n s)"
  by (cases "m_texture_map s n")
     (auto simp: SetTextureName_unseen SetTextureName_seen cur_ok_def table_ok_def unat_size_index)

lemma SetTextureName_table_ok: "table_ok s \<Longrightarrow> table_ok (SetTextureName n s)"
proof (cases "m_texture_map s n")
  case None
  assume t: "table_ok s"
  show ?thesis
    unfolding table_ok_def
  proof (intro allI impI)
    fix k i
    assume a: "m_texture_map (SetTextureName n s) k = Some i"
    show "unat i < length (m_textures (SetTextureName n s))"
    proof (cases "k = n")
      case True
      with a None have "i = of_nat (length (m_textures s))"
        by (simp add: SetTextureName_unseen)
      then show ?thesis using None by (simp add: SetTextureName_unseen unat_size_index)
    next
      case False
      with a None have "m_texture_map s k = Some i" by (simp add: SetTextureName_unseen)
      with t have "unat i < length (m_textures s)" by (simp add: table_ok_def)
      then show ?thesis using None by (simp add: SetTextureName_unseen)
    qed
  qed
next
  case (Some i)
  assume "table_ok s"
  then show ?thesis using Some by (simp add: SetTextureName_seen table_ok_def)
qed

lemma SetTextureName_tris_ok: "tris_ok s \<Longrightarrow> tris_ok (SetTextureName n s)"
  by (cases "m_texture_map s n")
     (auto simp: SetTextureName_unseen SetTextureName_seen tris_ok_def less_SucI)

lemma SetTextureRegion_keeps:
  "table_ok (SetTextureRegion rg tw th s) = table_ok s"
  "tris_ok (SetTextureRegion rg tw th s) = tris_ok s"
  "cur_ok (SetTextureRegion rg tw th s) = cur_ok s"
  by (simp_all add: SetTextureRegion_def table_ok_def tris_ok_def cur_ok_def)

lemma AddTri_keeps:
  "table_ok (AddTri t s) = table_ok s"
  "cur_ok (AddTri t s) = cur_ok s"
  by (simp_all add: AddTri_def table_ok_def cur_ok_def Let_def)

lemma AddTri_tris_ok:
  "tris_ok s \<Longrightarrow> texture_enabled t \<longrightarrow> cur_ok s \<Longrightarrow> tris_ok (AddTri t s)"
  by (auto simp: AddTri_def tris_ok_def cur_ok_def Let_def)

lemma run_calls_tris_ok:
  "table_ok s \<Longrightarrow> tris_ok s \<Longrightarrow> (named \<longrightarrow> cur_ok s) \<Longrightarrow> names_before_use named cs
   \<Longrightarrow> tris_ok (run_calls cs s)"
proof (induction cs arbitrary: s named)
  case Nil
  then show ?case by simp
next
  case (Cons c cs)
  show ?case
  proof (cases c)
    case (Call_SetTextureName n)
    have "tris_ok (run_calls cs (SetTextureName n s))"
    proof (rule Cons.IH [where named = True])
      show "table_ok (SetTextureName n s)" using Cons.prems(1) by (rule SetTextureName_table_ok)
      show "tris_ok (SetTextureName n s)" using Cons.prems(2) by (rule SetTextureName_tris_ok)
      show "True \<longrightarrow> cur_ok (SetTextureName n s)"
        using Cons.prems(1) by (simp add: SetTextureName_cur_ok)
      show "names_before_use True cs" using Cons.prems(4) Call_SetTextureName by simp
    qed
    then show ?thesis using Call_SetTextureName by simp
  next
    case (Call_SetTextureRegion rg tw th)
    have "tris_ok (run_calls cs (SetTextureRegion rg tw th s))"
      using Cons.prems Call_SetTextureRegion
      by (intro Cons.IH [where named = named]) (simp_all add: SetTextureRegion_keeps)
    then show ?thesis using Call_SetTextureRegion by simp
  next
    case (Call_AddTri t)
    have "tris_ok (run_calls cs (AddTri t s))"
      using Cons.prems Call_AddTri
      by (intro Cons.IH [where named = named]) (simp_all add: AddTri_keeps AddTri_tris_ok)
    then show ?thesis using Call_AddTri by simp
  qed
qed

lemma new_ok: "table_ok (GS3DScreenshot_new ix0)" "tris_ok (GS3DScreenshot_new ix0)"
  by (simp_all add: table_ok_def tris_ok_def GS3DScreenshot_new_def)

text \<open>
  C4, as amended. In every state reached from a freshly constructed batch by a sequence
  of \<open>SetTextureName\<close>, \<open>SetTextureRegion\<close> and \<open>AddTri\<close> calls in which
  \<open>SetTextureName\<close> has been called before the first triangle with texture enabled is
  added, every stored triangle with texture enabled has a texture index strictly below
  the size of the texture table. The first value of the current texture index is
  arbitrary.
\<close>

theorem texture_index_valid:
  assumes "names_before_use False cs"
  shows "\<forall>t \<in> set (m_tris (run_calls cs (GS3DScreenshot_new ix0))).
           texture_enabled t \<longrightarrow>
           unat (texture_index t) < length (m_textures (run_calls cs (GS3DScreenshot_new ix0)))"
  using run_calls_tris_ok [OF new_ok, of False ix0 cs] assms
  by (simp add: tris_ok_def)

theorem texture_index_valid_witness:
  "names_before_use False
     [Call_SetTextureName ''tex0'',
      Call_AddTri (mk_tri (mk_vert 0 0 0 0) (mk_vert 1 0 1 0) (mk_vert 0 1 0 1) False True)]
   \<and> list_all (\<lambda>t. texture_enabled t \<and> unat (texture_index t) < 1)
       (m_tris (run_calls
         [Call_SetTextureName ''tex0'',
          Call_AddTri (mk_tri (mk_vert 0 0 0 0) (mk_vert 1 0 1 0) (mk_vert 0 1 0 1) False True)]
         (GS3DScreenshot_new 9)))
   \<and> length (m_textures (run_calls
         [Call_SetTextureName ''tex0'',
          Call_AddTri (mk_tri (mk_vert 0 0 0 0) (mk_vert 1 0 1 0) (mk_vert 0 1 0 1) False True)]
         (GS3DScreenshot_new 9))) = 1"
proof -
  let ?cs = "[Call_SetTextureName ''tex0'',
      Call_AddTri (mk_tri (mk_vert 0 0 0 0) (mk_vert 1 0 1 0) (mk_vert 0 1 0 1) False True)]"
  have n: "names_before_use False ?cs" by (simp add: mk_tri_def)
  have l: "length (m_textures (run_calls ?cs (GS3DScreenshot_new 9))) = 1"
    by (simp add: SetTextureName_def AddTri_def GS3DScreenshot_new_def Let_def)
  have e: "list_all texture_enabled (m_tris (run_calls ?cs (GS3DScreenshot_new 9)))"
    by (simp add: SetTextureName_def AddTri_def GS3DScreenshot_new_def Let_def mk_tri_def)
  from texture_index_valid [OF n, of 9] e l
  have "list_all (\<lambda>t. texture_enabled t \<and> unat (texture_index t) < 1)
          (m_tris (run_calls ?cs (GS3DScreenshot_new 9)))"
    by (simp add: list_all_iff)
  with n l show ?thesis by simp
qed

text \<open>
  C4 as stated fails for the sequence that adds a textured triangle to a fresh batch
  without naming a texture: the table is empty, so no index is below its size.
\<close>

theorem texture_index_valid_counterexample:
  "texture_enabled (last (m_tris (run_calls
       [Call_AddTri (mk_tri (mk_vert 0 0 0 0) (mk_vert 1 0 1 0) (mk_vert 0 1 0 1) False True)]
       (GS3DScreenshot_new 0))))
   \<and> last (m_tris (run_calls
       [Call_AddTri (mk_tri (mk_vert 0 0 0 0) (mk_vert 1 0 1 0) (mk_vert 0 1 0 1) False True)]
       (GS3DScreenshot_new 0)))
     \<in> set (m_tris (run_calls
       [Call_AddTri (mk_tri (mk_vert 0 0 0 0) (mk_vert 1 0 1 0) (mk_vert 0 1 0 1) False True)]
       (GS3DScreenshot_new 0)))
   \<and> \<not> unat (texture_index (last (m_tris (run_calls
       [Call_AddTri (mk_tri (mk_vert 0 0 0 0) (mk_vert 1 0 1 0) (mk_vert 0 1 0 1) False True)]
       (GS3DScreenshot_new 0)))))
       < length (m_textures (run_calls
       [Call_AddTri (mk_tri (mk_vert 0 0 0 0) (mk_vert 1 0 1 0) (mk_vert 0 1 0 1) False True)]
       (GS3DScreenshot_new 0)))"
  by (simp add: AddTri_def GS3DScreenshot_new_def Let_def mk_tri_def)


subsection \<open>The UV remap\<close>

lemma round32_zero: "round32 0 = Finite (to_f32 0) \<and> f32_val (to_f32 0) = 0"
  by (rule round32_to_f32) (rule round32r_zero)

lemma round32_one: "round32 1 = Finite (to_f32 1) \<and> f32_val (to_f32 1) = 1"
  by (rule round32_to_f32) (rule round32r_exact [where m = 1 and e = 0], simp_all)

lemma fadd_zero: "fadd w (round32 0) = w"
  by (cases w) (simp_all add: round32_zero)

lemma fmul_one: "fmul w (round32 1) = w"
  by (cases w) (simp_all add: round32_one)

lemma map3_id: "(\<And>vt. f vt = vt) \<Longrightarrow> map3 f vs = vs"
  by (cases vs) simp

lemma remap_uv_identity: "remap_identity s \<Longrightarrow> remap_uv s vt = vt"
  by (simp add: remap_identity_def remap_uv_def fadd_zero fmul_one)

lemma exec_call_remap_identity:
  "\<not> is_region_call c \<Longrightarrow> remap_identity (exec_call c s) = remap_identity s"
  by (cases c)
     (simp_all add: remap_identity_def SetTextureName_def AddTri_def Let_def split: option.splits)

lemma run_calls_remap_identity:
  "list_all (\<lambda>c. \<not> is_region_call c) cs \<Longrightarrow> remap_identity s
   \<Longrightarrow> remap_identity (run_calls cs s)"
  by (induction cs arbitrary: s) (simp_all add: exec_call_remap_identity)

lemma new_remap_identity: "remap_identity (GS3DScreenshot_new ix0)"
  by (simp add: remap_identity_def GS3DScreenshot_new_def)

text \<open>
  C10. In a batch reached from a freshly constructed one without any call of
  \<open>SetTextureRegion\<close>, the remap state is the identity (both offsets 0, both scales 1),
  and \<open>AddTri\<close> of a triangle with texture enabled stores its three vertices unchanged,
  in particular their \<open>u\<close> and \<open>v\<close>.
\<close>

theorem fresh_remap_is_identity:
  assumes "list_all (\<lambda>c. \<not> is_region_call c) cs"
  shows "remap_identity (run_calls cs (GS3DScreenshot_new ix0))
         \<and> (texture_enabled tri \<longrightarrow>
              verts (last (m_tris (AddTri tri (run_calls cs (GS3DScreenshot_new ix0)))))
              = verts tri)"
proof -
  let ?s = "run_calls cs (GS3DScreenshot_new ix0)"
  have i: "remap_identity ?s"
    using assms new_remap_identity by (rule run_calls_remap_identity)
  then have "map3 (remap_uv ?s) (verts tri) = verts tri"
    by (intro map3_id remap_uv_identity)
  with i show ?thesis by (simp add: AddTri_def Let_def)
qed

theorem fresh_remap_is_identity_witness:
  "list_all (\<lambda>c. \<not> is_region_call c) [Call_SetTextureName ''tex0'']
   \<and> texture_enabled (mk_tri (mk_vert 0 0 (1/4) (3/4)) (mk_vert 1 0 1 0) (mk_vert 0 1 0 1) False True)
   \<and> remap_identity (run_calls [Call_SetTextureName ''tex0''] (GS3DScreenshot_new 0))
   \<and> verts (last (m_tris (AddTri
        (mk_tri (mk_vert 0 0 (1/4) (3/4)) (mk_vert 1 0 1 0) (mk_vert 0 1 0 1) False True)
        (run_calls [Call_SetTextureName ''tex0''] (GS3DScreenshot_new 0)))))
     = (mk_vert 0 0 (1/4) (3/4), mk_vert 1 0 1 0, mk_vert 0 1 0 1)"
proof -
  have c: "list_all (\<lambda>c. \<not> is_region_call c) [Call_SetTextureName ''tex0'']" by simp
  show ?thesis
    using fresh_remap_is_identity [OF c, of 0
        "mk_tri (mk_vert 0 0 (1/4) (3/4)) (mk_vert 1 0 1 0) (mk_vert 0 1 0 1) False True"]
    by (simp add: mk_tri_def)
qed

text \<open>The corners of a region in normalised texture coordinates.\<close>


subsection \<open>Remapping to the unit square\<close>

lemma corner_error_bound:
  fixes T W A B a b c s r :: real
  assumes T: "1 / 2 \<le> T" "T \<le> 2 ^ 33"
    and W: "1 \<le> \<bar>W\<bar>"
    and A: "0 \<le> A" and B: "0 \<le> B" and AB: "B - A = W" and S: "A + B \<le> 2 ^ 17"
    and a: "\<bar>a - A / T\<bar> \<le> \<bar>A / T\<bar> / 2 ^ 24 + 2 powi (- 150)"
    and b: "\<bar>b - B / T\<bar> \<le> \<bar>B / T\<bar> / 2 ^ 24 + 2 powi (- 150)"
    and c: "\<bar>c - T / W\<bar> \<le> \<bar>T / W\<bar> / 2 ^ 24 + 2 powi (- 150)"
    and s: "\<bar>s - (b - a)\<bar> \<le> \<bar>b - a\<bar> / 2 ^ 24 + 2 powi (- 150)"
    and r: "\<bar>r - s * c\<bar> \<le> \<bar>s * c\<bar> / 2 ^ 24 + 2 powi (- 150)"
  shows "\<bar>r - 1\<bar> \<le> ((A + B) / \<bar>W\<bar> + 4) / 2 ^ 24"
proof -
  define u :: real where "u = 1 / 2 ^ 24"
  define h :: real where "h = 2 powi (- 150)"
  define th where "th = T / W"
  define k where "k = (A + B) / \<bar>W\<bar>"
  have hval: "h = 1 / 2 ^ 150" by (simp add: h_def power_int_minus_divide)
  have u0: "0 < u" by (simp add: u_def)
  have Tpos: "0 < T" using T by linarith
  have Wnz: "W \<noteq> 0" using W by auto
  have Wpos: "0 < \<bar>W\<bar>" using W by linarith
  have ath: "\<bar>th\<bar> = T / \<bar>W\<bar>" using Tpos by (simp add: th_def)
  have th_le: "\<bar>th\<bar> \<le> 2 ^ 33"
  proof -
    have "T / \<bar>W\<bar> \<le> T / 1" using W Tpos by (intro divide_left_mono) simp_all
    with T ath show ?thesis by simp
  qed
  have Wle: "\<bar>W\<bar> \<le> 2 ^ 17" using A B AB S by (simp add: abs_le_iff)
  have th_pos: "0 < \<bar>th\<bar>" using Tpos Wpos ath by simp
  have inv_th: "1 / \<bar>th\<bar> \<le> 2 ^ 18"
  proof -
    have "1 / \<bar>th\<bar> = \<bar>W\<bar> / T" using ath Tpos Wpos by simp
    also have "\<dots> \<le> 2 ^ 17 / T" using Wle Tpos by (intro divide_right_mono) simp_all
    also have "\<dots> \<le> 2 ^ 17 / (1 / 2)" using T by (intro divide_left_mono) simp_all
    finally show ?thesis by simp
  qed
  have k0: "0 \<le> k" using A B by (simp add: k_def)
  have kle: "k \<le> 2 ^ 17"
  proof -
    have "k \<le> (A + B) / 1" unfolding k_def using W A B by (intro divide_left_mono) simp_all
    with S show ?thesis by simp
  qed
  have ku: "k * u \<le> 1 / 128"
  proof -
    have "k * u \<le> 2 ^ 17 * u" using kle u0 by (intro mult_right_mono) simp_all
    then show ?thesis by (simp add: u_def)
  qed
  \<comment> \<open>the difference of the two coordinates, scaled\<close>
  define be where "be = (b - a) * th - 1"
  have "(B / T - A / T) * th = 1"
    using Tpos Wnz AB by (simp add: th_def field_simps)
  then have be_eq: "be = ((b - B / T) - (a - A / T)) * th"
    by (simp add: be_def algebra_simps)
  have "\<bar>be\<bar> \<le> (\<bar>b - B / T\<bar> + \<bar>a - A / T\<bar>) * \<bar>th\<bar>"
    unfolding be_eq abs_mult by (intro mult_right_mono) simp_all
  also have "\<dots> \<le> ((B / T * u + h) + (A / T * u + h)) * \<bar>th\<bar>"
  proof -
    have "\<bar>A / T\<bar> = A / T" "\<bar>B / T\<bar> = B / T" using A B Tpos by simp_all
    with a b show ?thesis
      by (intro mult_right_mono) (simp_all add: u_def h_def)
  qed
  also have "\<dots> = k * u + 2 * h * \<bar>th\<bar>"
    using Tpos Wpos by (simp add: ath k_def field_simps)
  also have "\<dots> \<le> k * u + 2 * h * 2 ^ 33"
    using th_le by (simp add: hval)
  finally have X: "\<bar>be\<bar> \<le> k * u + 1 / 2 ^ 116" by (simp add: hval)
  have X64: "\<bar>be\<bar> \<le> 1 / 64" using X ku by simp
  \<comment> \<open>the rounded difference, scaled\<close>
  define es where "es = (s - (b - a)) * th"
  have sth: "s * th = 1 + be + es" by (simp add: es_def be_def algebra_simps)
  have dth: "\<bar>(b - a) * th\<bar> \<le> 1 + \<bar>be\<bar>"
  proof -
    have "(b - a) * th = 1 + be" by (simp add: be_def)
    then show ?thesis by simp
  qed
  have "\<bar>es\<bar> \<le> (\<bar>b - a\<bar> * u + h) * \<bar>th\<bar>"
    unfolding es_def abs_mult using s by (intro mult_right_mono) (simp_all add: u_def h_def)
  also have "\<dots> = \<bar>(b - a) * th\<bar> * u + h * \<bar>th\<bar>"
  proof -
    have "\<bar>(b - a) * th\<bar> = \<bar>b - a\<bar> * \<bar>th\<bar>" by (rule abs_mult)
    then show ?thesis by (simp only: algebra_simps)
  qed
  also have "\<dots> \<le> (1 + 1 / 64) * u + h * 2 ^ 33"
  proof -
    have "\<bar>(b - a) * th\<bar> * u \<le> (1 + 1 / 64) * u"
      using dth X64 u0 by (intro mult_right_mono) simp_all
    moreover have "h * \<bar>th\<bar> \<le> h * 2 ^ 33" using th_le by (simp add: hval)
    ultimately show ?thesis by linarith
  qed
  finally have E: "\<bar>es\<bar> \<le> 33 / 32 * u" by (simp add: hval u_def)
  \<comment> \<open>the scale\<close>
  define ga where "ga = (c - th) / th"
  have thnz: "th \<noteq> 0" using th_pos by auto
  have c_eq: "c = th * (1 + ga)" using thnz by (simp add: ga_def field_simps)
  have "\<bar>ga\<bar> = \<bar>c - th\<bar> * (1 / \<bar>th\<bar>)" by (simp add: ga_def abs_divide)
  also have "\<dots> \<le> (\<bar>th\<bar> * u + h) * (1 / \<bar>th\<bar>)"
    using c th_pos by (intro mult_right_mono) (simp_all add: th_def u_def h_def)
  also have "\<dots> = u + h * (1 / \<bar>th\<bar>)" using th_pos by (simp add: field_simps)
  also have "\<dots> \<le> u + h * 2 ^ 18"
    using inv_th by (simp add: hval)
  finally have G: "\<bar>ga\<bar> \<le> 33 / 32 * u" by (simp add: hval u_def)
  \<comment> \<open>the product\<close>
  have p_eq: "s * c - 1 = be + es + ga * (1 + be + es)"
    unfolding c_eq using sth by (simp add: algebra_simps)
  have f: "\<bar>1 + be + es\<bar> \<le> 33 / 32"
    using X64 E by (simp add: u_def abs_le_iff) 
  have "\<bar>ga * (1 + be + es)\<bar> \<le> (33 / 32 * u) * (33 / 32)"
    unfolding abs_mult using G f by (intro mult_mono) simp_all
  then have gf: "\<bar>ga * (1 + be + es)\<bar> \<le> 9 / 8 * u" using u0 by (simp add: u_def)
  have P: "\<bar>s * c - 1\<bar> \<le> \<bar>be\<bar> + 69 / 32 * u"
    unfolding p_eq using E gf by linarith
  have "\<bar>s * c\<bar> \<le> 1 + \<bar>s * c - 1\<bar>" by linarith
  with P X64 have pc: "\<bar>s * c\<bar> \<le> 33 / 32" by (simp add: u_def)
  have "\<bar>r - s * c\<bar> \<le> 33 / 32 * u + h"
    using r pc by (simp add: u_def h_def)
  then have R: "\<bar>r - s * c\<bar> \<le> 17 / 16 * u" by (simp add: hval u_def)
  have "\<bar>r - 1\<bar> \<le> \<bar>r - s * c\<bar> + \<bar>s * c - 1\<bar>" by linarith
  also have "\<dots> \<le> k * u + 1 / 2 ^ 116 + 103 / 32 * u" using R P X by linarith
  also have "\<dots> \<le> k * u + 4 * u" by (simp add: u_def)
  finally show ?thesis by (simp add: k_def u_def algebra_simps add_divide_distrib)
qed


lemma round32_finite:
  assumes "\<bar>x\<bar> \<le> 2 ^ 100"
  obtains y where "round32 x = Finite y"
    and "\<bar>f32_val y - x\<bar> \<le> \<bar>x\<bar> / 2 ^ 24 + 2 powi (- 150)"
proof -
  from round32r_finite [OF assms] obtain z where
    z: "round32r x = Some z" and e: "\<bar>z - x\<bar> \<le> \<bar>x\<bar> / 2 ^ 24 + 2 powi (- 150)" by blast
  from round32_to_f32 [OF z] have "round32 x = Finite (to_f32 x)" "f32_val (to_f32 x) = z"
    by simp_all
  with e that show ?thesis by blast
qed

lemma round32_nat:
  assumes "n < 2 ^ 24"
  shows "round32 (real n) = Finite (to_f32 (real n))" and "f32_val (to_f32 (real n)) = real n"
proof -
  have "round32r (real n) = Some (real n)"
  proof (rule round32r_exact [where m = "int n" and e = 0])
    show "\<bar>int n\<bar> < 2 ^ 24" using assms by simp
    have "real n < 2 ^ 24" using assms by (metis of_nat_less_numeral_power_cancel_iff)
    then show "\<bar>real n\<bar> < 2 ^ 128" by simp
  qed simp_all
  from round32_to_f32 [OF this]
  show "round32 (real n) = Finite (to_f32 (real n))" and "f32_val (to_f32 (real n)) = real n"
    by simp_all
qed

lemma to_f32_int:
  assumes "\<bar>i\<bar> < 2 ^ 24"
  shows "f32_val (to_f32 (real_of_int i)) = real_of_int i"
proof -
  have "round32r (real_of_int i) = Some (real_of_int i)"
  proof (rule round32r_exact [where m = i and e = 0])
    have "real_of_int \<bar>i\<bar> < real_of_int (2 ^ 24)" using assms by (simp only: of_int_less_iff)
    then show "\<bar>real_of_int i\<bar> < 2 ^ 128" by simp
  qed (use assms in simp_all)
  from round32_to_f32 [OF this] show ?thesis by simp
qed

lemma u16_small: "unat (x :: u16) < 2 ^ 24" "unat (x :: u16) < 65536"
  using unsigned_less [of x, where 'a = nat] by simp_all

text \<open>The dimension converted to \<open>float\<close> is positive and below \<open>2 ^ 33\<close>.\<close>

lemma float_of_dim:
  fixes n :: real
  assumes n1: "1 \<le> n" and n2: "n \<le> 2 ^ 32"
  shows "round32 n = Finite (to_f32 n)"
    and "1 / 2 \<le> f32_val (to_f32 n)"
    and "f32_val (to_f32 n) \<le> 2 ^ 33"
proof -
  have "\<bar>n\<bar> \<le> 2 ^ 100" using n1 n2 by simp
  from round32r_finite [OF this] obtain z where
    z: "round32r n = Some z" and e: "\<bar>z - n\<bar> \<le> \<bar>n\<bar> / 2 ^ 24 + 2 powi (- 150)" by blast
  from round32_to_f32 [OF z] have r: "round32 n = Finite (to_f32 n)" "f32_val (to_f32 n) = z"
    by simp_all
  have h: "(2::real) powi (- 150) \<le> 1 / 4"
  proof -
    have "(2::real) powi (- 150) \<le> 2 powi (- 2)" by (intro power_int_increasing) simp_all
    then show ?thesis by simp
  qed
  show "round32 n = Finite (to_f32 n)" by (rule r)
  have "\<bar>n\<bar> = n" using n1 by simp
  with e h have "\<bar>z - n\<bar> \<le> n / 2 ^ 24 + 1 / 4" by simp
  then have lo: "n - n / 2 ^ 24 - 1 / 4 \<le> z" and hi: "z \<le> n + n / 2 ^ 24 + 1 / 4" by linarith+
  from lo n1 show "1 / 2 \<le> f32_val (to_f32 n)" unfolding r by simp
  from hi n1 n2 show "f32_val (to_f32 n) \<le> 2 ^ 33" unfolding r by simp
qed

lemma dim_bounds:
  assumes "dm \<noteq> (0 :: u32)"
  shows "1 \<le> real (unat dm)" and "real (unat dm) \<le> 2 ^ 32"
proof -
  have "unat dm \<noteq> 0" using assms by (simp add: unsigned_eq_0_iff)
  then have "1 \<le> unat dm" by simp
  then show "1 \<le> real (unat dm)" by (simp only: of_nat_1 [symmetric, where 'a = real] of_nat_le_iff)
  have "unat dm < 2 ^ 32" using unsigned_less [of dm, where 'a = nat] by simp
  then show "real (unat dm) \<le> 2 ^ 32" by (metis less_imp_le of_nat_le_numeral_power_cancel_iff)
qed

text \<open>
  One axis of the remapping, on single-precision operands: \<open>fA\<close> and \<open>fB\<close> are the bounds
  \<open>min\<close> and \<open>max + 1\<close> in texels, \<open>fT\<close> the dimension, \<open>fW\<close> the difference \<open>max - min + 1\<close>.
\<close>

lemma abs_near:
  fixes x y e M :: real
  assumes "\<bar>y - x\<bar> \<le> \<bar>x\<bar> / 2 ^ 24 + e" and "e \<le> 1" and "\<bar>x\<bar> \<le> M" and "2 \<le> M"
  shows "\<bar>y\<bar> \<le> 2 * M"
proof -
  have "\<bar>x\<bar> / 2 ^ 24 \<le> \<bar>x\<bar> / 4" by (intro divide_left_mono) simp_all
  with assms show ?thesis by linarith
qed

lemma axis_near:
  fixes fA fT fW :: f32
  assumes A: "0 \<le> f32_val fA" "f32_val fA \<le> 2 ^ 17"
    and T: "1 / 2 \<le> f32_val fT" "f32_val fT \<le> 2 ^ 33"
    and W: "1 \<le> \<bar>f32_val fW\<bar>" "\<bar>f32_val fW\<bar> \<le> 2 ^ 17"
  shows "fmul (fadd (fdiv (Finite fA) fT) (fdiv (fneg (Finite fA)) fT)) (fdiv (Finite fT) fW)
         = round32 0"
proof -
  let ?A = "f32_val fA" and ?T = "f32_val fT" and ?W = "f32_val fW"
  have T0: "?T \<noteq> 0" and W0: "?W \<noteq> 0" using T W by auto
  have "\<bar>?A / ?T\<bar> \<le> 2 ^ 17 / (1 / 2)"
    unfolding abs_divide using A T by (intro frac_le) simp_all
  then have "\<bar>?A / ?T\<bar> \<le> 2 ^ 100" by simp
  from round32r_finite [OF this] obtain a where a: "round32r (?A / ?T) = Some a" by blast
  from round32_to_f32 [OF a] have pa: "round32 (?A / ?T) = Finite (to_f32 (?A / ?T))"
    "f32_val (to_f32 (?A / ?T)) = a" by simp_all
  from round32_minus [OF a] have na: "round32 (- (?A / ?T)) = Finite (to_f32 (- (?A / ?T)))"
    "f32_val (to_f32 (- (?A / ?T))) = - a" by simp_all
  from round32_minus [OF f32_val_fixed [of fA]]
  have nA: "round32 (- ?A) = Finite (to_f32 (- ?A))" "f32_val (to_f32 (- ?A)) = - ?A" by simp_all
  have "\<bar>?T / ?W\<bar> \<le> 2 ^ 33 / 1"
    unfolding abs_divide using T W by (intro frac_le) simp_all
  then have "\<bar>?T / ?W\<bar> \<le> 2 ^ 100" by simp
  from round32r_finite [OF this] obtain c where c: "round32r (?T / ?W) = Some c" by blast
  from round32_to_f32 [OF c] have pc: "round32 (?T / ?W) = Finite (to_f32 (?T / ?W))" by simp
  have near: "fdiv (Finite fA) fT = Finite (to_f32 (?A / ?T))" using T0 pa by simp
  have off: "fdiv (fneg (Finite fA)) fT = Finite (to_f32 (- (?A / ?T)))"
    using T0 nA na by simp
  have sc: "fdiv (Finite fT) fW = Finite (to_f32 (?T / ?W))" using W0 pc by simp
  show ?thesis unfolding near off sc by (simp add: pa na round32_zero)
qed

lemma axis_far:
  fixes fA fB fT fW :: f32
  assumes A: "0 \<le> f32_val fA" and B: "0 \<le> f32_val fB"
    and S: "f32_val fA + f32_val fB \<le> 2 ^ 17"
    and T: "1 / 2 \<le> f32_val fT" "f32_val fT \<le> 2 ^ 33"
    and W: "1 \<le> \<bar>f32_val fW\<bar>" and AB: "f32_val fB - f32_val fA = f32_val fW"
  shows "\<exists>r. fmul (fadd (fdiv (Finite fB) fT) (fdiv (fneg (Finite fA)) fT)) (fdiv (Finite fT) fW)
               = Finite r
             \<and> \<bar>f32_val r - 1\<bar> \<le> ((f32_val fA + f32_val fB) / \<bar>f32_val fW\<bar> + 4) / 2 ^ 24"
proof -
  let ?A = "f32_val fA" and ?B = "f32_val fB" and ?T = "f32_val fT" and ?W = "f32_val fW"
  let ?eta = "(2::real) powi (- 150)"
  have eta: "?eta \<le> 1"
  proof -
    have "?eta \<le> 2 powi 0" by (intro power_int_increasing) simp_all
    then show ?thesis by simp
  qed
  have T0: "?T \<noteq> 0" and W0: "?W \<noteq> 0" using T W by auto
  have A17: "?A \<le> 2 ^ 17" and B17: "?B \<le> 2 ^ 17" using A B S by linarith+
  have W17: "\<bar>?W\<bar> \<le> 2 ^ 17" using A B A17 B17 AB by linarith
  have qa: "\<bar>?A / ?T\<bar> \<le> 2 ^ 18"
  proof -
    have "\<bar>?A / ?T\<bar> \<le> 2 ^ 17 / (1 / 2)"
      unfolding abs_divide using A A17 T by (intro frac_le) simp_all
    then show ?thesis by simp
  qed
  have qb: "\<bar>?B / ?T\<bar> \<le> 2 ^ 18"
  proof -
    have "\<bar>?B / ?T\<bar> \<le> 2 ^ 17 / (1 / 2)"
      unfolding abs_divide using B B17 T by (intro frac_le) simp_all
    then show ?thesis by simp
  qed
  have qc: "\<bar>?T / ?W\<bar> \<le> 2 ^ 33"
  proof -
    have "\<bar>?T / ?W\<bar> \<le> 2 ^ 33 / 1"
      unfolding abs_divide using T W by (intro frac_le) simp_all
    then show ?thesis by simp
  qed
  have "\<bar>?A / ?T\<bar> \<le> 2 ^ 100" using qa by simp
  from round32r_finite [OF this] obtain a where a: "round32r (?A / ?T) = Some a"
    and ea: "\<bar>a - ?A / ?T\<bar> \<le> \<bar>?A / ?T\<bar> / 2 ^ 24 + ?eta" by blast
  from round32_minus [OF a] have na: "round32 (- (?A / ?T)) = Finite (to_f32 (- (?A / ?T)))"
    "f32_val (to_f32 (- (?A / ?T))) = - a" by simp_all
  from round32_minus [OF f32_val_fixed [of fA]]
  have nA: "round32 (- ?A) = Finite (to_f32 (- ?A))" "f32_val (to_f32 (- ?A)) = - ?A" by simp_all
  have "\<bar>?B / ?T\<bar> \<le> 2 ^ 100" using qb by simp
  from round32_finite [OF this] obtain fb where fb: "round32 (?B / ?T) = Finite fb"
    and eb: "\<bar>f32_val fb - ?B / ?T\<bar> \<le> \<bar>?B / ?T\<bar> / 2 ^ 24 + ?eta" by blast
  have "\<bar>?T / ?W\<bar> \<le> 2 ^ 100" using qc by simp
  from round32_finite [OF this] obtain fc where fc: "round32 (?T / ?W) = Finite fc"
    and ec: "\<bar>f32_val fc - ?T / ?W\<bar> \<le> \<bar>?T / ?W\<bar> / 2 ^ 24 + ?eta" by blast
  let ?b = "f32_val fb" and ?c = "f32_val fc"
  have ba: "\<bar>a\<bar> \<le> 2 ^ 19" using abs_near [OF ea eta qa] by simp
  have bb: "\<bar>?b\<bar> \<le> 2 ^ 19" using abs_near [OF eb eta qb] by simp
  have bc: "\<bar>?c\<bar> \<le> 2 ^ 34" using abs_near [OF ec eta qc] by simp
  have "\<bar>?b - a\<bar> \<le> 2 ^ 20" using ba bb by simp
  then have bs0: "\<bar>?b + - a\<bar> \<le> 2 ^ 20" by simp
  then have "\<bar>?b + - a\<bar> \<le> 2 ^ 100" by simp
  from round32_finite [OF this] obtain fs where fs: "round32 (?b + - a) = Finite fs"
    and es0: "\<bar>f32_val fs - (?b + - a)\<bar> \<le> \<bar>?b + - a\<bar> / 2 ^ 24 + ?eta" by blast
  let ?s = "f32_val fs"
  have es: "\<bar>?s - (?b - a)\<bar> \<le> \<bar>?b - a\<bar> / 2 ^ 24 + ?eta" using es0 by simp
  have bs: "\<bar>?s\<bar> \<le> 2 ^ 21" using abs_near [OF es0 eta bs0] by simp
  have "\<bar>?s * ?c\<bar> \<le> 2 ^ 21 * 2 ^ 34"
    unfolding abs_mult using bs bc by (intro mult_mono) simp_all
  then have "\<bar>?s * ?c\<bar> \<le> 2 ^ 100" by simp
  from round32_finite [OF this] obtain fr where fr: "round32 (?s * ?c) = Finite fr"
    and er: "\<bar>f32_val fr - ?s * ?c\<bar> \<le> \<bar>?s * ?c\<bar> / 2 ^ 24 + ?eta" by blast
  have far: "fdiv (Finite fB) fT = Finite fb" using T0 fb by simp
  have off: "fdiv (fneg (Finite fA)) fT = Finite (to_f32 (- (?A / ?T)))"
    using T0 nA na by simp
  have sc: "fdiv (Finite fT) fW = Finite fc" using W0 fc by simp
  have res: "fmul (fadd (fdiv (Finite fB) fT) (fdiv (fneg (Finite fA)) fT)) (fdiv (Finite fT) fW)
             = Finite fr"
  proof -
    have "fadd (Finite fb) (Finite (to_f32 (- (?A / ?T)))) = round32 (?b + - a)"
      by (simp only: fadd.simps na)
    then show ?thesis unfolding far off sc by (simp only: fs fmul.simps fr)
  qed
  have "\<bar>f32_val fr - 1\<bar> \<le> ((?A + ?B) / \<bar>?W\<bar> + 4) / 2 ^ 24"
    by (rule corner_error_bound [OF T W A B AB S ea eb ec es er])
  with res show ?thesis by blast
qed

lemma remap_uv_u: "vert_u (remap_uv s vt) = fmul (fadd (vert_u vt) (m_u_offset s)) (m_u_scale s)"
  by (simp add: remap_uv_def)

lemma remap_uv_v: "vert_v (remap_uv s vt) = fmul (fadd (vert_v vt) (m_v_offset s)) (m_v_scale s)"
  by (simp add: remap_uv_def)

lemma AddTri_stores:
  "texture_enabled tri \<Longrightarrow> verts (last (m_tris (AddTri tri s))) = map3 (remap_uv s) (verts tri)"
  by (simp add: AddTri_def Let_def)

text \<open>
  One axis with the operands of the code: bounds \<open>lo\<close> and \<open>hi\<close> of the region and
  dimension \<open>dm\<close> of the texture.
\<close>

lemma axis_corners:
  fixes lo hi :: u16 and dm :: u32
  assumes dm: "dm \<noteq> 0" and w: "uint hi + 1 \<noteq> uint lo"
  defines "off \<equiv> fdiv (fneg (round32 (real (unat lo)))) (to_f32 (real (unat dm)))"
    and "sc \<equiv> fdiv (round32 (real (unat dm))) (to_f32 (real_of_int (uint hi - uint lo + 1)))"
  shows "fmul (fadd (normalized (unat lo) dm) off) sc = round32 0"
    and "flt_near (fmul (fadd (normalized (unat hi + 1) dm) off) sc) 1
           (corner_tolerance (unat lo) (unat hi))"
proof -
  let ?fA = "to_f32 (real (unat lo))" and ?fB = "to_f32 (real (unat hi + 1))"
  let ?fT = "to_f32 (real (unat dm))"
  let ?fW = "to_f32 (real_of_int (uint hi - uint lo + 1))"
  have lo24: "unat lo < 2 ^ 24" by (rule u16_small)
  have hi24: "unat hi + 1 < 2 ^ 24" using u16_small(2) [of hi] by simp
  note A = round32_nat [OF lo24] and B = round32_nat [OF hi24]
  have A0: "0 \<le> f32_val ?fA" and B0: "0 \<le> f32_val ?fB"
    unfolding A B by (simp_all only: of_nat_0_le_iff)
  have "unat lo + (unat hi + 1) \<le> 2 ^ 17" using u16_small(2) [of lo] u16_small(2) [of hi] by simp
  then have "real (unat lo + (unat hi + 1)) \<le> 2 ^ 17"
    by (metis of_nat_le_numeral_power_cancel_iff)
  then have S: "f32_val ?fA + f32_val ?fB \<le> 2 ^ 17" unfolding A B by (simp only: of_nat_add)
  have A17: "f32_val ?fA \<le> 2 ^ 17" using S B0 by linarith
  note Tm = float_of_dim [OF dim_bounds [OF dm]]
  have ub: "0 \<le> uint lo" "uint lo < 65536" "0 \<le> uint hi" "uint hi < 65536"
    using uint_bounded [of lo] uint_bounded [of hi] by simp_all
  have wb: "\<bar>uint hi - uint lo + 1\<bar> \<le> 65537" using ub by linarith
  then have wi: "\<bar>uint hi - uint lo + 1\<bar> < 2 ^ 24" by simp
  have Wv: "f32_val ?fW = real_of_int (uint hi - uint lo + 1)" by (rule to_f32_int [OF wi])
  have "1 \<le> \<bar>uint hi - uint lo + 1\<bar>" using w by linarith
  then have "real_of_int 1 \<le> real_of_int \<bar>uint hi - uint lo + 1\<bar>" by (simp only: of_int_le_iff)
  then have W1: "1 \<le> \<bar>f32_val ?fW\<bar>" unfolding Wv by simp
  have "\<bar>uint hi - uint lo + 1\<bar> \<le> 2 ^ 17" using wb by simp
  then have "real_of_int \<bar>uint hi - uint lo + 1\<bar> \<le> real_of_int (2 ^ 17)"
    by (simp only: of_int_le_iff)
  then have W17: "\<bar>f32_val ?fW\<bar> \<le> 2 ^ 17" unfolding Wv by simp
  have AB: "f32_val ?fB - f32_val ?fA = f32_val ?fW" unfolding A B Wv by simp
  have n_lo: "normalized (unat lo) dm = fdiv (Finite ?fA) ?fT"
    by (simp only: normalized_def A(1))
  have n_hi: "normalized (unat hi + 1) dm = fdiv (Finite ?fB) ?fT"
    by (simp only: normalized_def B(1))
  have off: "off = fdiv (fneg (Finite ?fA)) ?fT" by (simp only: off_def A(1))
  have sc: "sc = fdiv (Finite ?fT) ?fW" by (simp only: sc_def Tm(1))
  show "fmul (fadd (normalized (unat lo) dm) off) sc = round32 0"
    unfolding n_lo off sc by (rule axis_near [OF A0 A17 Tm(2,3) W1 W17])
  from axis_far [OF A0 B0 S Tm(2,3) W1 AB] obtain r where
    r: "fmul (fadd (fdiv (Finite ?fB) ?fT) (fdiv (fneg (Finite ?fA)) ?fT)) (fdiv (Finite ?fT) ?fW)
        = Finite r"
    and e: "\<bar>f32_val r - 1\<bar> \<le> ((f32_val ?fA + f32_val ?fB) / \<bar>f32_val ?fW\<bar> + 4) / 2 ^ 24"
    by blast
  have "corner_tolerance (unat lo) (unat hi)
        = ((f32_val ?fA + f32_val ?fB) / \<bar>f32_val ?fW\<bar> + 4) / 2 ^ 24"
    unfolding corner_tolerance_def AB [symmetric] by (simp only: A B)
  with e show "flt_near (fmul (fadd (normalized (unat hi + 1) dm) off) sc) 1
           (corner_tolerance (unat lo) (unat hi))"
    unfolding n_hi off sc r by (simp add: flt_near_def)
qed

text \<open>The offset is the negated normalised lower bound.\<close>

lemma offset_is_negated:
  fixes lo :: u16 and dm :: u32
  assumes dm: "dm \<noteq> 0"
  shows "fdiv (fneg (round32 (real (unat lo)))) (to_f32 (real (unat dm)))
         = fneg (normalized (unat lo) dm)"
proof -
  let ?fA = "to_f32 (real (unat lo))" and ?fT = "to_f32 (real (unat dm))"
  note A = round32_nat [OF u16_small(1) [of lo]]
  note Tm = float_of_dim [OF dim_bounds [OF dm]]
  have T0: "f32_val ?fT \<noteq> 0" using Tm(2) by auto
  have A0: "0 \<le> f32_val ?fA" unfolding A by (simp only: of_nat_0_le_iff)
  have "real (unat lo) \<le> 2 ^ 24"
    using u16_small(1) [of lo] by (metis less_imp_le of_nat_le_numeral_power_cancel_iff)
  then have A24: "f32_val ?fA \<le> 2 ^ 24" unfolding A .
  have "\<bar>f32_val ?fA\<bar> / \<bar>f32_val ?fT\<bar> \<le> 2 ^ 24 / (1 / 2)"
    using A0 A24 Tm(2) by (intro frac_le) simp_all
  then have "\<bar>f32_val ?fA / f32_val ?fT\<bar> \<le> 2 ^ 100" unfolding abs_divide by simp
  from round32r_finite [OF this] obtain a where a: "round32r (f32_val ?fA / f32_val ?fT) = Some a"
    by blast
  note pa = round32_to_f32 [OF a] and na = round32_minus [OF a]
  from round32_minus [OF f32_val_fixed [of ?fA]]
  have nA: "round32 (- f32_val ?fA) = Finite (to_f32 (- f32_val ?fA))"
    "f32_val (to_f32 (- f32_val ?fA)) = - f32_val ?fA" by simp_all
  have l: "fdiv (fneg (Finite ?fA)) ?fT = Finite (to_f32 (- (f32_val ?fA / f32_val ?fT)))"
    using T0 nA na by simp
  have "round32 (- a) = round32 (f32_val (to_f32 (- (f32_val ?fA / f32_val ?fT))))"
    by (simp only: na)
  then have ma: "round32 (- a) = Finite (to_f32 (- (f32_val ?fA / f32_val ?fT)))"
    by (simp only: round32_val)
  have r: "fneg (fdiv (Finite ?fA) ?fT) = Finite (to_f32 (- (f32_val ?fA / f32_val ?fT)))"
    using T0 pa ma by simp
  show ?thesis by (simp only: normalized_def A(1) l r)
qed

text \<open>
  C3, as amended. After \<open>SetTextureRegion region twidth theight\<close>, \<open>AddTri\<close> of a
  triangle with texture enabled stores each vertex transformed by
  \<open>u = (u + u_offset) * u_scale\<close> and likewise for \<open>v\<close>, every operation rounded to single
  precision. Provided \<open>twidth\<close> is not zero and the width
  \<open>region.u_max - region.u_min + 1\<close> is not zero, the offset is the negated quotient
  \<open>region.u_min / twidth\<close>; a vertex whose \<open>u\<close> is that quotient, the normalised coordinate
  of the texel \<open>region.u_min\<close>, gets \<open>u = 0\<close> exactly; and a vertex whose \<open>u\<close> is the
  quotient \<open>(region.u_max + 1) / twidth\<close> gets a finite \<open>u\<close> within floating-point
  tolerance of 1, namely within \<open>corner_tolerance region.u_min region.u_max\<close>, which is
  \<open>((u_min + u_max + 1) / |u_max + 1 - u_min| + 4) / 2 ^ 24\<close>. Likewise for \<open>v\<close> with
  \<open>theight\<close>.
\<close>

theorem SetTextureRegion_maps_corners:
  "(texture_enabled tri \<longrightarrow>
      verts (last (m_tris (AddTri tri (SetTextureRegion region twidth theight s))))
      = map3 (remap_uv (SetTextureRegion region twidth theight s)) (verts tri))
   \<and> vert_u (remap_uv (SetTextureRegion region twidth theight s) vt)
       = fmul (fadd (vert_u vt) (m_u_offset (SetTextureRegion region twidth theight s)))
           (m_u_scale (SetTextureRegion region twidth theight s))
   \<and> vert_v (remap_uv (SetTextureRegion region twidth theight s) vt)
       = fmul (fadd (vert_v vt) (m_v_offset (SetTextureRegion region twidth theight s)))
           (m_v_scale (SetTextureRegion region twidth theight s))
   \<and> (twidth \<noteq> 0 \<and> uint (u_max region) + 1 \<noteq> uint (u_min region) \<longrightarrow>
        m_u_offset (SetTextureRegion region twidth theight s) = fneg (normalized (unat (u_min region)) twidth)
      \<and> (vert_u vt = normalized (unat (u_min region)) twidth \<longrightarrow>
           vert_u (remap_uv (SetTextureRegion region twidth theight s) vt) = round32 0)
      \<and> (vert_u vt = normalized (unat (u_max region) + 1) twidth \<longrightarrow>
           flt_near (vert_u (remap_uv (SetTextureRegion region twidth theight s) vt)) 1
             (corner_tolerance (unat (u_min region)) (unat (u_max region)))))
   \<and> (theight \<noteq> 0 \<and> uint (v_max region) + 1 \<noteq> uint (v_min region) \<longrightarrow>
        m_v_offset (SetTextureRegion region twidth theight s) = fneg (normalized (unat (v_min region)) theight)
      \<and> (vert_v vt = normalized (unat (v_min region)) theight \<longrightarrow>
           vert_v (remap_uv (SetTextureRegion region twidth theight s) vt) = round32 0)
      \<and> (vert_v vt = normalized (unat (v_max region) + 1) theight \<longrightarrow>
           flt_near (vert_v (remap_uv (SetTextureRegion region twidth theight s) vt)) 1
             (corner_tolerance (unat (v_min region)) (unat (v_max region)))))"
proof -
  let ?S = "SetTextureRegion region twidth theight s"
  have st: "texture_enabled tri \<longrightarrow>
      verts (last (m_tris (AddTri tri ?S))) = map3 (remap_uv ?S) (verts tri)"
    by (simp add: AddTri_stores)
  have ou: "m_u_offset ?S = fdiv (fneg (round32 (real (unat (u_min region)))))
                              (to_f32 (real (unat twidth)))"
    and su: "m_u_scale ?S = fdiv (round32 (real (unat twidth)))
                      (to_f32 (real_of_int (uint (u_max region) - uint (u_min region) + 1)))"
    and ov: "m_v_offset ?S = fdiv (fneg (round32 (real (unat (v_min region)))))
                              (to_f32 (real (unat theight)))"
    and sv: "m_v_scale ?S = fdiv (round32 (real (unat theight)))
                      (to_f32 (real_of_int (uint (v_max region) - uint (v_min region) + 1)))"
    by (simp_all add: SetTextureRegion_def)
  have u: "m_u_offset ?S = fneg (normalized (unat (u_min region)) twidth)
      \<and> (vert_u vt = normalized (unat (u_min region)) twidth \<longrightarrow>
           vert_u (remap_uv ?S vt) = round32 0)
      \<and> (vert_u vt = normalized (unat (u_max region) + 1) twidth \<longrightarrow>
           flt_near (vert_u (remap_uv ?S vt)) 1
             (corner_tolerance (unat (u_min region)) (unat (u_max region))))"
    if "twidth \<noteq> 0" "uint (u_max region) + 1 \<noteq> uint (u_min region)"
    using axis_corners [OF that] offset_is_negated [OF that(1), of "u_min region"]
    by (simp only: remap_uv_u ou su) simp
  have v: "m_v_offset ?S = fneg (normalized (unat (v_min region)) theight)
      \<and> (vert_v vt = normalized (unat (v_min region)) theight \<longrightarrow>
           vert_v (remap_uv ?S vt) = round32 0)
      \<and> (vert_v vt = normalized (unat (v_max region) + 1) theight \<longrightarrow>
           flt_near (vert_v (remap_uv ?S vt)) 1
             (corner_tolerance (unat (v_min region)) (unat (v_max region))))"
    if "theight \<noteq> 0" "uint (v_max region) + 1 \<noteq> uint (v_min region)"
    using axis_corners [OF that] offset_is_negated [OF that(1), of "v_min region"]
    by (simp only: remap_uv_v ov sv) simp
  from st u v show ?thesis by (simp only: remap_uv_u remap_uv_v) blast
qed

lemma round32_dyadic:
  assumes "x = of_int m * 2 powi e" and "\<bar>m\<bar> < 2 ^ 24" and "- 149 \<le> e" and "\<bar>x\<bar> < 2 ^ 128"
  shows "round32 x = Finite (to_f32 x) \<and> f32_val (to_f32 x) = x"
  by (rule round32_to_f32) (rule round32r_exact [OF assms])

lemma exact_values:
  "round32 16 = Finite (to_f32 16) \<and> f32_val (to_f32 16) = 16"
  "round32 (- 16) = Finite (to_f32 (- 16)) \<and> f32_val (to_f32 (- 16)) = - 16"
  "round32 64 = Finite (to_f32 64) \<and> f32_val (to_f32 64) = 64"
  "round32 (- (1 / 4)) = Finite (to_f32 (- (1 / 4))) \<and> f32_val (to_f32 (- (1 / 4))) = - (1 / 4)"
  "round32 4 = Finite (to_f32 4) \<and> f32_val (to_f32 4) = 4"
  "round32 (63 / 4) = Finite (to_f32 (63 / 4)) \<and> f32_val (to_f32 (63 / 4)) = 63 / 4"
  "round32 63 = Finite (to_f32 63) \<and> f32_val (to_f32 63) = 63"
  "round32 32 = Finite (to_f32 32) \<and> f32_val (to_f32 32) = 32"
  "round32 (127 / 4) = Finite (to_f32 (127 / 4)) \<and> f32_val (to_f32 (127 / 4)) = 127 / 4"
  "round32 127 = Finite (to_f32 127) \<and> f32_val (to_f32 127) = 127"
  "round32 41 = Finite (to_f32 41) \<and> f32_val (to_f32 41) = 41"
  "round32 (41 / 64) = Finite (to_f32 (41 / 64)) \<and> f32_val (to_f32 (41 / 64)) = 41 / 64"
  "round32 0 = Finite (to_f32 0) \<and> f32_val (to_f32 0) = 0"
  "round32 1 = Finite (to_f32 1) \<and> f32_val (to_f32 1) = 1"
proof -
  show "round32 16 = Finite (to_f32 16) \<and> f32_val (to_f32 16) = 16"
    by (rule round32_dyadic [where m = 16 and e = 0]) simp_all
  show "round32 (- 16) = Finite (to_f32 (- 16)) \<and> f32_val (to_f32 (- 16)) = - 16"
    by (rule round32_dyadic [where m = "- 16" and e = 0]) simp_all
  show "round32 64 = Finite (to_f32 64) \<and> f32_val (to_f32 64) = 64"
    by (rule round32_dyadic [where m = 64 and e = 0]) simp_all
  show "round32 (- (1 / 4)) = Finite (to_f32 (- (1 / 4))) \<and> f32_val (to_f32 (- (1 / 4))) = - (1 / 4)"
    by (rule round32_dyadic [where m = "- 1" and e = "- 2"]) (simp_all add: power_int_minus)
  show "round32 4 = Finite (to_f32 4) \<and> f32_val (to_f32 4) = 4"
    by (rule round32_dyadic [where m = 4 and e = 0]) simp_all
  show "round32 (63 / 4) = Finite (to_f32 (63 / 4)) \<and> f32_val (to_f32 (63 / 4)) = 63 / 4"
    by (rule round32_dyadic [where m = 63 and e = "- 2"]) (simp_all add: power_int_minus)
  show "round32 63 = Finite (to_f32 63) \<and> f32_val (to_f32 63) = 63"
    by (rule round32_dyadic [where m = 63 and e = 0]) simp_all
  show "round32 32 = Finite (to_f32 32) \<and> f32_val (to_f32 32) = 32"
    by (rule round32_dyadic [where m = 32 and e = 0]) simp_all
  show "round32 (127 / 4) = Finite (to_f32 (127 / 4)) \<and> f32_val (to_f32 (127 / 4)) = 127 / 4"
    by (rule round32_dyadic [where m = 127 and e = "- 2"]) (simp_all add: power_int_minus)
  show "round32 127 = Finite (to_f32 127) \<and> f32_val (to_f32 127) = 127"
    by (rule round32_dyadic [where m = 127 and e = 0]) simp_all
  show "round32 41 = Finite (to_f32 41) \<and> f32_val (to_f32 41) = 41"
    by (rule round32_dyadic [where m = 41 and e = 0]) simp_all
  show "round32 (41 / 64) = Finite (to_f32 (41 / 64)) \<and> f32_val (to_f32 (41 / 64)) = 41 / 64"
    by (rule round32_dyadic [where m = 41 and e = "- 6"]) (simp_all add: power_int_minus)
  show "round32 0 = Finite (to_f32 0) \<and> f32_val (to_f32 0) = 0" by (rule round32_zero)
  show "round32 1 = Finite (to_f32 1) \<and> f32_val (to_f32 1) = 1" by (rule round32_one)
qed

theorem SetTextureRegion_maps_corners_witness:
  "(64 :: u32) \<noteq> 0
   \<and> uint (40 :: u16) + 1 \<noteq> uint (0 :: u16)
   \<and> texture_enabled (mk_tri (mk_vert 0 0 0 0) (mk_vert 1 0 (41/64) (41/64)) (mk_vert 0 1 0 1) False True)
   \<and> vert_u (mk_vert 0 0 0 0) = normalized (unat (0 :: u16)) 64
   \<and> vert_v (mk_vert 0 0 0 0) = normalized (unat (0 :: u16)) 64
   \<and> vert_u (mk_vert 1 0 (41/64) (41/64)) = normalized (unat (40 :: u16) + 1) 64
   \<and> vert_v (mk_vert 1 0 (41/64) (41/64)) = normalized (unat (40 :: u16) + 1) 64
   \<and> verts (last (m_tris (AddTri
        (mk_tri (mk_vert 0 0 0 0) (mk_vert 1 0 (41/64) (41/64)) (mk_vert 0 1 0 1) False True)
        (SetTextureRegion \<lparr>u_min = 0, u_max = 40, v_min = 0, v_max = 40\<rparr> 64 64
           (GS3DScreenshot_new 0)))))
     = map3 (remap_uv (SetTextureRegion \<lparr>u_min = 0, u_max = 40, v_min = 0, v_max = 40\<rparr> 64 64
           (GS3DScreenshot_new 0)))
         (mk_vert 0 0 0 0, mk_vert 1 0 (41/64) (41/64), mk_vert 0 1 0 1)
   \<and> vert_u (remap_uv (SetTextureRegion \<lparr>u_min = 0, u_max = 40, v_min = 0, v_max = 40\<rparr> 64 64
           (GS3DScreenshot_new 0)) (mk_vert 0 0 0 0)) = round32 0
   \<and> vert_v (remap_uv (SetTextureRegion \<lparr>u_min = 0, u_max = 40, v_min = 0, v_max = 40\<rparr> 64 64
           (GS3DScreenshot_new 0)) (mk_vert 0 0 0 0)) = round32 0
   \<and> flt_near (vert_u (remap_uv (SetTextureRegion \<lparr>u_min = 0, u_max = 40, v_min = 0, v_max = 40\<rparr> 64 64
           (GS3DScreenshot_new 0)) (mk_vert 1 0 (41/64) (41/64)))) 1 (5 / 2 ^ 24)
   \<and> flt_near (vert_v (remap_uv (SetTextureRegion \<lparr>u_min = 0, u_max = 40, v_min = 0, v_max = 40\<rparr> 64 64
           (GS3DScreenshot_new 0)) (mk_vert 1 0 (41/64) (41/64)))) 1 (5 / 2 ^ 24)"
proof -
  let ?r = "\<lparr>u_min = 0, u_max = 40, v_min = 0, v_max = 40\<rparr> :: TextureRegion"
  let ?S = "SetTextureRegion ?r 64 64 (GS3DScreenshot_new 0)"
  let ?a = "mk_vert 0 0 0 0"
  let ?b = "mk_vert 1 0 (41/64) (41/64)"
  let ?c = "mk_vert 0 1 0 1"
  have n: "normalized (unat (0 :: u16)) 64 = round32 0"
    "normalized (unat (40 :: u16) + 1) 64 = round32 (41/64)"
    using exact_values by (simp_all add: normalized_def)
  have t: "corner_tolerance (unat (0 :: u16)) (unat (40 :: u16)) = 5 / 2 ^ 24"
    by (simp add: corner_tolerance_def)
  have a: "vert_u (remap_uv ?S ?a) = round32 0 \<and> vert_v (remap_uv ?S ?a) = round32 0"
    using SetTextureRegion_maps_corners [of "mk_tri ?a ?b ?c False True" ?r 64 64 "GS3DScreenshot_new 0" ?a,
        THEN conjunct2, THEN conjunct2, THEN conjunct2] n
    by (simp add: mk_vert_def)
  have "flt_near (vert_u (remap_uv ?S ?b)) 1 (corner_tolerance (unat (0 :: u16)) (unat (40 :: u16)))
        \<and> flt_near (vert_v (remap_uv ?S ?b)) 1 (corner_tolerance (unat (0 :: u16)) (unat (40 :: u16)))"
    using SetTextureRegion_maps_corners [of "mk_tri ?a ?b ?c False True" ?r 64 64 "GS3DScreenshot_new 0" ?b,
        THEN conjunct2, THEN conjunct2, THEN conjunct2] n
    by (simp add: mk_vert_def)
  then have b: "flt_near (vert_u (remap_uv ?S ?b)) 1 (5 / 2 ^ 24)
           \<and> flt_near (vert_v (remap_uv ?S ?b)) 1 (5 / 2 ^ 24)"
    unfolding t .
  have s: "verts (last (m_tris (AddTri (mk_tri ?a ?b ?c False True) ?S)))
        = map3 (remap_uv ?S) (?a, ?b, ?c)"
    using SetTextureRegion_maps_corners [of "mk_tri ?a ?b ?c False True" ?r 64 64 "GS3DScreenshot_new 0" ?a,
        THEN conjunct1]
    by (simp add: mk_tri_def)
  have h: "texture_enabled (mk_tri ?a ?b ?c False True)" by (simp add: mk_tri_def)
  have e: "vert_u ?a = normalized (unat (0 :: u16)) 64" "vert_v ?a = normalized (unat (0 :: u16)) 64"
    "vert_u ?b = normalized (unat (40 :: u16) + 1) 64" "vert_v ?b = normalized (unat (40 :: u16) + 1) 64"
    unfolding n by (simp_all add: mk_vert_def)
  have z: "(64 :: u32) \<noteq> 0" "uint (40 :: u16) + 1 \<noteq> uint (0 :: u16)" by simp_all
  from z h e s a b show ?thesis by blast
qed

text \<open>
  C3 as stated fails: with the region \<open>[16, 31] \<times> [16, 31]\<close> of a 64 by 64 texture the
  offset is \<open>-1/4\<close> and the scale 4, so a vertex with \<open>u = v = 16 = region.u_min\<close> is
  stored with \<open>u = v = 63\<close>, not 0, and one with \<open>u = v = 32 = region.u_max + 1\<close> with
  \<open>u = v = 127\<close>, not 1. Every value in this computation is a small dyadic number, which
  single precision represents exactly, so no rounding is involved and no tolerance
  accounts for the difference.
\<close>

theorem SetTextureRegion_maps_corners_counterexample:
  "texture_enabled (mk_tri (mk_vert 0 0 16 16) (mk_vert 1 0 32 32) (mk_vert 0 1 16 32) False True)
   \<and> verts (last (m_tris (AddTri
        (mk_tri (mk_vert 0 0 16 16) (mk_vert 1 0 32 32) (mk_vert 0 1 16 32) False True)
        (SetTextureRegion \<lparr>u_min = 16, u_max = 31, v_min = 16, v_max = 31\<rparr> 64 64
           (GS3DScreenshot_new 0)))))
     = (mk_vert 0 0 63 63, mk_vert 1 0 127 127, mk_vert 0 1 63 127)
   \<and> \<not> flt_near (vert_u (mk_vert 0 0 63 63)) 0 1
   \<and> \<not> flt_near (vert_v (mk_vert 0 0 63 63)) 0 1
   \<and> \<not> flt_near (vert_u (mk_vert 1 0 127 127)) 1 1
   \<and> \<not> flt_near (vert_v (mk_vert 1 0 127 127)) 1 1"
  using exact_values
  by (simp add: AddTri_def SetTextureRegion_def remap_uv_def mk_tri_def mk_vert_def Let_def
      flt_near_def GS3DScreenshot_new_def)


text \<open>
  The tolerance is needed. For the region \<open>[0, 40]\<close> of a texture 64 texels wide the scale
  \<open>64 / 41\<close> is rounded down to \<open>13094412 / 2 ^ 23\<close>, and the far corner \<open>41 / 64\<close> is
  stored as \<open>1 - 2 ^ -24\<close>, the single-precision number just below 1.
\<close>

lemma far_corner_inexact:
  "vert_u (remap_uv (SetTextureRegion \<lparr>u_min = 0, u_max = 40, v_min = 0, v_max = 40\<rparr> 64 64 s)
      (mk_vert 1 0 (41/64) (41/64)))
   = round32 (1 - 1 / 2 ^ 24)"
  "round32 (1 - 1 / 2 ^ 24) \<noteq> round32 1"
proof -
  have c: "round32r (64 / 41) = Some (real_of_int 13094412 * 2 powi (0 - 23))"
    by (rule round32r_eval) (simp_all add: power_int_minus)
  have r: "round32r (41 / 64 * (13094412 / 2 ^ 23)) = Some (real_of_int 16777215 * 2 powi (- 1 - 23))"
    by (rule round32r_eval) (simp_all add: power_int_minus)
  have c': "round32r (64 / 41) = Some (13094412 / 2 ^ 23)"
    using c by (simp add: power_int_minus)
  have r': "round32r (41 / 64 * (13094412 / 2 ^ 23)) = Some (1 - 1 / 2 ^ 24)"
    using r by (simp add: power_int_minus)
  let ?X = "41 / 64 * (13094412 / 2 ^ 23) :: real"
  note C = round32_to_f32 [OF c'] and R = round32_to_f32 [OF r']
  have i: "round32r (1 - 1 / 2 ^ 24) = Some (1 - 1 / 2 ^ 24)"
    using r' by (rule round32r_idem)
  note I = round32_to_f32 [OF i]
  have s1: "fdiv (fneg (round32 0)) (to_f32 64) = round32 0"
    using exact_values(3,13) by simp
  have s3: "fdiv (round32 64) (to_f32 41) = round32 (64 / 41)"
    using exact_values(3,11) by simp
  have v: "f32_val (to_f32 (41 / 64)) = 41 / 64" "round32 (41 / 64) = Finite (to_f32 (41 / 64))"
    using exact_values(12) by blast+
  have s4: "fmul (round32 (41 / 64)) (round32 (64 / 41)) = round32 ?X"
    by (simp only: v(2) conjunct1 [OF C] fmul.simps v(1) conjunct2 [OF C])
  have "round32 (1 - 1 / 2 ^ 24) = round32 (f32_val (to_f32 ?X))"
    by (simp only: conjunct2 [OF R])
  also have "\<dots> = round32 ?X" by (simp only: round32_val conjunct1 [OF R])
  finally have s5: "round32 ?X = round32 (1 - 1 / 2 ^ 24)" by (rule sym)
  have "fmul (fadd (round32 (41/64)) (fdiv (fneg (round32 0)) (to_f32 64)))
          (fdiv (round32 64) (to_f32 41))
        = round32 (1 - 1 / 2 ^ 24)"
    by (simp only: s1 fadd_zero s3 s4 s5)
  then show "vert_u (remap_uv (SetTextureRegion \<lparr>u_min = 0, u_max = 40, v_min = 0, v_max = 40\<rparr> 64 64 s)
      (mk_vert 1 0 (41/64) (41/64)))
   = round32 (1 - 1 / 2 ^ 24)"
    by (simp add: remap_uv_def SetTextureRegion_def mk_vert_def)
  show "round32 (1 - 1 / 2 ^ 24) \<noteq> round32 1"
  proof
    assume "round32 (1 - 1 / 2 ^ 24) = round32 1"
    then have "f32_val (to_f32 (1 - 1 / 2 ^ 24)) = f32_val (to_f32 1)"
      using I round32_one by simp
    then show False using I round32_one by simp
  qed
qed


section \<open>Properties of the serializer\<close>

text \<open>The dump is defined when the stored indices are valid.\<close>

lemma usemtl_items_defined:
  assumes "tris_ok s" and "i < length (m_tris s)"
  shows "\<exists>ms. usemtl_items s i = Inr ms"
proof -
  have "texture_enabled (m_tris s ! i) \<longrightarrow>
        unat (texture_index (m_tris s ! i)) < length (m_textures s)"
    using assms nth_mem [OF assms(2)] by (simp add: tris_ok_def)
  then show ?thesis
    by (cases "i = 0") (auto simp: usemtl_items_def Let_def)
qed

lemma tri_items_defined:
  "tris_ok s \<Longrightarrow> i < length (m_tris s) \<Longrightarrow> \<exists>blk. tri_items s i = Inr blk"
  using usemtl_items_defined [of s i] by (auto simp: tri_items_def Let_def)

lemma DumpOBJ_loop_defined:
  "tris_ok s \<Longrightarrow> \<forall>i \<in> set ixs. i < length (m_tris s) \<Longrightarrow> \<exists>out. DumpOBJ_loop s ixs = Inr out"
proof (induction ixs)
  case Nil
  then show ?case by simp
next
  case (Cons i ixs)
  then obtain blk rest where "tri_items s i = Inr blk" "DumpOBJ_loop s ixs = Inr rest"
    using tri_items_defined [of s i] by auto
  then show ?case by simp
qed

lemma DumpOBJ_items_defined:
  "tris_ok s \<Longrightarrow> \<exists>out. DumpOBJ_items s filename = Inr out"
  using DumpOBJ_loop_defined [of s "[0..<length (m_tris s)]"]
  by (auto simp: DumpOBJ_items_def)


subsection \<open>Reading the file written\<close>

lemma parse_face_record: "parse_face ''-3/-3 -1/-1 -2/-2'' = Some [(-3, -3), (-1, -1), (-2, -2)]"
  by (simp add: parse_face_def parse_ref_def parse_int_def parse_nat_def digit_val_def)

subsection \<open>Lines\<close>

lemma split_lines_line:
  "nl_free l \<Longrightarrow> split_lines cur (l @ CHR 0x0A # rest) = (cur @ l) # split_lines [] rest"
  by (induction l arbitrary: cur) (auto simp: nl_free_def)

lemma split_lines_append:
  "split_lines cur ((a @ [CHR 0x0A]) @ b) = split_lines cur (a @ [CHR 0x0A]) @ split_lines [] b"
  by (induction a arbitrary: cur) simp_all

lemma render_obj_ends: "\<exists>r. render_obj h item = r @ [CHR 0x0A]"
proof (cases item)
  case Obj_header
  then show ?thesis by (simp add: newline_def)
next
  case (Obj_mtllib f)
  have "render_obj h (Obj_mtllib f) = (''mtllib '' @ f @ ''.mtl'' @ newline) @ [CHR 0x0A]"
    by (simp add: newline_def)
  with Obj_mtllib show ?thesis by blast
next
  case (Obj_v px py pz cr cg cb)
  have "render_obj h (Obj_v px py pz cr cg cb)
        = (''v '' @ fmt_float h px @ '' '' @ fmt_float h py @ '' '' @ fmt_float h pz @ '' '' @
           fmt_float3 h cr @ '' '' @ fmt_float3 h cg @ '' '' @ fmt_float3 h cb) @ [CHR 0x0A]"
    by (simp add: newline_def)
  with Obj_v show ?thesis by blast
next
  case (Obj_vt tu tv)
  have "render_obj h (Obj_vt tu tv) = (''vt '' @ fmt_float h tu @ '' '' @ fmt_float h tv) @ [CHR 0x0A]"
    by (simp add: newline_def)
  with Obj_vt show ?thesis by blast
next
  case (Obj_g name)
  have "render_obj h (Obj_g name) = (''g '' @ name) @ [CHR 0x0A]"
    by (simp add: newline_def)
  with Obj_g show ?thesis by blast
next
  case (Obj_usemtl name)
  have "render_obj h (Obj_usemtl name) = (''usemtl '' @ name) @ [CHR 0x0A]"
    by (simp add: newline_def)
  with Obj_usemtl show ?thesis by blast
next
  case (Obj_f refs)
  have "render_obj h (Obj_f refs)
        = (''f'' @ concat (map (\<lambda>(vi, ti). '' '' @ show_int vi @ ''/'' @ show_int ti) refs) @ newline)
          @ [CHR 0x0A]"
    by (simp add: newline_def)
  with Obj_f show ?thesis by blast
qed

text \<open>Every print call ends its last line, so the statements of the file are those of the calls.\<close>

lemma obj_lines_render:
  "obj_lines (concat (map (render_obj h) items)) = concat (map (\<lambda>item. obj_lines (render_obj h item)) items)"
proof (induction items)
  case Nil
  then show ?case by (simp add: obj_lines_def)
next
  case (Cons item items)
  obtain r where r: "render_obj h item = r @ [CHR 0x0A]" using render_obj_ends by blast
  have "obj_lines (concat (map (render_obj h) (item # items)))
        = split_lines [] ((r @ [CHR 0x0A]) @ concat (map (render_obj h) items))"
    by (simp only: obj_lines_def list.map concat.simps r)
  also have "\<dots> = split_lines [] (r @ [CHR 0x0A]) @ split_lines [] (concat (map (render_obj h) items))"
    by (rule split_lines_append)
  also have "\<dots> = obj_lines (render_obj h item)
                   @ concat (map (\<lambda>item. obj_lines (render_obj h item)) items)"
    by (simp only: obj_lines_def [symmetric] r Cons.IH)
  finally show ?case by (simp only: list.map concat.simps)
qed

lemma obj_stmts_render:
  "obj_stmts (concat (map (render_obj h) items)) = concat (map (item_stmts h) items)"
proof -
  have "item_stmts h = (\<lambda>item. map classify (obj_lines (render_obj h item)))"
    by (rule ext) (simp add: item_stmts_def obj_stmts_def)
  then show ?thesis
    by (simp add: obj_stmts_def obj_lines_render map_concat comp_def)
qed

lemma obj_lines_one: "nl_free l \<Longrightarrow> obj_lines (l @ newline) = [l]"
  using split_lines_line [of l "[]" "[]"] by (simp add: obj_lines_def newline_def)

lemma obj_lines_two: "nl_free l \<Longrightarrow> obj_lines (l @ newline @ newline) = [l, []]"
  using split_lines_line [of l "[]" "[CHR 0x0A]"] by (simp add: obj_lines_def newline_def)

lemma nl_free_append [simp]: "nl_free (a @ b) \<longleftrightarrow> nl_free a \<and> nl_free b"
  by (auto simp: nl_free_def)

lemma nl_free_Cons [simp]: "nl_free (c # cs) \<longleftrightarrow> c \<noteq> CHR 0x0A \<and> nl_free cs"
  by (auto simp: nl_free_def)

lemma nl_free_Nil [simp]: "nl_free []"
  by (simp add: nl_free_def)

subsection \<open>The statements of each print call\<close>

lemma render_vert_item: "render_obj h (vert_item vt) = ''v '' @ vertex_text h vt @ newline"
  by (simp add: vertex_text_def vert_item_def newline_def butlast_append)

lemma render_texcoord_item: "render_obj h (texcoord_item vt) = ''vt '' @ texcoord_text h vt @ newline"
  by (simp add: texcoord_text_def texcoord_item_def newline_def butlast_append)

lemma item_stmts_header: "item_stmts h Obj_header = [Stmt_other ''# PCSX2 3D Screenshot'']"
  using obj_lines_one [of "''# PCSX2 3D Screenshot''"]
  by (simp add: item_stmts_def obj_stmts_def classify_def)

lemma item_stmts_mtllib:
  "nl_free filename \<Longrightarrow>
   item_stmts h (Obj_mtllib filename) = [Stmt_other (''mtllib '' @ filename @ ''.mtl''), Stmt_other []]"
  using obj_lines_two [of "''mtllib '' @ filename @ ''.mtl''"]
  by (simp add: item_stmts_def obj_stmts_def classify_def)

lemma item_stmts_vert:
  "plain_vert h vt \<Longrightarrow> item_stmts h (vert_item vt) = [Stmt_v (vertex_text h vt)]"
  using obj_lines_one [of "''v '' @ vertex_text h vt"]
  by (simp add: item_stmts_def obj_stmts_def classify_def render_vert_item plain_vert_def)

lemma item_stmts_texcoord:
  "plain_vert h vt \<Longrightarrow> item_stmts h (texcoord_item vt) = [Stmt_vt (texcoord_text h vt)]"
  using obj_lines_one [of "''vt '' @ texcoord_text h vt"]
  by (simp add: item_stmts_def obj_stmts_def classify_def render_texcoord_item plain_vert_def)

lemma item_stmts_group: "nl_free name \<Longrightarrow> item_stmts h (Obj_g name) = [Stmt_g name]"
  using obj_lines_one [of "''g '' @ name"]
  by (simp add: item_stmts_def obj_stmts_def classify_def)

lemma item_stmts_usemtl:
  "nl_free name \<Longrightarrow> item_stmts h (Obj_usemtl name) = [Stmt_other (''usemtl '' @ name)]"
  using obj_lines_one [of "''usemtl '' @ name"]
  by (simp add: item_stmts_def obj_stmts_def classify_def)

lemma render_face_record:
  "render_obj h face_record = ''f -3/-3 -1/-1 -2/-2'' @ newline @ newline"
  by (simp add: face_record_def show_int_def show_nat.simps)

lemma item_stmts_face: "item_stmts h face_record = [Stmt_f ''-3/-3 -1/-1 -2/-2'', Stmt_other []]"
  using obj_lines_two [of "''f -3/-3 -1/-1 -2/-2''"]
  by (simp add: item_stmts_def obj_stmts_def classify_def render_face_record)

subsection \<open>The statements of one triangle\<close>

lemma item_stmts_verts:
  "list_all (plain_vert h) xs \<Longrightarrow>
   concat (map (item_stmts h) (map vert_item xs)) = map Stmt_v (map (vertex_text h) xs)"
  by (induction xs) (simp_all add: item_stmts_vert)

lemma item_stmts_texcoords:
  "list_all (plain_vert h) xs \<Longrightarrow>
   concat (map (item_stmts h) (map texcoord_item xs)) = map Stmt_vt (map (texcoord_text h) xs)"
  by (induction xs) (simp_all add: item_stmts_texcoord)

lemma item_stmts_group_items:
  "concat (map (item_stmts h) (group_items tris i))
   = (if i = 0 \<or> culled (tris ! (i - 1)) \<noteq> culled (tris ! i)
      then [Stmt_g (if culled (tris ! i) then ''Culled'' else ''Normal'')] else [])"
  by (simp add: group_items_def item_stmts_group)

lemma item_stmts_usemtl_items:
  assumes "usemtl_items s i = Inr ms" and "list_all nl_free (m_textures s)"
  shows "\<exists>us. concat (map (item_stmts h) ms) = map Stmt_other us"
proof -
  consider "ms = []" | "ms = [Obj_usemtl ''NoTexture'']"
    | "unat (texture_index (m_tris s ! i)) < length (m_textures s)"
      "ms = [Obj_usemtl (m_textures s ! unat (texture_index (m_tris s ! i)))]"
    using assms(1) by (auto simp: usemtl_items_def Let_def split: if_splits)
  then show ?thesis
  proof cases
    case 1
    then have "concat (map (item_stmts h) ms) = map Stmt_other []" by simp
    then show ?thesis by blast
  next
    case 2
    then have "concat (map (item_stmts h) ms) = map Stmt_other [''usemtl NoTexture'']"
      by (simp add: item_stmts_usemtl)
    then show ?thesis by blast
  next
    case 3
    let ?n = "m_textures s ! unat (texture_index (m_tris s ! i))"
    have "nl_free ?n" using assms(2) 3(1) by (simp add: list_all_length)
    then have "concat (map (item_stmts h) ms) = map Stmt_other [''usemtl '' @ ?n]"
      using 3(2) by (simp add: item_stmts_usemtl)
    then show ?thesis by blast
  qed
qed

lemma tri_items_stmts:
  assumes "tri_items s i = Inr blk" and "plain_dump h s filename" and "i < length (m_tris s)"
  obtains us where
    "concat (map (item_stmts h) blk)
     = map Stmt_v (map (vertex_text h) (list3 (verts (m_tris s ! i)))) @
       map Stmt_vt (map (texcoord_text h) (list3 (verts (m_tris s ! i)))) @
       (if i = 0 \<or> culled (m_tris s ! (i - 1)) \<noteq> culled (m_tris s ! i)
        then [Stmt_g (if culled (m_tris s ! i) then ''Culled'' else ''Normal'')] else []) @
       map Stmt_other us @ [Stmt_f ''-3/-3 -1/-1 -2/-2'', Stmt_other []]"
proof -
  from assms(1) obtain ms where
    ms: "usemtl_items s i = Inr ms" and
    blk: "blk = map vert_item (list3 (verts (m_tris s ! i))) @
           map texcoord_item (list3 (verts (m_tris s ! i))) @
           group_items (m_tris s) i @ ms @ [face_record]"
    by (auto simp: tri_items_def Let_def split: sum.splits)
  have names: "list_all nl_free (m_textures s)" using assms(2) by (simp add: plain_dump_def)
  have pv: "list_all (plain_vert h) (list3 (verts (m_tris s ! i)))"
    using assms(2,3) by (simp add: plain_dump_def list_all_length)
  from item_stmts_usemtl_items [OF ms names, of h] obtain us where
    us: "concat (map (item_stmts h) ms) = map Stmt_other us" by blast
  have "concat (map (item_stmts h) blk)
     = map Stmt_v (map (vertex_text h) (list3 (verts (m_tris s ! i)))) @
       map Stmt_vt (map (texcoord_text h) (list3 (verts (m_tris s ! i)))) @
       (if i = 0 \<or> culled (m_tris s ! (i - 1)) \<noteq> culled (m_tris s ! i)
        then [Stmt_g (if culled (m_tris s ! i) then ''Culled'' else ''Normal'')] else []) @
       map Stmt_other us @ [Stmt_f ''-3/-3 -1/-1 -2/-2'', Stmt_other []]"
    unfolding blk
    by (simp only: map_append concat_append item_stmts_verts [OF pv] item_stmts_texcoords [OF pv]
        item_stmts_group_items us list.map concat.simps item_stmts_face append_Nil2 append_assoc)
  then show ?thesis by (rule that)
qed

subsection \<open>Groups\<close>

lemma marks_v: "concat (map stmt_marks (map Stmt_v ps)) = []"
  by (induction ps) simp_all

lemma marks_vt: "concat (map stmt_marks (map Stmt_vt ps)) = []"
  by (induction ps) simp_all

lemma marks_other: "concat (map stmt_marks (map Stmt_other ps)) = []"
  by (induction ps) simp_all

lemma tri_items_marks:
  assumes "tri_items s i = Inr blk" and "plain_dump h s filename" and "i < length (m_tris s)"
  shows "concat (map stmt_marks (concat (map (item_stmts h) blk)))
         = (if i = 0 \<or> culled (m_tris s ! (i - 1)) \<noteq> culled (m_tris s ! i)
            then [Group (if culled (m_tris s ! i) then ''Culled'' else ''Normal'')] else []) @ [Face]"
proof -
  from assms obtain us where
    "concat (map (item_stmts h) blk)
     = map Stmt_v (map (vertex_text h) (list3 (verts (m_tris s ! i)))) @
       map Stmt_vt (map (texcoord_text h) (list3 (verts (m_tris s ! i)))) @
       (if i = 0 \<or> culled (m_tris s ! (i - 1)) \<noteq> culled (m_tris s ! i)
        then [Stmt_g (if culled (m_tris s ! i) then ''Culled'' else ''Normal'')] else []) @
       map Stmt_other us @ [Stmt_f ''-3/-3 -1/-1 -2/-2'', Stmt_other []]"
    by (rule tri_items_stmts)
  then show ?thesis
    by (simp add: marks_v marks_vt marks_other del: map_map)
qed

lemma DumpOBJ_loop_marks:
  "k \<le> length (m_tris s) \<Longrightarrow> plain_dump h s filename \<Longrightarrow>
   DumpOBJ_loop s [k..<length (m_tris s)] = Inr out \<Longrightarrow>
   concat (map stmt_marks (concat (map (item_stmts h) out)))
   = group_marks (if k = 0 then None else Some (culled (m_tris s ! (k - 1)))) (drop k (m_tris s))"
proof (induction "length (m_tris s) - k" arbitrary: k out)
  case 0
  then show ?case by simp
next
  case (Suc d)
  then have lt: "k < length (m_tris s)" by simp
  then have u: "[k..<length (m_tris s)] = k # [Suc k..<length (m_tris s)]"
    by (rule upt_conv_Cons)
  from Suc.prems(3) obtain blk rest where
    blk: "tri_items s k = Inr blk" and
    rest: "DumpOBJ_loop s [Suc k..<length (m_tris s)] = Inr rest" and
    out: "out = blk @ rest"
    unfolding u by (auto split: sum.splits)
  have d: "d = length (m_tris s) - Suc k" using Suc.hyps(2) by simp
  have ih: "concat (map stmt_marks (concat (map (item_stmts h) rest)))
            = group_marks (Some (culled (m_tris s ! k))) (drop (Suc k) (m_tris s))"
    using Suc.hyps(1) [OF d _ Suc.prems(2) rest] lt by simp
  have dr: "drop k (m_tris s) = m_tris s ! k # drop (Suc k) (m_tris s)"
    using lt by (simp add: Cons_nth_drop_Suc)
  have g: "(if k = 0 \<or> culled (m_tris s ! (k - 1)) \<noteq> culled (m_tris s ! k)
            then [Group (if culled (m_tris s ! k) then ''Culled'' else ''Normal'')] else [])
           = (if (if k = 0 then None else Some (culled (m_tris s ! (k - 1))))
                 = Some (culled (m_tris s ! k)) then []
              else [Group (if culled (m_tris s ! k) then ''Culled'' else ''Normal'')])"
    by auto
  show ?case
    unfolding out dr
    by (simp only: map_append concat_append tri_items_marks [OF blk Suc.prems(2) lt] ih
        group_marks.simps g append_assoc)
qed

lemma DumpOBJ_items_marks:
  assumes "DumpOBJ_items s filename = Inr items" and "plain_dump h s filename"
  shows "text_marks (concat (map (render_obj h) items)) = group_marks None (m_tris s)"
proof -
  from assms(1) obtain body where
    b: "DumpOBJ_loop s [0..<length (m_tris s)] = Inr body" and
    o: "items = Obj_header # Obj_mtllib filename # body"
    by (auto simp: DumpOBJ_items_def split: sum.splits)
  have f: "nl_free filename" using assms(2) by (simp add: plain_dump_def)
  have "concat (map stmt_marks (concat (map (item_stmts h) body))) = group_marks None (m_tris s)"
    using DumpOBJ_loop_marks [OF _ assms(2) b] by simp
  then show ?thesis
    unfolding text_marks_def obj_stmts_render o
    by (simp add: item_stmts_header item_stmts_mtllib [OF f])
qed

text \<open>The geometry file is written when it can be opened and the stored indices are valid.\<close>

lemma DumpOBJ_written:
  assumes "OpenCFile h (Path_Combine h (m_dump_dir s) (filename @ ''.obj''))" and "tris_ok s"
  obtains items where "DumpOBJ_items s filename = Inr items"
    and "DumpOBJ h s filename fs
         = Inr (True, fs(Path_Combine h (m_dump_dir s) (filename @ ''.obj'')
                          \<mapsto> concat (map (render_obj h) items)))"
proof -
  from DumpOBJ_items_defined [OF assms(2)] obtain items where
    i: "DumpOBJ_items s filename = Inr items" by blast
  then have "DumpOBJ h s filename fs
         = Inr (True, fs(Path_Combine h (m_dump_dir s) (filename @ ''.obj'')
                          \<mapsto> concat (map (render_obj h) items)))"
    using assms(1) by (simp add: DumpOBJ_def Let_def)
  with i show ?thesis by (rule that)
qed

subsection \<open>Faces\<close>

lemma stmt_faces_v: "stmt_faces vs ts (map Stmt_v ps @ rest) = stmt_faces (vs @ ps) ts rest"
  by (induction ps arbitrary: vs) simp_all

lemma stmt_faces_vt: "stmt_faces vs ts (map Stmt_vt ps @ rest) = stmt_faces vs (ts @ ps) rest"
  by (induction ps arbitrary: ts) simp_all

lemma stmt_faces_other: "stmt_faces vs ts (map Stmt_other ps @ rest) = stmt_faces vs ts rest"
  by (induction ps) simp_all

lemma resolve_last_three:
  "resolve (xs @ [p, q, r]) (- 3) = Some (length xs, p)"
  "resolve (xs @ [p, q, r]) (- 1) = Some (length xs + 2, r)"
  "resolve (xs @ [p, q, r]) (- 2) = Some (length xs + 1, q)"
  by (simp_all add: resolve_def obj_position_def nth_append)

lemma tri_items_face:
  assumes "tri_items s i = Inr blk" and "plain_dump h s filename" and "i < length (m_tris s)"
    and "length vs = 3 * i" and "length ts = 3 * i"
  shows "stmt_faces vs ts (concat (map (item_stmts h) blk) @ rest)
         = face_of_tri h i (m_tris s ! i) #
           stmt_faces (vs @ map (vertex_text h) (list3 (verts (m_tris s ! i))))
                      (ts @ map (texcoord_text h) (list3 (verts (m_tris s ! i)))) rest"
proof -
  from assms(1-3) obtain us where
    b: "concat (map (item_stmts h) blk)
     = map Stmt_v (map (vertex_text h) (list3 (verts (m_tris s ! i)))) @
       map Stmt_vt (map (texcoord_text h) (list3 (verts (m_tris s ! i)))) @
       (if i = 0 \<or> culled (m_tris s ! (i - 1)) \<noteq> culled (m_tris s ! i)
        then [Stmt_g (if culled (m_tris s ! i) then ''Culled'' else ''Normal'')] else []) @
       map Stmt_other us @ [Stmt_f ''-3/-3 -1/-1 -2/-2'', Stmt_other []]"
    by (rule tri_items_stmts)
  obtain v0 v1 v2 where v: "verts (m_tris s ! i) = (v0, v1, v2)"
    by (cases "verts (m_tris s ! i)")
  let ?vs = "vs @ map (vertex_text h) (list3 (verts (m_tris s ! i)))"
  let ?ts = "ts @ map (texcoord_text h) (list3 (verts (m_tris s ! i)))"
  have g: "stmt_faces ?vs ?ts
             ((if i = 0 \<or> culled (m_tris s ! (i - 1)) \<noteq> culled (m_tris s ! i)
               then [Stmt_g (if culled (m_tris s ! i) then ''Culled'' else ''Normal'')] else []) @ xs)
           = stmt_faces ?vs ?ts xs" for xs
    by simp
  have "stmt_faces vs ts (concat (map (item_stmts h) blk) @ rest)
        = stmt_faces ?vs ?ts (Stmt_f ''-3/-3 -1/-1 -2/-2'' # Stmt_other [] # rest)"
    unfolding b
    by (simp only: append_assoc stmt_faces_v stmt_faces_vt g stmt_faces_other append_Cons append_Nil)
  also have "\<dots> = face_of_tri h i (m_tris s ! i) # stmt_faces ?vs ?ts rest"
    using assms(4,5)
    by (simp add: v parse_face_record resolve_last_three face_of_tri_def corner_of_def)
  finally show ?thesis .
qed

lemma DumpOBJ_loop_faces:
  "k \<le> length (m_tris s) \<Longrightarrow> plain_dump h s filename \<Longrightarrow>
   DumpOBJ_loop s [k..<length (m_tris s)] = Inr out \<Longrightarrow>
   length vs = 3 * k \<Longrightarrow> length ts = 3 * k \<Longrightarrow>
   stmt_faces vs ts (concat (map (item_stmts h) out))
   = map (\<lambda>i. face_of_tri h i (m_tris s ! i)) [k..<length (m_tris s)]"
proof (induction "length (m_tris s) - k" arbitrary: k out vs ts)
  case 0
  then show ?case by simp
next
  case (Suc d)
  then have lt: "k < length (m_tris s)" by simp
  then have u: "[k..<length (m_tris s)] = k # [Suc k..<length (m_tris s)]"
    by (rule upt_conv_Cons)
  from Suc.prems(3) obtain blk rest where
    blk: "tri_items s k = Inr blk" and
    rest: "DumpOBJ_loop s [Suc k..<length (m_tris s)] = Inr rest" and
    out: "out = blk @ rest"
    unfolding u by (auto split: sum.splits)
  have d: "d = length (m_tris s) - Suc k" using Suc.hyps(2) by simp
  let ?vs = "vs @ map (vertex_text h) (list3 (verts (m_tris s ! k)))"
  let ?ts = "ts @ map (texcoord_text h) (list3 (verts (m_tris s ! k)))"
  have l3: "length (list3 x) = 3" for x by (cases x) simp
  have lv: "length ?vs = 3 * Suc k" and lt': "length ?ts = 3 * Suc k"
    using Suc.prems(4,5) by (simp_all add: l3)
  have ih: "stmt_faces ?vs ?ts (concat (map (item_stmts h) rest))
            = map (\<lambda>i. face_of_tri h i (m_tris s ! i)) [Suc k..<length (m_tris s)]"
    using lt by (intro Suc.hyps(1) [OF d _ Suc.prems(2) rest lv lt']) simp
  show ?case
    unfolding out u
    by (simp only: map_append concat_append
        tri_items_face [OF blk Suc.prems(2) lt Suc.prems(4,5)] ih list.map)
qed

lemma faces_v: "concat (map stmt_face (map Stmt_v ps)) = []"
  by (induction ps) simp_all

lemma faces_vt: "concat (map stmt_face (map Stmt_vt ps)) = []"
  by (induction ps) simp_all

lemma faces_other: "concat (map stmt_face (map Stmt_other ps)) = []"
  by (induction ps) simp_all

lemma tri_items_one_face:
  assumes "tri_items s i = Inr blk" and "plain_dump h s filename" and "i < length (m_tris s)"
  shows "concat (map stmt_face (concat (map (item_stmts h) blk))) = [''-3/-3 -1/-1 -2/-2'']"
proof -
  from assms obtain us where
    "concat (map (item_stmts h) blk)
     = map Stmt_v (map (vertex_text h) (list3 (verts (m_tris s ! i)))) @
       map Stmt_vt (map (texcoord_text h) (list3 (verts (m_tris s ! i)))) @
       (if i = 0 \<or> culled (m_tris s ! (i - 1)) \<noteq> culled (m_tris s ! i)
        then [Stmt_g (if culled (m_tris s ! i) then ''Culled'' else ''Normal'')] else []) @
       map Stmt_other us @ [Stmt_f ''-3/-3 -1/-1 -2/-2'', Stmt_other []]"
    by (rule tri_items_stmts)
  then show ?thesis
    by (simp add: faces_v faces_vt faces_other del: map_map)
qed

lemma DumpOBJ_loop_one_face_each:
  "\<forall>i \<in> set ixs. i < length (m_tris s) \<Longrightarrow> plain_dump h s filename \<Longrightarrow>
   DumpOBJ_loop s ixs = Inr out \<Longrightarrow>
   concat (map stmt_face (concat (map (item_stmts h) out)))
   = replicate (length ixs) ''-3/-3 -1/-1 -2/-2''"
proof (induction ixs arbitrary: out)
  case Nil
  then show ?case by simp
next
  case (Cons i ixs)
  from Cons.prems(3) obtain blk rest where
    blk: "tri_items s i = Inr blk" and
    rest: "DumpOBJ_loop s ixs = Inr rest" and
    out: "out = blk @ rest"
    by (auto split: sum.splits)
  have lt: "i < length (m_tris s)" using Cons.prems(1) by simp
  have ih: "concat (map stmt_face (concat (map (item_stmts h) rest)))
            = replicate (length ixs) ''-3/-3 -1/-1 -2/-2''"
    using Cons.prems(1) by (intro Cons.IH [OF _ Cons.prems(2) rest]) simp
  show ?case
    unfolding out
    by (simp only: map_append concat_append tri_items_one_face [OF blk Cons.prems(2) lt] ih
        length_Cons replicate_Suc append_Cons append_Nil)
qed

lemma DumpOBJ_items_faces:
  assumes "DumpOBJ_items s filename = Inr items" and "plain_dump h s filename"
  shows "text_faces (concat (map (render_obj h) items)) = faces_of_tris h (m_tris s)"
    and "face_records (concat (map (render_obj h) items))
         = replicate (length (m_tris s)) ''-3/-3 -1/-1 -2/-2''"
proof -
  from assms(1) obtain body where
    b: "DumpOBJ_loop s [0..<length (m_tris s)] = Inr body" and
    o: "items = Obj_header # Obj_mtllib filename # body"
    by (auto simp: DumpOBJ_items_def split: sum.splits)
  have f: "nl_free filename" using assms(2) by (simp add: plain_dump_def)
  have "stmt_faces [] [] (concat (map (item_stmts h) body)) = faces_of_tris h (m_tris s)"
    using DumpOBJ_loop_faces [OF _ assms(2) b, of "[]" "[]"] by (simp add: faces_of_tris_def)
  then show "text_faces (concat (map (render_obj h) items)) = faces_of_tris h (m_tris s)"
    unfolding text_faces_def obj_stmts_render o
    by (simp add: item_stmts_header item_stmts_mtllib [OF f])
  have "concat (map stmt_face (concat (map (item_stmts h) body)))
        = replicate (length (m_tris s)) ''-3/-3 -1/-1 -2/-2''"
    using DumpOBJ_loop_one_face_each [OF _ assms(2) b] by simp
  then show "face_records (concat (map (render_obj h) items))
         = replicate (length (m_tris s)) ''-3/-3 -1/-1 -2/-2''"
    unfolding face_records_def obj_stmts_render o
    by (simp add: item_stmts_header item_stmts_mtllib [OF f])
qed

subsection \<open>The sample host\<close>

lemma digit_nl_free: "k < 10 \<Longrightarrow> ''0123456789'' ! k \<noteq> CHR 0x0A"
proof -
  assume "k < 10"
  then have "''0123456789'' ! k \<in> set ''0123456789''" by (intro nth_mem) simp
  then show ?thesis by auto
qed

lemma nl_free_show_nat: "nl_free (show_nat n)"
proof (induction n rule: show_nat.induct)
  case (1 n)
  show ?case
  proof (cases "n < 10")
    case True
    then show ?thesis by (subst show_nat.simps) (simp add: digit_nl_free)
  next
    case False
    then have "nl_free (show_nat (n div 10))" by (rule 1)
    moreover have "''0123456789'' ! (n mod 10) \<noteq> CHR 0x0A" by (rule digit_nl_free) simp
    ultimately show ?thesis using False by (subst show_nat.simps) simp
  qed
qed

lemma nl_free_show_int: "nl_free (show_int i)"
  by (simp add: show_int_def nl_free_show_nat)

lemma sample_host_fmt:
  "nl_free (fmt_float sample_host w)" "nl_free (fmt_float3 sample_host w)"
  by (cases w; simp add: sample_host_def nl_free_show_int)+

lemma vertex_text_eq:
  "vertex_text h vt
   = fmt_float h (vert_x vt) @ '' '' @ fmt_float h (vert_y vt) @ '' '' @ fmt_float h (vert_z vt) @ '' '' @
     fmt_float3 h (fdiv (round32 (real (unat (vert_r vt)))) (to_f32 255)) @ '' '' @
     fmt_float3 h (fdiv (round32 (real (unat (vert_g vt)))) (to_f32 255)) @ '' '' @
     fmt_float3 h (fdiv (round32 (real (unat (vert_b vt)))) (to_f32 255))"
  by (simp add: vertex_text_def vert_item_def newline_def butlast_append)

lemma texcoord_text_eq:
  "texcoord_text h vt = fmt_float h (vert_u vt) @ '' '' @ fmt_float h (fsub (round32 1) (vert_v vt))"
  by (simp add: texcoord_text_def texcoord_item_def newline_def butlast_append)

lemma sample_host_plain_vert: "plain_vert sample_host vt"
  by (simp add: plain_vert_def vertex_text_eq texcoord_text_eq sample_host_fmt)

lemma sample_host_plain_dump:
  "nl_free filename \<Longrightarrow> list_all nl_free (m_textures s) \<Longrightarrow> plain_dump sample_host s filename"
  by (simp add: plain_dump_def list_all_iff sample_host_plain_vert)

lemma sample_host_path:
  "Path_Combine sample_host [] (''shot'' @ ''.obj'') = ''/shot.obj''"
  "OpenCFile sample_host path"
  by (simp_all add: sample_host_def)

subsection \<open>Group statements of the file written\<close>

text \<open>
  C6, as amended. When the geometry file can be opened, the texture indices of the
  stored triangles are valid, and neither the file name nor a texture name nor a
  formatted number holds a line feed, \<open>DumpOBJ\<close> returns true and writes a file whose
  group and face statements, in the order they stand in the text, are those of
  \<open>group_marks\<close>: a group \<open>g Culled\<close> or \<open>g Normal\<close> before the face of the first
  triangle and before the face of every later triangle whose culled flag differs from
  that of the triangle just before it, and no group between the faces of two consecutive
  triangles with the same flag.
\<close>

theorem group_markers_at_transitions:
  assumes "OpenCFile h (Path_Combine h (m_dump_dir s) (filename @ ''.obj''))"
    and "tris_ok s" and "plain_dump h s filename"
  shows "\<exists>text. DumpOBJ h s filename fs
                 = Inr (True, fs(Path_Combine h (m_dump_dir s) (filename @ ''.obj'') \<mapsto> text))
               \<and> text_marks text = group_marks None (m_tris s)"
proof -
  from assms(1,2) obtain items where
    i: "DumpOBJ_items s filename = Inr items" and
    d: "DumpOBJ h s filename fs
         = Inr (True, fs(Path_Combine h (m_dump_dir s) (filename @ ''.obj'')
                          \<mapsto> concat (map (render_obj h) items)))"
    by (rule DumpOBJ_written)
  from DumpOBJ_items_marks [OF i assms(3)] d show ?thesis by blast
qed

theorem group_markers_at_transitions_witness:
  "OpenCFile sample_host (Path_Combine sample_host (m_dump_dir (run_calls
      [Call_SetTextureName ''tex0'',
       Call_AddTri (mk_tri (mk_vert 0 0 0 0) (mk_vert 1 0 1 0) (mk_vert 0 1 0 1) True False),
       Call_AddTri (mk_tri (mk_vert 0 0 0 0) (mk_vert 2 0 1 0) (mk_vert 0 2 0 1) True True),
       Call_AddTri (mk_tri (mk_vert 0 0 0 0) (mk_vert 3 0 1 0) (mk_vert 0 3 0 1) False True)]
      (GS3DScreenshot_new 0))) (''shot'' @ ''.obj''))
   \<and> tris_ok (run_calls
      [Call_SetTextureName ''tex0'',
       Call_AddTri (mk_tri (mk_vert 0 0 0 0) (mk_vert 1 0 1 0) (mk_vert 0 1 0 1) True False),
       Call_AddTri (mk_tri (mk_vert 0 0 0 0) (mk_vert 2 0 1 0) (mk_vert 0 2 0 1) True True),
       Call_AddTri (mk_tri (mk_vert 0 0 0 0) (mk_vert 3 0 1 0) (mk_vert 0 3 0 1) False True)]
      (GS3DScreenshot_new 0))
   \<and> plain_dump sample_host (run_calls
      [Call_SetTextureName ''tex0'',
       Call_AddTri (mk_tri (mk_vert 0 0 0 0) (mk_vert 1 0 1 0) (mk_vert 0 1 0 1) True False),
       Call_AddTri (mk_tri (mk_vert 0 0 0 0) (mk_vert 2 0 1 0) (mk_vert 0 2 0 1) True True),
       Call_AddTri (mk_tri (mk_vert 0 0 0 0) (mk_vert 3 0 1 0) (mk_vert 0 3 0 1) False True)]
      (GS3DScreenshot_new 0)) ''shot''
   \<and> (case DumpOBJ sample_host (run_calls
      [Call_SetTextureName ''tex0'',
       Call_AddTri (mk_tri (mk_vert 0 0 0 0) (mk_vert 1 0 1 0) (mk_vert 0 1 0 1) True False),
       Call_AddTri (mk_tri (mk_vert 0 0 0 0) (mk_vert 2 0 1 0) (mk_vert 0 2 0 1) True True),
       Call_AddTri (mk_tri (mk_vert 0 0 0 0) (mk_vert 3 0 1 0) (mk_vert 0 3 0 1) False True)]
      (GS3DScreenshot_new 0)) ''shot'' Map.empty of
        Inl e \<Rightarrow> False
      | Inr (ok, fs') \<Rightarrow>
          ok \<and> (case fs' ''/shot.obj'' of
                  None \<Rightarrow> False
                | Some text \<Rightarrow>
                    text_marks text
                    = [Group ''Culled'', Face, Face, Group ''Normal'', Face]))"
proof -
  let ?s = "run_calls
      [Call_SetTextureName ''tex0'',
       Call_AddTri (mk_tri (mk_vert 0 0 0 0) (mk_vert 1 0 1 0) (mk_vert 0 1 0 1) True False),
       Call_AddTri (mk_tri (mk_vert 0 0 0 0) (mk_vert 2 0 1 0) (mk_vert 0 2 0 1) True True),
       Call_AddTri (mk_tri (mk_vert 0 0 0 0) (mk_vert 3 0 1 0) (mk_vert 0 3 0 1) False True)]
      (GS3DScreenshot_new 0)"
  have c: "map culled (m_tris ?s) = [True, True, False]"
    and e: "map texture_enabled (m_tris ?s) = [False, True, True]"
    and x: "map texture_index (m_tris ?s) = [0, 0, 0]"
    and n: "m_textures ?s = [''tex0'']" and d: "m_dump_dir ?s = []"
    by (simp_all add: SetTextureName_def AddTri_def GS3DScreenshot_new_def mk_tri_def Let_def)
  obtain t0 t1 t2 where t: "m_tris ?s = [t0, t1, t2]"
    by (simp add: SetTextureName_def AddTri_def GS3DScreenshot_new_def Let_def)
  have ok: "tris_ok ?s" using x n by (auto simp: tris_ok_def t)
  have "list_all nl_free (m_textures ?s)" unfolding n by simp
  then have pl: "plain_dump sample_host ?s ''shot''"
    by (intro sample_host_plain_dump) simp_all
  have op: "OpenCFile sample_host (Path_Combine sample_host (m_dump_dir ?s) (''shot'' @ ''.obj''))"
    by (rule sample_host_path)
  have pa: "Path_Combine sample_host (m_dump_dir ?s) (''shot'' @ ''.obj'') = ''/shot.obj''"
    unfolding d by (rule sample_host_path)
  from group_markers_at_transitions [OF op ok pl, of Map.empty] obtain out where
    w: "DumpOBJ sample_host ?s ''shot'' Map.empty = Inr (True, [''/shot.obj'' \<mapsto> out])"
    and m: "text_marks out = group_marks None (m_tris ?s)"
    unfolding pa by blast
  have "group_marks None (m_tris ?s) = [Group ''Culled'', Face, Face, Group ''Normal'', Face]"
    using c unfolding t by simp
  with m have "text_marks out = [Group ''Culled'', Face, Face, Group ''Normal'', Face]" by simp
  then have "case DumpOBJ sample_host ?s ''shot'' Map.empty of
        Inl e \<Rightarrow> False
      | Inr (ok, fs') \<Rightarrow>
          ok \<and> (case fs' ''/shot.obj'' of
                  None \<Rightarrow> False
                | Some text \<Rightarrow>
                    text_marks text
                    = [Group ''Culled'', Face, Face, Group ''Normal'', Face])"
    unfolding w by simp
  with op ok pl show ?thesis by blast
qed

lemma sample_host_plain_verts: "list_all (plain_vert sample_host) xs"
  by (simp add: list_all_iff sample_host_plain_vert)

lemma item_stmts_injected:
  "item_stmts h (Obj_usemtl (''x'' @ newline @ ''g Culled''))
   = [Stmt_other ''usemtl x'', Stmt_g ''Culled'']"
  by (simp add: item_stmts_def obj_stmts_def obj_lines_def newline_def classify_def)

lemma two_tris_items:
  assumes "m_tris s = [t0, t1]" and "m_textures s = [name]"
    and "culled t0 = False" and "culled t1 = False" and "texture_enabled t0 = False"
    and "texture_enabled t1 = True" and "texture_index t1 = 0"
  shows "DumpOBJ_items s filename
         = Inr ([Obj_header, Obj_mtllib filename] @
             map vert_item (list3 (verts t0)) @ map texcoord_item (list3 (verts t0)) @
             [Obj_g ''Normal'', Obj_usemtl ''NoTexture'', face_record] @
             map vert_item (list3 (verts t1)) @ map texcoord_item (list3 (verts t1)) @
             [Obj_usemtl name, face_record])"
proof -
  have u: "[0..<length (m_tris s)] = [0, 1]" unfolding assms(1) by (simp add: upt_rec)
  show ?thesis
    unfolding DumpOBJ_items_def u
    by (simp add: tri_items_def usemtl_items_def group_items_def Let_def assms)
qed

text \<open>
  C6 as stated fails: texture names are arbitrary strings and are printed as they are.
  With a texture registered under a name that holds a line feed followed by
  \<open>g Culled\<close>, and two triangles that are both not culled, the second with this texture,
  the file written has a group statement between the faces of the two triangles, whose
  culled flags are the same.
\<close>

theorem group_markers_at_transitions_counterexample:
  "map culled (m_tris (run_calls
      [Call_SetTextureName (''x'' @ newline @ ''g Culled''),
       Call_AddTri (mk_tri (mk_vert 0 0 0 0) (mk_vert 1 0 1 0) (mk_vert 0 1 0 1) False False),
       Call_AddTri (mk_tri (mk_vert 0 0 0 0) (mk_vert 2 0 1 0) (mk_vert 0 2 0 1) False True)]
      (GS3DScreenshot_new 0))) = [False, False]
   \<and> group_marks None (m_tris (run_calls
      [Call_SetTextureName (''x'' @ newline @ ''g Culled''),
       Call_AddTri (mk_tri (mk_vert 0 0 0 0) (mk_vert 1 0 1 0) (mk_vert 0 1 0 1) False False),
       Call_AddTri (mk_tri (mk_vert 0 0 0 0) (mk_vert 2 0 1 0) (mk_vert 0 2 0 1) False True)]
      (GS3DScreenshot_new 0))) = [Group ''Normal'', Face, Face]
   \<and> (case DumpOBJ sample_host (run_calls
      [Call_SetTextureName (''x'' @ newline @ ''g Culled''),
       Call_AddTri (mk_tri (mk_vert 0 0 0 0) (mk_vert 1 0 1 0) (mk_vert 0 1 0 1) False False),
       Call_AddTri (mk_tri (mk_vert 0 0 0 0) (mk_vert 2 0 1 0) (mk_vert 0 2 0 1) False True)]
      (GS3DScreenshot_new 0)) ''shot'' Map.empty of
        Inl e \<Rightarrow> False
      | Inr (ok, fs') \<Rightarrow>
          ok \<and> (case fs' ''/shot.obj'' of
                  None \<Rightarrow> False
                | Some text \<Rightarrow>
                    text_marks text = [Group ''Normal'', Face, Group ''Culled'', Face]))"
proof -
  let ?s = "(run_calls
      [Call_SetTextureName (''x'' @ newline @ ''g Culled''),
       Call_AddTri (mk_tri (mk_vert 0 0 0 0) (mk_vert 1 0 1 0) (mk_vert 0 1 0 1) False False),
       Call_AddTri (mk_tri (mk_vert 0 0 0 0) (mk_vert 2 0 1 0) (mk_vert 0 2 0 1) False True)]
      (GS3DScreenshot_new 0))"
  have c: "map culled (m_tris ?s) = [False, False]"
    and e: "map texture_enabled (m_tris ?s) = [False, True]"
    and x: "map texture_index (m_tris ?s) = [0, 0]"
    and n: "m_textures ?s = [''x'' @ newline @ ''g Culled'']" and d: "m_dump_dir ?s = []"
    by (simp_all add: SetTextureName_def AddTri_def GS3DScreenshot_new_def mk_tri_def Let_def)
  obtain t0 t1 where t: "m_tris ?s = [t0, t1]"
    by (simp add: SetTextureName_def AddTri_def GS3DScreenshot_new_def Let_def)
  have f: "culled t0 = False" "culled t1 = False" "texture_enabled t0 = False"
    "texture_enabled t1 = True" "texture_index t1 = 0"
    using c e x unfolding t by simp_all
  have g: "group_marks None (m_tris ?s) = [Group ''Normal'', Face, Face]"
    unfolding t by (simp add: f)
  let ?items = "[Obj_header, Obj_mtllib ''shot''] @
      map vert_item (list3 (verts t0)) @ map texcoord_item (list3 (verts t0)) @
      [Obj_g ''Normal'', Obj_usemtl ''NoTexture'', face_record] @
      map vert_item (list3 (verts t1)) @ map texcoord_item (list3 (verts t1)) @
      [Obj_usemtl (''x'' @ newline @ ''g Culled''), face_record]"
  have i: "DumpOBJ_items ?s ''shot'' = Inr ?items"
    using t n f by (rule two_tris_items)
  have pa: "Path_Combine sample_host (m_dump_dir ?s) (''shot'' @ ''.obj'') = ''/shot.obj''"
    unfolding d by (rule sample_host_path)
  have w: "DumpOBJ sample_host ?s ''shot'' Map.empty
           = Inr (True, [''/shot.obj'' \<mapsto> concat (map (render_obj sample_host) ?items)])"
    unfolding DumpOBJ_def Let_def pa i by (simp add: sample_host_path)
  have m: "text_marks (concat (map (render_obj sample_host) ?items))
           = [Group ''Normal'', Face, Group ''Culled'', Face]"
    unfolding text_marks_def obj_stmts_render
    by (simp only: map_append concat_append item_stmts_verts [OF sample_host_plain_verts]
          item_stmts_texcoords [OF sample_host_plain_verts] list.map concat.simps
          item_stmts_header item_stmts_face item_stmts_injected marks_v marks_vt)
       (simp add: item_stmts_mtllib item_stmts_group item_stmts_usemtl)
  have "case DumpOBJ sample_host ?s ''shot'' Map.empty of
        Inl e \<Rightarrow> False
      | Inr (ok, fs') \<Rightarrow>
          ok \<and> (case fs' ''/shot.obj'' of
                  None \<Rightarrow> False
                | Some text \<Rightarrow>
                    text_marks text = [Group ''Normal'', Face, Group ''Culled'', Face])"
    unfolding w using m by simp
  with c g show ?thesis by blast
qed

subsection \<open>Face statements of the file written\<close>

lemma round32_255: "round32 255 = Finite (to_f32 255) \<and> f32_val (to_f32 255) = 255"
  by (rule round32_dyadic [where m = 255 and e = 0]) simp_all

lemma sample_values:
  "fdiv (round32 255) (to_f32 255) = round32 1"
  "fsub (round32 1) (round32 0) = round32 1"
  "fsub (round32 1) (round32 1) = round32 0"
  using round32_255 round32_zero round32_one by simp_all

lemma sample_host_digits:
  "fmt_float sample_host (round32 0) = ''0''"
  "fmt_float sample_host (round32 1) = ''1''"
  "fmt_float3 sample_host (round32 1) = ''1.000''"
  using round32_zero round32_one
  by (simp_all add: sample_host_def show_int_def show_nat.simps)

lemma sample_texts:
  "vertex_text sample_host (mk_vert 0 0 0 0) = ''0 0 0 1.000 1.000 1.000''"
  "vertex_text sample_host (mk_vert 1 0 1 0) = ''1 0 0 1.000 1.000 1.000''"
  "vertex_text sample_host (mk_vert 0 1 0 1) = ''0 1 0 1.000 1.000 1.000''"
  "texcoord_text sample_host (mk_vert 0 0 0 0) = ''0 1''"
  "texcoord_text sample_host (mk_vert 1 0 1 0) = ''1 1''"
  "texcoord_text sample_host (mk_vert 0 1 0 1) = ''0 0''"
  by (simp_all add: vertex_text_eq texcoord_text_eq mk_vert_def sample_values sample_host_digits)

lemma one_tri_items:
  assumes "m_tris s = [t0]" and "culled t0 = False" and "texture_enabled t0 = False"
  shows "DumpOBJ_items s filename
         = Inr ([Obj_header, Obj_mtllib filename] @
             map vert_item (list3 (verts t0)) @ map texcoord_item (list3 (verts t0)) @
             [Obj_g ''Normal'', Obj_usemtl ''NoTexture'', face_record])"
  unfolding DumpOBJ_items_def
  by (simp add: tri_items_def usemtl_items_def group_items_def Let_def assms)

text \<open>
  C5, as amended. When the geometry file can be opened, the texture indices of the
  stored triangles are valid, and neither the file name nor a texture name nor a
  formatted number holds a line feed, \<open>DumpOBJ\<close> returns true and writes a file that
  holds exactly one face statement per triangle, the constant \<open>f -3/-3 -1/-1 -2/-2\<close>.
  Read by the rules of the format, with the negative indices relative to the end of the
  vertex and texture coordinate statements that stand before the face, the face of
  triangle number \<open>i\<close> names the statements number \<open>3 * i\<close>, \<open>3 * i + 2\<close> and \<open>3 * i + 1\<close>,
  which are those printed for the first, the third and the second vertex of that
  triangle: the three printed last, in the order first, third, second.
\<close>

theorem faces_reference_last_three:
  assumes "OpenCFile h (Path_Combine h (m_dump_dir s) (filename @ ''.obj''))"
    and "tris_ok s" and "plain_dump h s filename"
  shows "\<exists>text. DumpOBJ h s filename fs
                 = Inr (True, fs(Path_Combine h (m_dump_dir s) (filename @ ''.obj'') \<mapsto> text))
               \<and> face_records text = replicate (length (m_tris s)) ''-3/-3 -1/-1 -2/-2''
               \<and> text_faces text = faces_of_tris h (m_tris s)"
proof -
  from assms(1,2) obtain items where
    i: "DumpOBJ_items s filename = Inr items" and
    d: "DumpOBJ h s filename fs
         = Inr (True, fs(Path_Combine h (m_dump_dir s) (filename @ ''.obj'')
                          \<mapsto> concat (map (render_obj h) items)))"
    by (rule DumpOBJ_written)
  from DumpOBJ_items_faces [OF i assms(3)] d show ?thesis by blast
qed

theorem faces_reference_last_three_witness:
  "OpenCFile sample_host (Path_Combine sample_host (m_dump_dir (run_calls
      [Call_AddTri (mk_tri (mk_vert 0 0 0 0) (mk_vert 1 0 1 0) (mk_vert 0 1 0 1) False False)]
      (GS3DScreenshot_new 0))) (''shot'' @ ''.obj''))
   \<and> tris_ok (run_calls
      [Call_AddTri (mk_tri (mk_vert 0 0 0 0) (mk_vert 1 0 1 0) (mk_vert 0 1 0 1) False False)]
      (GS3DScreenshot_new 0))
   \<and> plain_dump sample_host (run_calls
      [Call_AddTri (mk_tri (mk_vert 0 0 0 0) (mk_vert 1 0 1 0) (mk_vert 0 1 0 1) False False)]
      (GS3DScreenshot_new 0)) ''shot''
   \<and> (case DumpOBJ sample_host (run_calls
      [Call_AddTri (mk_tri (mk_vert 0 0 0 0) (mk_vert 1 0 1 0) (mk_vert 0 1 0 1) False False)]
      (GS3DScreenshot_new 0)) ''shot'' Map.empty of
        Inl e \<Rightarrow> False
      | Inr (ok, fs') \<Rightarrow>
          ok \<and> (case fs' ''/shot.obj'' of
                  None \<Rightarrow> False
                | Some text \<Rightarrow>
                    face_records text = [''-3/-3 -1/-1 -2/-2'']
                    \<and> text_faces text = [[(Some (0, ''0 0 0 1.000 1.000 1.000''), Some (0, ''0 1'')),
          (Some (2, ''0 1 0 1.000 1.000 1.000''), Some (2, ''0 0'')),
          (Some (1, ''1 0 0 1.000 1.000 1.000''), Some (1, ''1 1''))]]))"
proof -
  let ?s = "(run_calls
      [Call_AddTri (mk_tri (mk_vert 0 0 0 0) (mk_vert 1 0 1 0) (mk_vert 0 1 0 1) False False)]
      (GS3DScreenshot_new 0))"
  have t: "m_tris ?s = [mk_tri (mk_vert 0 0 0 0) (mk_vert 1 0 1 0) (mk_vert 0 1 0 1) False False]"
    and n: "m_textures ?s = []" and d: "m_dump_dir ?s = []"
    by (simp_all add: AddTri_def GS3DScreenshot_new_def mk_tri_def Let_def)
  have ok: "tris_ok ?s" unfolding tris_ok_def t by (simp add: mk_tri_def)
  have "list_all nl_free (m_textures ?s)" unfolding n by simp
  then have pl: "plain_dump sample_host ?s ''shot''"
    by (intro sample_host_plain_dump) simp_all
  have op: "OpenCFile sample_host (Path_Combine sample_host (m_dump_dir ?s) (''shot'' @ ''.obj''))"
    by (rule sample_host_path)
  have pa: "Path_Combine sample_host (m_dump_dir ?s) (''shot'' @ ''.obj'') = ''/shot.obj''"
    unfolding d by (rule sample_host_path)
  from faces_reference_last_three [OF op ok pl, of Map.empty] obtain out where
    w: "DumpOBJ sample_host ?s ''shot'' Map.empty = Inr (True, [''/shot.obj'' \<mapsto> out])"
    and r: "face_records out = replicate (length (m_tris ?s)) ''-3/-3 -1/-1 -2/-2''"
    and f: "text_faces out = faces_of_tris sample_host (m_tris ?s)"
    unfolding pa by blast
  have r': "face_records out = [''-3/-3 -1/-1 -2/-2'']" using r unfolding t by simp
  have "faces_of_tris sample_host (m_tris ?s) = [[(Some (0, ''0 0 0 1.000 1.000 1.000''), Some (0, ''0 1'')),
          (Some (2, ''0 1 0 1.000 1.000 1.000''), Some (2, ''0 0'')),
          (Some (1, ''1 0 0 1.000 1.000 1.000''), Some (1, ''1 1''))]]"
    unfolding t by (simp add: faces_of_tris_def face_of_tri_def corner_of_def mk_tri_def sample_texts)
  with f have f': "text_faces out = [[(Some (0, ''0 0 0 1.000 1.000 1.000''), Some (0, ''0 1'')),
          (Some (2, ''0 1 0 1.000 1.000 1.000''), Some (2, ''0 0'')),
          (Some (1, ''1 0 0 1.000 1.000 1.000''), Some (1, ''1 1''))]]" by simp
  have "case DumpOBJ sample_host ?s ''shot'' Map.empty of
        Inl e \<Rightarrow> False
      | Inr (ok, fs') \<Rightarrow>
          ok \<and> (case fs' ''/shot.obj'' of
                  None \<Rightarrow> False
                | Some text \<Rightarrow>
                    face_records text = [''-3/-3 -1/-1 -2/-2'']
                    \<and> text_faces text = [[(Some (0, ''0 0 0 1.000 1.000 1.000''), Some (0, ''0 1'')),
          (Some (2, ''0 1 0 1.000 1.000 1.000''), Some (2, ''0 0'')),
          (Some (1, ''1 0 0 1.000 1.000 1.000''), Some (1, ''1 1''))]])"
    unfolding w using r' f' by simp
  with op ok pl show ?thesis by blast
qed

text \<open>
  C5 as stated fails: for a batch of one triangle with the vertices \<open>a\<close>, \<open>b\<close>, \<open>c\<close>
  printed in this order as the vertex statements number 0, 1 and 2, the face
  \<open>f -3/-3 -1/-1 -2/-2\<close> of the file written names the statements 0, 2, 1, that is
  \<open>a\<close>, \<open>c\<close>, \<open>b\<close> (first, third, second), and not 2, 0, 1, that is \<open>c\<close>, \<open>a\<close>, \<open>b\<close>
  (third, first, second).
\<close>

theorem faces_reference_last_three_counterexample:
  "DumpOBJ sample_host (run_calls
      [Call_AddTri (mk_tri (mk_vert 0 0 0 0) (mk_vert 1 0 1 0) (mk_vert 0 1 0 1) False False)]
      (GS3DScreenshot_new 0)) ''shot'' Map.empty
   = Inr (True, [''/shot.obj'' \<mapsto> (''# PCSX2 3D Screenshot'' @ newline @
         ''mtllib shot.mtl'' @ newline @ newline @
         ''v 0 0 0 1.000 1.000 1.000'' @ newline @
         ''v 1 0 0 1.000 1.000 1.000'' @ newline @
         ''v 0 1 0 1.000 1.000 1.000'' @ newline @
         ''vt 0 1'' @ newline @
         ''vt 1 1'' @ newline @
         ''vt 0 0'' @ newline @
         ''g Normal'' @ newline @
         ''usemtl NoTexture'' @ newline @
         ''f -3/-3 -1/-1 -2/-2'' @ newline @ newline)])
   \<and> text_faces (''# PCSX2 3D Screenshot'' @ newline @
         ''mtllib shot.mtl'' @ newline @ newline @
         ''v 0 0 0 1.000 1.000 1.000'' @ newline @
         ''v 1 0 0 1.000 1.000 1.000'' @ newline @
         ''v 0 1 0 1.000 1.000 1.000'' @ newline @
         ''vt 0 1'' @ newline @
         ''vt 1 1'' @ newline @
         ''vt 0 0'' @ newline @
         ''g Normal'' @ newline @
         ''usemtl NoTexture'' @ newline @
         ''f -3/-3 -1/-1 -2/-2'' @ newline @ newline) = [[(Some (0, ''0 0 0 1.000 1.000 1.000''), Some (0, ''0 1'')),
          (Some (2, ''0 1 0 1.000 1.000 1.000''), Some (2, ''0 0'')),
          (Some (1, ''1 0 0 1.000 1.000 1.000''), Some (1, ''1 1''))]]
   \<and> [[(Some (0, ''0 0 0 1.000 1.000 1.000''), Some (0, ''0 1'')),
          (Some (2, ''0 1 0 1.000 1.000 1.000''), Some (2, ''0 0'')),
          (Some (1, ''1 0 0 1.000 1.000 1.000''), Some (1, ''1 1''))]] \<noteq> [[(Some (2, ''0 1 0 1.000 1.000 1.000''), Some (2, ''0 0'')),
          (Some (0, ''0 0 0 1.000 1.000 1.000''), Some (0, ''0 1'')),
          (Some (1, ''1 0 0 1.000 1.000 1.000''), Some (1, ''1 1''))]]"
proof -
  let ?s = "(run_calls
      [Call_AddTri (mk_tri (mk_vert 0 0 0 0) (mk_vert 1 0 1 0) (mk_vert 0 1 0 1) False False)]
      (GS3DScreenshot_new 0))"
  let ?t = "mk_tri (mk_vert 0 0 0 0) (mk_vert 1 0 1 0) (mk_vert 0 1 0 1) False False"
  have t: "m_tris ?s = [?t]" and d: "m_dump_dir ?s = []"
    by (simp_all add: AddTri_def GS3DScreenshot_new_def mk_tri_def Let_def)
  let ?items = "[Obj_header, Obj_mtllib ''shot''] @
             map vert_item (list3 (verts ?t)) @ map texcoord_item (list3 (verts ?t)) @
             [Obj_g ''Normal'', Obj_usemtl ''NoTexture'', face_record]"
  have i: "DumpOBJ_items ?s ''shot'' = Inr ?items"
    using t by (rule one_tri_items) (simp_all add: mk_tri_def)
  have x: "concat (map (render_obj sample_host) ?items) = (''# PCSX2 3D Screenshot'' @ newline @
         ''mtllib shot.mtl'' @ newline @ newline @
         ''v 0 0 0 1.000 1.000 1.000'' @ newline @
         ''v 1 0 0 1.000 1.000 1.000'' @ newline @
         ''v 0 1 0 1.000 1.000 1.000'' @ newline @
         ''vt 0 1'' @ newline @
         ''vt 1 1'' @ newline @
         ''vt 0 0'' @ newline @
         ''g Normal'' @ newline @
         ''usemtl NoTexture'' @ newline @
         ''f -3/-3 -1/-1 -2/-2'' @ newline @ newline)"
    by (simp add: render_vert_item render_texcoord_item render_face_record sample_texts mk_tri_def)
  have pa: "Path_Combine sample_host (m_dump_dir ?s) (''shot'' @ ''.obj'') = ''/shot.obj''"
    unfolding d by (rule sample_host_path)
  have w: "DumpOBJ sample_host ?s ''shot'' Map.empty = Inr (True, [''/shot.obj'' \<mapsto> (''# PCSX2 3D Screenshot'' @ newline @
         ''mtllib shot.mtl'' @ newline @ newline @
         ''v 0 0 0 1.000 1.000 1.000'' @ newline @
         ''v 1 0 0 1.000 1.000 1.000'' @ newline @
         ''v 0 1 0 1.000 1.000 1.000'' @ newline @
         ''vt 0 1'' @ newline @
         ''vt 1 1'' @ newline @
         ''vt 0 0'' @ newline @
         ''g Normal'' @ newline @
         ''usemtl NoTexture'' @ newline @
         ''f -3/-3 -1/-1 -2/-2'' @ newline @ newline)])"
    unfolding DumpOBJ_def Let_def pa i x [symmetric] by (simp add: sample_host_path)
  have "list_all nl_free (m_textures ?s)"
    by (simp add: AddTri_def GS3DScreenshot_new_def Let_def)
  then have pl: "plain_dump sample_host ?s ''shot''"
    by (intro sample_host_plain_dump) simp_all
  have "text_faces (concat (map (render_obj sample_host) ?items))
        = faces_of_tris sample_host (m_tris ?s)"
    using i pl by (rule DumpOBJ_items_faces)
  also have "\<dots> = [[(Some (0, ''0 0 0 1.000 1.000 1.000''), Some (0, ''0 1'')),
          (Some (2, ''0 1 0 1.000 1.000 1.000''), Some (2, ''0 0'')),
          (Some (1, ''1 0 0 1.000 1.000 1.000''), Some (1, ''1 1''))]]"
    unfolding t by (simp add: faces_of_tris_def face_of_tri_def corner_of_def mk_tri_def sample_texts)
  finally have f: "text_faces (''# PCSX2 3D Screenshot'' @ newline @
         ''mtllib shot.mtl'' @ newline @ newline @
         ''v 0 0 0 1.000 1.000 1.000'' @ newline @
         ''v 1 0 0 1.000 1.000 1.000'' @ newline @
         ''v 0 1 0 1.000 1.000 1.000'' @ newline @
         ''vt 0 1'' @ newline @
         ''vt 1 1'' @ newline @
         ''vt 0 0'' @ newline @
         ''g Normal'' @ newline @
         ''usemtl NoTexture'' @ newline @
         ''f -3/-3 -1/-1 -2/-2'' @ newline @ newline) = [[(Some (0, ''0 0 0 1.000 1.000 1.000''), Some (0, ''0 1'')),
          (Some (2, ''0 1 0 1.000 1.000 1.000''), Some (2, ''0 0'')),
          (Some (1, ''1 0 0 1.000 1.000 1.000''), Some (1, ''1 1''))]]" unfolding x .
  have "[[(Some (0, ''0 0 0 1.000 1.000 1.000''), Some (0, ''0 1'')),
          (Some (2, ''0 1 0 1.000 1.000 1.000''), Some (2, ''0 0'')),
          (Some (1, ''1 0 0 1.000 1.000 1.000''), Some (1, ''1 1''))]] \<noteq> [[(Some (2, ''0 1 0 1.000 1.000 1.000''), Some (2, ''0 0'')),
          (Some (0, ''0 0 0 1.000 1.000 1.000''), Some (0, ''0 1'')),
          (Some (1, ''1 0 0 1.000 1.000 1.000''), Some (1, ''1 1''))]]" by simp
  with w f show ?thesis by blast
qed

lemma item_stmts_injected_vertex:
  "item_stmts h (Obj_usemtl (''x'' @ newline @ ''v 9 9 9''))
   = [Stmt_other ''usemtl x'', Stmt_v ''9 9 9'']"
  by (simp add: item_stmts_def obj_stmts_def obj_lines_def newline_def classify_def)

lemma one_textured_tri_items:
  assumes "m_tris s = [t0]" and "m_textures s = [name]" and "culled t0 = False"
    and "texture_enabled t0 = True" and "texture_index t0 = 0"
  shows "DumpOBJ_items s filename
         = Inr ([Obj_header, Obj_mtllib filename] @
             map vert_item (list3 (verts t0)) @ map texcoord_item (list3 (verts t0)) @
             [Obj_g ''Normal'', Obj_usemtl name, face_record])"
  unfolding DumpOBJ_items_def
  by (simp add: tri_items_def usemtl_items_def group_items_def Let_def assms)

text \<open>
  The condition on the texture names is needed for the faces as well. With a texture
  registered under a name that holds a line feed followed by \<open>v 9 9 9\<close>, the file written
  for one triangle with this texture has a fourth vertex statement before the face, and
  the face names the vertex statements number 1, 3 and 2: the second vertex of the
  triangle, the statement that came with the name, and the third vertex.
\<close>

lemma faces_with_injected_vertex:
  "(case DumpOBJ sample_host (run_calls
      [Call_SetTextureName (''x'' @ newline @ ''v 9 9 9''),
       Call_AddTri (mk_tri (mk_vert 0 0 0 0) (mk_vert 1 0 1 0) (mk_vert 0 1 0 1) False True)]
      (GS3DScreenshot_new 0)) ''shot'' Map.empty of
      Inl e \<Rightarrow> False
    | Inr (ok, fs') \<Rightarrow>
        ok \<and> (case fs' ''/shot.obj'' of
                None \<Rightarrow> False
              | Some text \<Rightarrow>
                  text_faces text
                  = [[(Some (1, ''1 0 0 1.000 1.000 1.000''), Some (0, ''0 1'')),
                      (Some (3, ''9 9 9''), Some (2, ''0 0'')),
                      (Some (2, ''0 1 0 1.000 1.000 1.000''), Some (1, ''1 1''))]]))"
proof -
  let ?s = "run_calls
      [Call_SetTextureName (''x'' @ newline @ ''v 9 9 9''),
       Call_AddTri (mk_tri (mk_vert 0 0 0 0) (mk_vert 1 0 1 0) (mk_vert 0 1 0 1) False True)]
      (GS3DScreenshot_new 0)"
  let ?a = "mk_vert 0 0 0 0" and ?b = "mk_vert 1 0 1 0" and ?c = "mk_vert 0 1 0 1"
  let ?t = "mk_tri ?a ?b ?c False True"
  have t: "m_tris ?s = [?t]"
    and n: "m_textures ?s = [''x'' @ newline @ ''v 9 9 9'']" and d: "m_dump_dir ?s = []"
    by (simp_all add: AddTri_def SetTextureName_def GS3DScreenshot_new_def remap_uv_def
        mk_tri_def Let_def fadd_zero fmul_one)
  let ?items = "[Obj_header, Obj_mtllib ''shot''] @
             map vert_item (list3 (verts ?t)) @ map texcoord_item (list3 (verts ?t)) @
             [Obj_g ''Normal'', Obj_usemtl (''x'' @ newline @ ''v 9 9 9''), face_record]"
  have i: "DumpOBJ_items ?s ''shot'' = Inr ?items"
    using t n by (rule one_textured_tri_items) (simp_all add: mk_tri_def)
  have pa: "Path_Combine sample_host (m_dump_dir ?s) (''shot'' @ ''.obj'') = ''/shot.obj''"
    unfolding d by (rule sample_host_path)
  have w: "DumpOBJ sample_host ?s ''shot'' Map.empty
           = Inr (True, [''/shot.obj'' \<mapsto> concat (map (render_obj sample_host) ?items)])"
    unfolding DumpOBJ_def Let_def pa i by (simp add: sample_host_path)
  have v: "list3 (verts ?t) = [?a, ?b, ?c]" by (simp add: mk_tri_def)
  have f: "text_faces (concat (map (render_obj sample_host) ?items))
           = [[(Some (1, ''1 0 0 1.000 1.000 1.000''), Some (0, ''0 1'')),
               (Some (3, ''9 9 9''), Some (2, ''0 0'')),
               (Some (2, ''0 1 0 1.000 1.000 1.000''), Some (1, ''1 1''))]]"
    unfolding text_faces_def obj_stmts_render v
    by (simp add: item_stmts_header item_stmts_mtllib item_stmts_vert item_stmts_texcoord
        item_stmts_group item_stmts_injected_vertex [simplified] item_stmts_face sample_host_plain_vert
        parse_face_record resolve_def obj_position_def sample_texts)
  show ?thesis unfolding w using f by simp
qed

subsection \<open>Dumping twice\<close>









section \<open>Texture-region equality\<close>

text \<open>
  C9. The equality of texture regions compares the first three fields field-wise and
  this region's \<open>v_max\<close> with the other region's \<open>u_max\<close>. Hence a region equals
  itself exactly when its \<open>v_max\<close> equals its own \<open>u_max\<close>, and there is a region
  that is not equal to itself.
\<close>

theorem TextureRegion_eq_asymmetric:
  "(TextureRegion_eq this other \<longleftrightarrow>
      u_min this = u_min other \<and> u_max this = u_max other \<and>
      v_min this = v_min other \<and> v_max this = u_max other)
   \<and> (TextureRegion_eq this this \<longleftrightarrow> v_max this = u_max this)
   \<and> (\<exists>r. v_max r \<noteq> u_max r \<and> \<not> TextureRegion_eq r r)"
proof -
  let ?r = "\<lparr>u_min = 0, u_max = 0, v_min = 0, v_max = 1\<rparr> :: TextureRegion"
  have "v_max ?r \<noteq> u_max ?r \<and> \<not> TextureRegion_eq ?r ?r"
    by (simp add: TextureRegion_eq_def)
  then have "\<exists>r::TextureRegion. v_max r \<noteq> u_max r \<and> \<not> TextureRegion_eq r r"
    by blast
  then show ?thesis
    by (auto simp: TextureRegion_eq_def)
qed

end
